(* ===== verification/Prelude.thy ===== *)
theory Prelude
  imports Main
begin

text \<open>
  Shared vocabulary of the development: the types of the Go values every component uses,
  the collections of simplification rules the component theories fill, and the generic facts
  on lists and option folds that more than one component needs.
\<close>

section \<open>Types\<close>

text \<open>
  A Go \<open>string\<close> and a Go \<open>[]byte\<close> are both byte sequences: a list of \<open>char\<close>, one
  \<open>char\<close> per byte. A Go \<open>error\<close> is represented by its message, the absence of an error by
  \<open>None\<close>. A \<open>time.Time\<close> is the number of nanoseconds since its zero value (1 January of
  year 1, UTC), a \<open>time.Duration\<close> a number of nanoseconds. Go's \<open>int\<close> and \<open>int64\<close> are
  integers with the range checks written out where the code can leave the range.
\<close>

type_synonym bytes = string
type_synonym error = string
type_synonym gotime = int
type_synonym duration = int

abbreviation byte :: "char \<Rightarrow> int" where
  "byte c \<equiv> of_char c"

lemma byte_nonneg [simp]: "0 \<le> byte c"
  by (metis of_nat_0_le_iff of_nat_of_char)

lemma byte_less_256 [simp]: "byte c < 256"
proof -
  have "byte c = int (of_char c)" by (simp add: of_nat_of_char)
  also have "\<dots> < 256" using nat_of_char_less_256 [of c] by linarith
  finally show ?thesis .
qed

definition int64_ok :: "int \<Rightarrow> bool" where
  "int64_ok i \<longleftrightarrow> - (2 ^ 63) \<le> i \<and> i < 2 ^ 63"

text \<open>How a call into Go code can end: with a value, in a panic, or waiting for ever.\<close>

datatype 'a go_result = Returns 'a | Panics error | Blocks

section \<open>Collections of rules\<close>

text \<open>
  \<open>rest_simps\<close>: what the response writer holds after the REST helpers;
  \<open>codec_simps\<close>: the JSON field tables of the structs;
  \<open>store_simps\<close>: the operations of the in-memory stores.
\<close>

named_theorems rest_simps
named_theorems codec_simps
named_theorems store_simps

section \<open>Lists\<close>

lemma takeWhile_stop:
  "list_all P xs \<Longrightarrow> r = [] \<or> \<not> P (hd r) \<Longrightarrow> takeWhile P (xs @ r) = xs"
  by (induction xs) (cases r; auto)+

lemma dropWhile_stop:
  "list_all P xs \<Longrightarrow> r = [] \<or> \<not> P (hd r) \<Longrightarrow> dropWhile P (xs @ r) = r"
  by (induction xs) (cases r; auto)+

lemma length_dropWhile_less:
  "xs \<noteq> [] \<Longrightarrow> P (hd xs) \<Longrightarrow> length (dropWhile P xs) < length xs"
  by (cases xs) (auto simp: le_imp_less_Suc length_dropWhile_le)

lemma list_update_nth_eq: "i < length xs \<Longrightarrow> (xs[i := x]) ! j = (if i = j then x else xs ! j)"
  by auto

section \<open>Folds that may fail\<close>

text \<open>A loop over a list whose body returns early with an error.\<close>

fun fold_opt :: "('a \<Rightarrow> 'b \<Rightarrow> 'b option) \<Rightarrow> 'a list \<Rightarrow> 'b \<Rightarrow> 'b option" where
  "fold_opt f [] b = Some b"
| "fold_opt f (x # xs) b = (case f x b of None \<Rightarrow> None | Some b' \<Rightarrow> fold_opt f xs b')"

lemma fold_opt_append:
  "fold_opt f (xs @ ys) b = (case fold_opt f xs b of None \<Rightarrow> None | Some b' \<Rightarrow> fold_opt f ys b')"
  by (induction xs arbitrary: b) (auto split: option.splits)

end
