(* ===== verification/GoNum.thy ===== *)
theory GoNum
  imports Prelude
begin

text \<open>
  The parts of Go's standard library that turn text into numbers, as the gateway uses them:
  decimal integers (\<open>strconv\<close>), \<open>fmt.Sscanf\<close> with the verb \<open>%d\<close>, the rounding of
  \<open>float64\<close>, \<open>time.ParseDuration\<close> and \<open>Duration.Seconds\<close>.
\<close>

section \<open>Decimal numerals\<close>

definition is_digit :: "char \<Rightarrow> bool" where
  "is_digit c \<longleftrightarrow> 48 \<le> byte c \<and> byte c \<le> 57"

definition digit :: "int \<Rightarrow> char" where
  "digit n = char_of (48 + n)"

text \<open>Decimal digits of a non-negative integer.\<close>

fun show_nat :: "int \<Rightarrow> string" where
  "show_nat n = (if n < 10 then [digit n] else show_nat (n div 10) @ [digit (n mod 10)])"

declare show_nat.simps [simp del]

definition show_int :: "int \<Rightarrow> string" where
  "show_int i = (if i < 0 then CHR ''-'' # show_nat (- i) else show_nat i)"

definition push_digit :: "int \<Rightarrow> char \<Rightarrow> int" where
  "push_digit v c = v * 10 + (byte c - 48)"

definition digits_value :: "string \<Rightarrow> int" where
  "digits_value s = foldl push_digit 0 s"

text \<open>\<open>strconv.ParseInt(s, 10, 64)\<close>; \<open>None\<close> for a syntax or a range error.\<close>

definition ParseInt :: "string \<Rightarrow> int option" where
  "ParseInt s =
     (let neg = (s \<noteq> [] \<and> hd s = CHR ''-'');
          ds = (if s \<noteq> [] \<and> (hd s = CHR ''-'' \<or> hd s = CHR ''+'') then tl s else s)
      in if ds = [] \<or> \<not> list_all is_digit ds then None
         else let v = digits_value ds
              in if neg then (if v \<le> 2 ^ 63 then Some (- v) else None)
                 else if v < 2 ^ 63 then Some v else None)"

lemma byte_digit: "0 \<le> n \<Longrightarrow> n < 10 \<Longrightarrow> byte (digit n) = 48 + n"
  by (simp add: digit_def)

lemma is_digit_digit [simp]: "0 \<le> n \<Longrightarrow> n < 10 \<Longrightarrow> is_digit (digit n)"
  by (simp add: is_digit_def byte_digit)

lemma digits_value_snoc: "digits_value (s @ [c]) = digits_value s * 10 + (byte c - 48)"
  by (simp add: digits_value_def push_digit_def)

lemma show_nat_digits: "0 \<le> n \<Longrightarrow> list_all is_digit (show_nat n)"
proof (induction n rule: show_nat.induct)
  case (1 n)
  then show ?case by (subst show_nat.simps) auto
qed

lemma show_nat_nonempty [simp]: "show_nat n \<noteq> []"
  by (subst show_nat.simps) auto

lemma digits_value_show_nat [simp]: "0 \<le> n \<Longrightarrow> digits_value (show_nat n) = n"
proof (induction n rule: show_nat.induct)
  case (1 n)
  then show ?case
    by (subst show_nat.simps)
       (auto simp: digits_value_snoc byte_digit digits_value_def push_digit_def)
qed

lemma is_digit_not_sign: "is_digit c \<Longrightarrow> c \<noteq> CHR ''-'' \<and> c \<noteq> CHR ''+''"
  by (auto simp: is_digit_def)

lemma hd_show_nat_digit: "0 \<le> n \<Longrightarrow> is_digit (hd (show_nat n))"
  using show_nat_digits [of n] by (cases "show_nat n") (auto simp: show_nat_nonempty)

lemma show_nat_no_sign:
  assumes "0 \<le> n"
  shows "hd (show_nat n) \<noteq> CHR ''-''" "hd (show_nat n) \<noteq> CHR ''+''"
  using is_digit_not_sign [OF hd_show_nat_digit [OF assms]] by auto

text \<open>Printing an \<open>int64\<close> and reading it back is the identity.\<close>

lemma ParseInt_show_int: "int64_ok i \<Longrightarrow> ParseInt (show_int i) = Some i"
  by (auto simp: ParseInt_def show_int_def int64_ok_def Let_def show_nat_digits show_nat_no_sign)

lemma digits_value_nonneg: "list_all is_digit s \<Longrightarrow> 0 \<le> digits_value s"
  by (induction s rule: rev_induct)
     (auto simp: digits_value_snoc is_digit_def digits_value_def [of "[]"])

lemma ParseInt_range: "ParseInt s = Some i \<Longrightarrow> int64_ok i"
  using digits_value_nonneg [of s] digits_value_nonneg [of "tl s"]
  by (auto simp: ParseInt_def Let_def int64_ok_def split: if_splits)

section \<open>Sscanf with the verb d\<close>

text \<open>
  \<open>fmt.Sscanf(s, "%d", &n)\<close>: leading spaces are skipped (a newline is an error), then an
  optional sign and at least one digit are read. What follows the digits is not looked at.
  The Unicode spaces are given by their UTF-8 bytes.
\<close>

definition space_bytes :: "int list list" where
  "space_bytes =
     [[9], [11], [12], [13], [32], [194, 133], [194, 160], [225, 154, 128]]
     @ map (\<lambda>i. [226, 128, 128 + i]) [0..10]
     @ [[226, 128, 168], [226, 128, 169], [226, 128, 175], [226, 129, 159], [227, 128, 128]]"

definition space_len :: "string \<Rightarrow> nat" where
  "space_len s =
     (case List.find (\<lambda>w. take (length w) (map byte s) = w) space_bytes of
        None \<Rightarrow> 0 | Some w \<Rightarrow> length w)"

function SkipSpace :: "string \<Rightarrow> string option" where
  "SkipSpace s =
     (if s = [] then Some []
      else if byte (hd s) = 10 then None
      else if space_len s = 0 then Some s
      else SkipSpace (drop (space_len s) s))"
  by pat_completeness auto
termination by (relation "measure length") auto

declare SkipSpace.simps [simp del]

definition Sscanf_d :: "string \<Rightarrow> int option" where
  "Sscanf_d s =
     (case SkipSpace s of
        None \<Rightarrow> None
      | Some t \<Rightarrow>
          (let sgn = takeWhile (\<lambda>c. c = CHR ''-'' \<or> c = CHR ''+'') (take 1 t);
               ds = takeWhile is_digit (drop (length sgn) t)
           in if ds = [] then None else ParseInt (sgn @ ds)))"

lemma space_len_digit:
  assumes "s \<noteq> []" and "is_digit (hd s) \<or> hd s = CHR ''-''"
  shows "space_len s = 0"
proof -
  obtain c t where s: "s = c # t" using assms(1) by (cases s) auto
  have "\<forall>w \<in> set space_bytes. take (length w) (map byte s) \<noteq> w"
    using assms(2) by (auto simp: space_bytes_def s is_digit_def)
  then have "List.find (\<lambda>w. take (length w) (map byte s) = w) space_bytes = None"
    by (simp add: find_None_iff)
  then show ?thesis by (simp add: space_len_def)
qed

lemma SkipSpace_digit:
  "s \<noteq> [] \<Longrightarrow> is_digit (hd s) \<or> hd s = CHR ''-'' \<Longrightarrow> SkipSpace s = Some s"
  by (subst SkipSpace.simps) (auto simp: space_len_digit is_digit_def)

text \<open>A printed integer is read back, whatever non-digit text follows it.\<close>

lemma Sscanf_d_show_nat:
  assumes "0 \<le> n" and "n < 2 ^ 63" and "r = [] \<or> \<not> is_digit (hd r)"
  shows "Sscanf_d (show_nat n @ r) = Some n"
proof -
  have hd: "hd (show_nat n @ r) = hd (show_nat n)" by simp
  have sk: "SkipSpace (show_nat n @ r) = Some (show_nat n @ r)"
    by (rule SkipSpace_digit) (simp_all add: hd_show_nat_digit assms)
  have sg: "takeWhile (\<lambda>c. c = CHR ''-'' \<or> c = CHR ''+'') (take 1 (show_nat n @ r)) = []"
    using show_nat_no_sign [OF assms(1)] by (cases "show_nat n") auto
  have tw: "takeWhile is_digit (show_nat n @ r) = show_nat n"
    by (rule takeWhile_stop [OF show_nat_digits [OF assms(1)] assms(3)])
  have "ParseInt (show_nat n) = Some n"
    using ParseInt_show_int [of n] assms(1,2)
    by (simp add: show_int_def int64_ok_def)
  then show ?thesis
    unfolding Sscanf_d_def sk option.case Let_def sg by (simp add: tw)
qed

lemma Sscanf_d_range: "Sscanf_d s = Some i \<Longrightarrow> int64_ok i"
  by (auto simp: Sscanf_d_def Let_def dest: ParseInt_range split: option.splits if_splits)

section \<open>Rounding to float64\<close>

text \<open>
  A non-negative \<open>float64\<close> is a fraction of two non-negative integers. \<open>fl64 a b\<close> rounds \<open>a / b\<close> to 53
  significant bits, ties to even. The values the gateway computes with lie between
  \<open>2 ^ - 70\<close> and \<open>2 ^ 64\<close>, so neither overflow nor denormals occur.
\<close>

definition div_half_even :: "int \<Rightarrow> int \<Rightarrow> int" where
  "div_half_even a b =
     (let q = a div b; r = a mod b
      in if 2 * r < b \<or> (2 * r = b \<and> even q) then q else q + 1)"

function scale_up :: "int \<Rightarrow> int \<Rightarrow> int" where
  "scale_up a b = (if 0 < a \<and> a < 2 ^ 52 * b then scale_up (2 * a) b else a)"
  by pat_completeness auto
termination by (relation "measure (\<lambda>(a, b). nat (2 ^ 52 * b - a))") auto

function scale_down :: "int \<Rightarrow> int \<Rightarrow> int" where
  "scale_down a b = (if 0 < b \<and> 2 ^ 53 * b \<le> a then scale_down a (2 * b) else b)"
  by pat_completeness auto
termination by (relation "measure (\<lambda>(a, b). nat (1 + a - b))") auto

declare scale_up.simps [simp del] scale_down.simps [simp del]

definition fl64 :: "int \<Rightarrow> int \<Rightarrow> int \<times> int" where
  "fl64 a b =
     (if a = 0 then (0, 1)
      else let a' = scale_up a b; b' = scale_down a' b
           in (div_half_even a' b' * (b' div b), a' div a))"

lemma scale_up_pow: "0 < a \<Longrightarrow> \<exists>k. scale_up a b = a * 2 ^ k"
proof (induction a b rule: scale_up.induct)
  case (1 a b)
  show ?case
  proof (cases "a < 2 ^ 52 * b")
    case True
    with "1.IH" "1.prems" obtain k where "scale_up (2 * a) b = 2 * a * 2 ^ k" by auto
    with True "1.prems" have "scale_up a b = a * 2 ^ Suc k"
      by (subst scale_up.simps) simp
    then show ?thesis ..
  next
    case False
    then have "scale_up a b = a * 2 ^ 0" by (subst scale_up.simps) simp
    then show ?thesis ..
  qed
qed

lemma scale_up_bound: "0 < a \<Longrightarrow> a < 2 ^ 53 * b \<Longrightarrow> scale_up a b < 2 ^ 53 * b"
proof (induction a b rule: scale_up.induct)
  case (1 a b)
  then show ?case by (subst scale_up.simps) auto
qed

lemma scale_down_stop: "a < 2 ^ 53 * b \<Longrightarrow> scale_down a b = b"
  by (subst scale_down.simps) simp

text \<open>Integers below \<open>2 ^ 53\<close> are exact.\<close>

lemma fl64_exact:
  assumes "0 \<le> n" and "n < 2 ^ 53"
  shows "\<exists>k. fl64 n 1 = (n * 2 ^ k, 2 ^ k)"
proof (cases "n = 0")
  case True
  then have "fl64 n 1 = (n * 2 ^ 0, 2 ^ 0)" by (simp add: fl64_def)
  then show ?thesis ..
next
  case False
  then have pos: "0 < n" using assms by simp
  then obtain k where k: "scale_up n 1 = n * 2 ^ k" using scale_up_pow [of n 1] by auto
  have "scale_up n 1 < 2 ^ 53 * 1" using False assms by (intro scale_up_bound) auto
  then have "scale_down (scale_up n 1) 1 = 1" by (rule scale_down_stop)
  then have "fl64 n 1 = (n * 2 ^ k, 2 ^ k)"
    using pos k by (simp add: fl64_def Let_def div_half_even_def)
  then show ?thesis ..
qed

section \<open>Durations\<close>

text \<open>
  \<open>time.ParseDuration\<close>, on unsigned 64-bit values: \<open>leadingInt\<close> and \<open>leadingFraction\<close>
  consume the digits of a number and check for overflow at every digit, the unit is what
  follows up to the next digit or period, and the sum wraps around like the code's \<open>uint64\<close>.
\<close>

fun leadingInt :: "int \<Rightarrow> string \<Rightarrow> (int \<times> string) option" where
  "leadingInt x [] = Some (x, [])"
| "leadingInt x (c # s) =
     (if \<not> is_digit c then Some (x, c # s)
      else if x > 2 ^ 63 div 10 then None
      else let y = push_digit x c in if y > 2 ^ 63 then None else leadingInt y s)"

fun leadingFraction :: "int \<Rightarrow> int \<Rightarrow> bool \<Rightarrow> string \<Rightarrow> int \<times> int \<times> string" where
  "leadingFraction x scale overflow [] = (x, scale, [])"
| "leadingFraction x scale overflow (c # s) =
     (if \<not> is_digit c then (x, scale, c # s)
      else if overflow then leadingFraction x scale True s
      else if x > (2 ^ 63 - 1) div 10 then leadingFraction x scale True s
      else let y = push_digit x c
           in if y > 2 ^ 63 then leadingFraction x scale True s
              else leadingFraction y (scale * 10) False s)"

definition unit_map :: "(int list \<times> int) list" where
  "unit_map =
     [(map byte ''ns'', 1), (map byte ''us'', 10 ^ 3), ([194, 181, 115], 10 ^ 3),
      ([206, 188, 115], 10 ^ 3), (map byte ''ms'', 10 ^ 6), (map byte ''s'', 10 ^ 9),
      (map byte ''m'', 60 * 10 ^ 9), (map byte ''h'', 3600 * 10 ^ 9)]"

text \<open>\<open>uint64(float64(f) * (float64(unit) / scale))\<close>\<close>

definition fraction_ns :: "int \<Rightarrow> int \<Rightarrow> int \<Rightarrow> int" where
  "fraction_ns f unit scale =
     (let (a, b) = fl64 f 1; (c, d) = fl64 unit scale; (x, y) = fl64 (a * c) (b * d)
      in x div y)"

definition unit_char :: "char \<Rightarrow> bool" where
  "unit_char c \<longleftrightarrow> c \<noteq> CHR ''.'' \<and> \<not> is_digit c"

text \<open>One number with its unit: the nanoseconds and the rest of the text.\<close>

definition duration_item :: "string \<Rightarrow> (int \<times> string) option" where
  "duration_item s =
     (if s = [] \<or> \<not> (hd s = CHR ''.'' \<or> is_digit (hd s)) then None
      else case leadingInt 0 s of
        None \<Rightarrow> None
      | Some (v, s1) \<Rightarrow>
          (let pre = (length s1 \<noteq> length s);
               dot = (s1 \<noteq> [] \<and> hd s1 = CHR ''.'');
               (f, scale, s2) = (if dot then leadingFraction 0 1 False (tl s1) else (0, 1, s1));
               post = (dot \<and> length s2 \<noteq> length (tl s1));
               u = takeWhile unit_char s2;
               rest = dropWhile unit_char s2
           in if \<not> pre \<and> \<not> post then None
              else if u = [] then None
              else case map_of unit_map (map byte u) of
                None \<Rightarrow> None
              | Some unit \<Rightarrow>
                  (if v > 2 ^ 63 div unit then None
                   else let v1 = v * unit + (if f > 0 then fraction_ns f unit scale else 0)
                        in if v1 > 2 ^ 63 then None else Some (v1, rest))))"

lemma leadingInt_length: "leadingInt x s = Some (v, r) \<Longrightarrow> length r \<le> length s"
  by (induction x s rule: leadingInt.induct) (auto simp: Let_def split: if_splits)

lemma leadingFraction_length:
  "leadingFraction x k b s = (f, k', r) \<Longrightarrow> length r \<le> length s"
  by (induction x k b s rule: leadingFraction.induct) (auto simp: Let_def split: if_splits)

lemma takeWhile_dropWhile_less:
  "takeWhile P s \<noteq> [] \<Longrightarrow> length (dropWhile P s) < length s"
  by (metis length_append length_greater_0_conv less_add_same_cancel2 takeWhile_dropWhile_id)

lemma duration_item_length:
  assumes "duration_item s = Some (v, r)"
  shows "length r < length s"
proof -
  obtain w s1 where li: "leadingInt 0 s = Some (w, s1)"
    using assms by (auto simp: duration_item_def split: if_splits option.splits)
  define dot where "dot = (s1 \<noteq> [] \<and> hd s1 = CHR ''.'')"
  obtain f k s2 where fr: "(if dot then leadingFraction 0 1 False (tl s1) else (0, 1, s1)) = (f, k, s2)"
    by (cases "if dot then leadingFraction 0 1 False (tl s1) else (0, 1, s1)") auto
  have "r = dropWhile unit_char s2 \<and> takeWhile unit_char s2 \<noteq> []"
    using assms unfolding duration_item_def li dot_def [symmetric]
    by (auto simp: Let_def fr dot_def [symmetric] split: if_splits option.splits)
  then have "length r < length s2" using takeWhile_dropWhile_less by blast
  also have "length s2 \<le> length s1"
    using fr leadingFraction_length [of 0 1 False "tl s1"]
    by (cases s1) (fastforce split: if_splits)+
  also have "length s1 \<le> length s" by (rule leadingInt_length [OF li])
  finally show ?thesis .
qed

function duration_sum :: "int \<Rightarrow> string \<Rightarrow> int option" where
  "duration_sum d s =
     (if s = [] then Some d
      else case duration_item s of
        None \<Rightarrow> None
      | Some (v, r) \<Rightarrow>
          (let d' = (d + v) mod 2 ^ 64
           in if d' > 2 ^ 63 then None else duration_sum d' r))"
  by pat_completeness auto
termination by (relation "measure (\<lambda>(d, s). length s)") (auto dest: duration_item_length)

declare duration_sum.simps [simp del]

definition ParseDuration :: "string \<Rightarrow> duration option" where
  "ParseDuration orig =
     (let neg = (orig \<noteq> [] \<and> hd orig = CHR ''-'');
          s = (if orig \<noteq> [] \<and> (hd orig = CHR ''-'' \<or> hd orig = CHR ''+'') then tl orig else orig)
      in if s = ''0'' then Some 0
         else if s = [] then None
         else case duration_sum 0 s of
           None \<Rightarrow> None
         | Some d \<Rightarrow>
             (if neg then Some (- d)
              else if d > 2 ^ 63 - 1 then None else Some d))"

text \<open>\<open>int(d.Seconds())\<close>: the whole seconds plus the rest over \<open>1e9\<close>, as \<open>float64\<close>, truncated.\<close>

definition seconds_int :: "duration \<Rightarrow> int" where
  "seconds_int d =
     (let sec = \<bar>d\<bar> div 10 ^ 9; nsec = \<bar>d\<bar> mod 10 ^ 9;
          (x, y) = fl64 nsec (10 ^ 9); (a, b) = fl64 (sec * y + x) y
      in sgn d * (a div b))"

subsection \<open>Durations in whole hours\<close>

lemma foldl_push_digit_ge:
  "list_all is_digit ds \<Longrightarrow> 0 \<le> x \<Longrightarrow> x \<le> foldl push_digit x ds"
proof (induction ds arbitrary: x)
  case (Cons c ds)
  have "x \<le> push_digit x c" using Cons.prems by (auto simp: push_digit_def is_digit_def)
  also have "push_digit x c \<le> foldl push_digit (push_digit x c) ds"
    using Cons.prems by (intro Cons.IH) (auto simp: push_digit_def is_digit_def)
  finally show ?case by simp
qed simp

lemma leadingInt_digits:
  assumes "list_all is_digit ds" and "0 \<le> x" and "foldl push_digit x ds \<le> 2 ^ 63"
    and "r = [] \<or> \<not> is_digit (hd r)"
  shows "leadingInt x (ds @ r) = Some (foldl push_digit x ds, r)"
  using assms(1-3)
proof (induction ds arbitrary: x)
  case Nil
  then show ?case using assms(4) by (cases r) auto
next
  case (Cons c ds)
  have pos: "0 \<le> push_digit x c" and ten: "x * 10 \<le> push_digit x c"
    using Cons.prems by (auto simp: push_digit_def is_digit_def)
  have le: "push_digit x c \<le> 2 ^ 63"
    using foldl_push_digit_ge [of ds "push_digit x c"] Cons.prems pos by auto
  with ten have "x \<le> 2 ^ 63 div 10" by simp
  then show ?case using Cons pos le by (auto simp: Let_def)
qed

lemma ParseDuration_hours:
  assumes "0 \<le> n" and "n * (3600 * 10 ^ 9) < 2 ^ 63"
  shows "ParseDuration (show_nat n @ ''h'') = Some (n * (3600 * 10 ^ 9))"
proof -
  let ?s = "show_nat n @ ''h''"
  have hd: "hd ?s = hd (show_nat n)" by simp
  have li: "leadingInt 0 ?s = Some (n, ''h'')"
    using leadingInt_digits [of "show_nat n" 0 "''h''"] assms
    by (simp add: show_nat_digits digits_value_show_nat [unfolded digits_value_def] is_digit_def)
  have fits: "n * 3600000000000 \<le> 9223372036854775808" "n \<le> 2562047" using assms(2) by auto
  have "map_of unit_map (map byte ''h'') = Some (3600 * 10 ^ 9)"
    by (simp add: unit_map_def)
  then have item: "duration_item ?s = Some (n * (3600 * 10 ^ 9), [])"
    using fits assms(1) hd_show_nat_digit [OF assms(1)]
    by (simp add: duration_item_def li unit_char_def is_digit_def)
  have "(n * (3600 * 10 ^ 9)) mod 2 ^ 64 = n * (3600 * 10 ^ 9)"
    using assms by (intro mod_pos_pos_trivial) auto
  then have "duration_sum 0 ?s = Some (n * (3600 * 10 ^ 9))"
    using fits by (subst duration_sum.simps, simp add: item, subst duration_sum.simps, simp)
  moreover have "?s \<noteq> ''0''" by (auto simp: append_eq_Cons_conv)
  ultimately show ?thesis
    using assms show_nat_no_sign [OF assms(1)] by (simp add: ParseDuration_def Let_def)
qed

lemma duration_sum_nonneg: "duration_sum d s = Some v \<Longrightarrow> 0 \<le> d \<Longrightarrow> 0 \<le> v \<and> (s \<noteq> [] \<longrightarrow> v \<le> 2 ^ 63)"
proof (induction d s rule: duration_sum.induct)
  case (1 d s)
  show ?case
  proof (cases "s = []")
    case True
    with "1.prems" show ?thesis by (simp add: duration_sum.simps)
  next
    case False
    with "1.prems" obtain w r where it: "duration_item s = Some (w, r)"
      by (subst (asm) duration_sum.simps) (auto split: option.splits)
    let ?d = "(d + w) mod 2 ^ 64"
    have le: "?d \<le> 2 ^ 63" and rec: "duration_sum ?d r = Some v"
      using "1.prems" False it
      by (subst (asm) duration_sum.simps, auto simp: Let_def split: if_splits)+
    have "0 \<le> v \<and> (r \<noteq> [] \<longrightarrow> v \<le> 2 ^ 63)"
      using "1.IH" [OF False it refl refl] le rec by auto
    moreover have "r = [] \<Longrightarrow> v = ?d" using rec by (subst (asm) duration_sum.simps) simp
    ultimately show ?thesis using le by (cases "r = []") auto
  qed
qed

lemma ParseDuration_range: "ParseDuration s = Some d \<Longrightarrow> int64_ok d"
  using duration_sum_nonneg [of 0 s] duration_sum_nonneg [of 0 "tl s"]
  by (auto simp: ParseDuration_def Let_def int64_ok_def split: if_splits option.splits)

lemma seconds_int_whole:
  assumes "0 \<le> n" and "n < 2 ^ 53"
  shows "seconds_int (n * 10 ^ 9) = n"
proof -
  obtain k where k: "fl64 n 1 = (n * 2 ^ k, 2 ^ k)" using fl64_exact [OF assms] by auto
  have "fl64 0 (10 ^ 9) = (0, 1)" by (simp add: fl64_def)
  with k assms(1) show ?thesis
    by (cases "n = 0") (auto simp: seconds_int_def Let_def sgn_if abs_mult fl64_def [of 0])
qed

end
