(* ===== verification/GoJson.thy ===== *)
theory GoJson
  imports GoNum
begin

text \<open>
  The part of Go's \<open>encoding/json\<close> the gateway uses: the text of a JSON document
  (\<open>jprint\<close>, \<open>json_parse\<close>), strings with their escapes and their UTF-8 check, and the
  decoding of an object into a struct by a table of fields. The main facts are the round
  trips \<open>parse_str_esc\<close> and \<open>json_parse_jprint\<close>. Number literals are kept as text,
  the limit of 10000 nested values is not modelled.
\<close>

section \<open>UTF-8\<close>

definition rune_size :: "int \<Rightarrow> nat" where
  "rune_size b =
     (if b < 128 then 1 else if 194 \<le> b \<and> b \<le> 223 then 2
      else if 224 \<le> b \<and> b \<le> 239 then 3 else if 240 \<le> b \<and> b \<le> 244 then 4 else 0)"

definition accept_second :: "int \<Rightarrow> int \<Rightarrow> bool" where
  "accept_second b c \<longleftrightarrow>
     (if b = 224 then 160 else if b = 240 then 144 else 128) \<le> c \<and>
     c \<le> (if b = 237 then 159 else if b = 244 then 143 else 191)"

definition is_cont :: "char \<Rightarrow> bool" where
  "is_cont c \<longleftrightarrow> 128 \<le> byte c \<and> byte c \<le> 191"

text \<open>The length of the rune at the head of a byte sequence, 0 where it is not valid UTF-8.\<close>

definition utf8_len :: "string \<Rightarrow> nat" where
  "utf8_len s =
     (case s of [] \<Rightarrow> 0
      | c # t \<Rightarrow>
          (let n = rune_size (byte c)
           in if n \<le> 1 then n
              else if length s < n then 0
              else if accept_second (byte c) (byte (hd t)) \<and> list_all is_cont (take (n - 2) (tl t))
              then n else 0))"

lemma utf8_len_le: "utf8_len s \<le> length s"
  by (auto simp: utf8_len_def Let_def split: list.splits)

lemma utf8_len_ascii: "byte c < 128 \<Longrightarrow> utf8_len (c # s) = 1"
  by (simp add: utf8_len_def rune_size_def)

function utf8_valid :: "string \<Rightarrow> bool" where
  "utf8_valid s =
     (if s = [] then True else if utf8_len s = 0 then False else utf8_valid (drop (utf8_len s) s))"
  by pat_completeness auto
termination by (relation "measure length") (auto simp: length_greater_0_conv)

declare utf8_valid.simps [simp del]

lemma utf8_valid_Nil [simp]: "utf8_valid []"
  by (subst utf8_valid.simps) simp

lemma utf8_valid_ascii [simp]: "byte c < 128 \<Longrightarrow> utf8_valid (c # s) = utf8_valid s"
  by (subst utf8_valid.simps) (simp add: utf8_len_ascii)

lemma utf8_len_take_append:
  assumes "utf8_len s = n" and "0 < n"
  shows "utf8_len (take n s @ t) = n"
proof -
  obtain c r where s: "s = c # r" using assms by (cases s) (auto simp: utf8_len_def)
  have n: "n = rune_size (byte c)" and len: "n \<le> length s"
    using assms utf8_len_le [of s] by (auto simp: utf8_len_def s Let_def split: if_splits)
  show ?thesis
  proof (cases "n \<le> 1")
    case True
    with assms(2) have "n = 1" by simp
    moreover with n have "rune_size (byte c) = 1" by simp
    ultimately show ?thesis by (simp add: s utf8_len_def)
  next
    case False
    then obtain m where m: "n = Suc (Suc m)" by (metis One_nat_def Suc_le_mono le0 not0_implies_Suc)
    obtain d u where r: "r = d # u" using len m s by (cases r) auto
    have "accept_second (byte c) (byte d) \<and> list_all is_cont (take m u)"
      using assms m n by (auto simp: utf8_len_def s r Let_def split: if_splits)
    moreover have "length (take m u) = m" using len m s r by simp
    ultimately show ?thesis using m n by (simp add: s r utf8_len_def Let_def)
  qed
qed

definition encode_rune :: "int \<Rightarrow> string" where
  "encode_rune r =
     map char_of
       (if r < 128 then [r]
        else if r < 2048 then [192 + r div 64, 128 + r mod 64]
        else if r < 65536 then [224 + r div 4096, 128 + (r div 64) mod 64, 128 + r mod 64]
        else [240 + r div 262144, 128 + (r div 4096) mod 64, 128 + (r div 64) mod 64, 128 + r mod 64])"

definition replacement :: string where
  "replacement = encode_rune 65533"

lemma encode_rune_byte: "byte c < 128 \<Longrightarrow> encode_rune (byte c) = [c]"
  by (simp add: encode_rune_def)

section \<open>Strings\<close>

definition hex_digit :: "int \<Rightarrow> char" where
  "hex_digit n = (if n < 10 then char_of (48 + n) else char_of (87 + n))"

definition hex_value :: "char \<Rightarrow> int option" where
  "hex_value c =
     (let b = byte c
      in if 48 \<le> b \<and> b \<le> 57 then Some (b - 48)
         else if 97 \<le> b \<and> b \<le> 102 then Some (b - 87)
         else if 65 \<le> b \<and> b \<le> 70 then Some (b - 55) else None)"

text \<open>The four hexadecimal digits after \<open>\u\<close>.\<close>

fun hex4 :: "string \<Rightarrow> (int \<times> string) option" where
  "hex4 (a # b # c # d # s) =
     (case (hex_value a, hex_value b, hex_value c, hex_value d) of
        (Some w, Some x, Some y, Some z) \<Rightarrow> Some (((w * 16 + x) * 16 + y) * 16 + z, s)
      | _ \<Rightarrow> None)"
| "hex4 _ = None"

text \<open>What follows a backslash: the bytes it stands for and the rest.\<close>

fun parse_escape :: "string \<Rightarrow> (string \<times> string) option" where
  "parse_escape [] = None"
| "parse_escape (c # s) =
     (if c = CHR 0x22 \<or> c = CHR 0x5C \<or> c = CHR ''/'' then Some ([c], s)
      else if c = CHR ''b'' then Some ([CHR 0x08], s)
      else if c = CHR ''f'' then Some ([CHR 0x0C], s)
      else if c = CHR ''n'' then Some ([CHR 0x0A], s)
      else if c = CHR ''r'' then Some ([CHR 0x0D], s)
      else if c = CHR ''t'' then Some ([CHR 0x09], s)
      else if c = CHR ''u'' then
        (case hex4 s of
           None \<Rightarrow> None
         | Some (r, t) \<Rightarrow>
             (if 55296 \<le> r \<and> r \<le> 57343 then
                (case t of
                   x # y # t' \<Rightarrow>
                     (if x = CHR 0x5C \<and> y = CHR ''u'' then
                        (case hex4 t' of
                           Some (r2, t2) \<Rightarrow>
                             (if r \<le> 56319 \<and> 56320 \<le> r2 \<and> r2 \<le> 57343
                              then Some (encode_rune ((r - 55296) * 1024 + (r2 - 56320) + 65536), t2)
                              else Some (replacement, t))
                         | None \<Rightarrow> Some (replacement, t))
                      else Some (replacement, t))
                 | _ \<Rightarrow> Some (replacement, t))
              else Some (encode_rune r, t)))
      else None)"

lemma hex4_length: "hex4 s = Some (r, t) \<Longrightarrow> length t < length s"
  by (induction s rule: hex4.induct) (auto split: option.splits)

lemma parse_escape_length: "parse_escape s = Some (u, t) \<Longrightarrow> length t < length s"
  by (induction s rule: parse_escape.induct)
     (fastforce split: if_splits option.splits list.splits dest: hex4_length)+

text \<open>A string literal after its opening quote.\<close>

function parse_str :: "string \<Rightarrow> (string \<times> string) option" where
  "parse_str [] = None"
| "parse_str (c # s) =
     (if c = CHR 0x22 then Some ([], s)
      else if byte c < 32 then None
      else if c = CHR 0x5C then
        (case parse_escape s of
           None \<Rightarrow> None
         | Some (u, t) \<Rightarrow> map_option (\<lambda>(v, r). (u @ v, r)) (parse_str t))
      else
        (let n = utf8_len (c # s)
         in if n = 0 then map_option (\<lambda>(v, r). (replacement @ v, r)) (parse_str s)
            else map_option (\<lambda>(v, r). (take n (c # s) @ v, r)) (parse_str (drop n (c # s)))))"
  by pat_completeness auto
termination by (relation "measure length") (auto dest: parse_escape_length)

declare parse_str.simps [simp del]

text \<open>The escaped form of a string, as \<open>json.Marshal\<close> writes it between the quotes.\<close>

definition html_safe :: "char \<Rightarrow> bool" where
  "html_safe c \<longleftrightarrow>
     32 \<le> byte c \<and> c \<notin> {CHR 0x22, CHR 0x5C, CHR ''<'', CHR ''>'', CHR ''&''}"

definition esc_byte :: "char \<Rightarrow> string" where
  "esc_byte c =
     CHR 0x5C #
     (if c = CHR 0x22 \<or> c = CHR 0x5C then [c]
      else if c = CHR 0x08 then ''b'' else if c = CHR 0x0C then ''f''
      else if c = CHR 0x0A then ''n'' else if c = CHR 0x0D then ''r''
      else if c = CHR 0x09 then ''t''
      else ''u00'' @ [hex_digit (byte c div 16), hex_digit (byte c mod 16)])"

definition line_sep :: "string \<Rightarrow> bool" where
  "line_sep s \<longleftrightarrow> map byte (take 3 s) \<in> {[226, 128, 168], [226, 128, 169]}"

function esc :: "string \<Rightarrow> string" where
  "esc [] = []"
| "esc (c # s) =
     (if byte c < 128 then (if html_safe c then [c] else esc_byte c) @ esc s
      else
        (let n = utf8_len (c # s)
         in if n = 0 then CHR 0x5C # ''ufffd'' @ esc s
            else if line_sep (c # s) then
              CHR 0x5C # ''u202'' @ [hex_digit (byte (s ! 1) mod 16)] @ esc (drop 2 s)
            else take n (c # s) @ esc (drop n (c # s))))"
  by pat_completeness auto
termination by (relation "measure length") auto

declare esc.simps [simp del]

lemma parse_str_Nil [simp]: "parse_str [] = None"
  and parse_str_quote [simp]: "parse_str (CHR 0x22 # s) = Some ([], s)"
  by (simp_all add: parse_str.simps)

lemma esc_Nil [simp]: "esc [] = []"
  by (simp add: esc.simps)

lemma hex_value_digit: "0 \<le> n \<Longrightarrow> n < 16 \<Longrightarrow> hex_value (hex_digit n) = Some n"
  by (auto simp: hex_value_def hex_digit_def)

lemma hex4_ascii:
  assumes "byte c < 128"
  shows "hex4 (CHR ''0'' # CHR ''0'' # hex_digit (byte c div 16) # hex_digit (byte c mod 16) # t)
           = Some (byte c, t)"
proof -
  have "byte c div 16 < 16" "0 \<le> byte c div 16"
    using assms by (auto simp: pos_imp_zdiv_nonneg_iff)
  then show ?thesis by (simp add: hex_value_digit hex_value_def [of "CHR ''0''"] Let_def)
qed

text \<open>An escaped byte is read back.\<close>

lemma parse_str_esc_byte:
  assumes "byte c < 128"
  shows "parse_str (esc_byte c @ t) = map_option (\<lambda>(v, r). (c # v, r)) (parse_str t)"
proof -
  obtain e where e: "esc_byte c = CHR 0x5C # e" by (simp add: esc_byte_def)
  have "parse_escape (e @ t) = Some ([c], t)"
  proof (cases "c \<in> {CHR 0x22, CHR 0x5C, CHR 0x08, CHR 0x0C, CHR 0x0A, CHR 0x0D, CHR 0x09}")
    case True
    then show ?thesis using e by (auto simp: esc_byte_def)
  next
    case False
    then have "e = ''u00'' @ [hex_digit (byte c div 16), hex_digit (byte c mod 16)]"
      using e by (auto simp: esc_byte_def)
    moreover have "\<not> 55296 \<le> byte c" using assms by simp
    ultimately show ?thesis
      using hex4_ascii [OF assms, of t] assms
      by (simp add: encode_rune_byte del: hex4.simps)
  qed
  then show ?thesis by (simp add: e parse_str.simps case_prod_unfold)
qed

lemma parse_str_safe:
  assumes "html_safe c" and "byte c < 128"
  shows "parse_str (c # t) = map_option (\<lambda>(v, r). (c # v, r)) (parse_str t)"
  using assms by (auto simp: parse_str.simps html_safe_def utf8_len_ascii)

lemma parse_str_rune:
  assumes "byte c \<ge> 128" and "utf8_len (c # s) = n" and "0 < n"
  shows "parse_str (take n (c # s) @ t) = map_option (\<lambda>(v, r). (take n (c # s) @ v, r)) (parse_str t)"
proof -
  let ?w = "take n (c # s)"
  obtain w where w: "?w = c # w" using assms(3) by (cases n) auto
  have len: "utf8_len (?w @ t) = n" by (rule utf8_len_take_append [OF assms(2,3)])
  have lw: "length ?w = n" using utf8_len_le [of "c # s"] assms(2) by simp
  have ne: "c \<noteq> CHR 0x22" "c \<noteq> CHR 0x5C" "\<not> byte c < 32" using assms(1) by auto
  have "take n (?w @ t) = ?w" "drop n (?w @ t) = t" using lw by auto
  then show ?thesis using len assms(3) ne unfolding w
    by (simp add: parse_str.simps)
qed

lemma line_sep_escape:
  assumes "line_sep (c # s)"
  shows "parse_str (CHR 0x5C # ''u202'' @ hex_digit (byte (s ! 1) mod 16) # t)
           = map_option (\<lambda>(v, r). (c # take 2 s @ v, r)) (parse_str t)"
proof -
  obtain d e u where s: "s = d # e # u"
    using assms by (cases s; cases "tl s") (auto simp: line_sep_def)
  have b: "byte c = 226" "byte d = 128" "byte e = 168 \<or> byte e = 169"
    using assms by (auto simp: line_sep_def s)
  have c: "c = char_of (226 :: int)" "d = char_of (128 :: int)"
    "e = char_of (168 :: int) \<or> e = char_of (169 :: int)"
    using b by (metis char_of_char)+
  have hexes: "hex_value (CHR ''2'') = Some 2" "hex_value (CHR ''0'') = Some 0"
    "hex_value (CHR ''8'') = Some 8" "hex_value (CHR ''9'') = Some 9"
    by (simp_all add: hex_value_def)
  have dig: "hex_digit 8 = CHR ''8''" "hex_digit 9 = CHR ''9''"
    by code_simp+
  show ?thesis
    using c(3)
    by (elim disjE) (simp_all add: s c(1,2) dig hexes encode_rune_def parse_str.simps)
qed

text \<open>Valid UTF-8 survives \<open>json.Marshal\<close> and the scanner.\<close>

theorem parse_str_esc: "utf8_valid s \<Longrightarrow> parse_str (esc s @ CHR 0x22 # r) = Some (s, r)"
proof (induction s rule: esc.induct)
  case 1
  show ?case by simp
next
  case (2 c s)
  let ?n = "utf8_len (c # s)"
  show ?case
  proof (cases "byte c < 128")
    case True
    then have "utf8_valid s" using "2.prems" by simp
    then have ih: "parse_str (esc s @ CHR 0x22 # r) = Some (s, r)" using "2.IH"(1) True by simp
    show ?thesis
      using True ih parse_str_safe [OF _ True] parse_str_esc_byte [OF True]
      by (cases "html_safe c") (simp_all add: esc.simps)
  next
    case False
    then have n: "?n \<noteq> 0" and v: "utf8_valid (drop ?n (c # s))"
      using "2.prems" by (subst (asm) utf8_valid.simps, auto split: if_splits)+
    have ih: "parse_str (esc (drop ?n (c # s)) @ CHR 0x22 # r) = Some (drop ?n (c # s), r)"
      if "\<not> line_sep (c # s)" using "2.IH"(4) [OF False refl n that v] .
    show ?thesis
    proof (cases "line_sep (c # s)")
      case True
      then have "byte c = 226" by (auto simp: line_sep_def)
      then have three: "?n = 3"
        using n by (auto simp: utf8_len_def rune_size_def Let_def split: if_splits)
      then have "utf8_valid (drop 2 s)" using v by (simp add: numeral_3_eq_3 numeral_2_eq_2)
      then have "parse_str (esc (drop 2 s) @ CHR 0x22 # r) = Some (drop 2 s, r)"
        using "2.IH"(3) [OF False refl n True] by blast
      then show ?thesis
        using line_sep_escape [OF True, of "esc (drop 2 s) @ CHR 0x22 # r"] False n True
        by (simp add: esc.simps)
    next
      case nols: False
      have "parse_str (take ?n (c # s) @ esc (drop ?n (c # s)) @ CHR 0x22 # r)
              = Some (take ?n (c # s) @ drop ?n (c # s), r)"
        using parse_str_rune [of c s ?n] False n ih [OF nols] by simp
      then show ?thesis using False n nols by (simp add: esc.simps Let_def)
    qed
  qed
qed

section \<open>Values and their text\<close>

datatype json =
    JNull | JBool bool | JNum string | JStr string
  | JArr "json list" | JObj "(string \<times> json) list"

abbreviation quote :: char where
  "quote \<equiv> CHR 0x22"

fun jprint :: "json \<Rightarrow> string"
  and jprint_elems :: "json list \<Rightarrow> string"
  and jprint_members :: "(string \<times> json) list \<Rightarrow> string"
where
  "jprint JNull = ''null''"
| "jprint (JBool b) = (if b then ''true'' else ''false'')"
| "jprint (JNum t) = t"
| "jprint (JStr s) = quote # esc s @ [quote]"
| "jprint (JArr js) = CHR ''['' # (if js = [] then '']'' else jprint_elems js)"
| "jprint (JObj ms) = CHR ''{'' # (if ms = [] then ''}'' else jprint_members ms)"
| "jprint_elems [] = []"
| "jprint_elems (j # js) = jprint j @ (if js = [] then '']'' else CHR '','' # jprint_elems js)"
| "jprint_members [] = []"
| "jprint_members ((k, j) # ms) =
     quote # esc k @ quote # CHR '':'' # jprint j
       @ (if ms = [] then ''}'' else CHR '','' # jprint_members ms)"

definition is_ws :: "char \<Rightarrow> bool" where
  "is_ws c \<longleftrightarrow> byte c \<in> {32, 9, 10, 13}"

abbreviation skip_ws :: "string \<Rightarrow> string" where
  "skip_ws \<equiv> dropWhile is_ws"

text \<open>A number literal: the integer part without leading zeros, a fraction, an exponent.\<close>

definition scan_int :: "string \<Rightarrow> (string \<times> string) option" where
  "scan_int s =
     (let neg = takeWhile ((=) (CHR ''-'')) (take 1 s); t = drop (length neg) s
      in if t = [] \<or> \<not> is_digit (hd t) then None
         else if hd t = CHR ''0'' then Some (neg @ ''0'', tl t)
         else Some (neg @ takeWhile is_digit t, dropWhile is_digit t))"

definition scan_frac :: "string \<Rightarrow> (string \<times> string) option" where
  "scan_frac s =
     (if s = [] \<or> hd s \<noteq> CHR ''.'' then Some ([], s)
      else if takeWhile is_digit (tl s) = [] then None
      else Some (CHR ''.'' # takeWhile is_digit (tl s), dropWhile is_digit (tl s)))"

definition scan_exp :: "string \<Rightarrow> (string \<times> string) option" where
  "scan_exp s =
     (if s = [] \<or> \<not> (hd s = CHR ''e'' \<or> hd s = CHR ''E'') then Some ([], s)
      else let sgn = takeWhile (\<lambda>c. c = CHR ''-'' \<or> c = CHR ''+'') (take 1 (tl s));
               t = drop (length sgn) (tl s)
           in if takeWhile is_digit t = [] then None
              else Some (hd s # sgn @ takeWhile is_digit t, dropWhile is_digit t))"

definition scan_number :: "string \<Rightarrow> (string \<times> string) option" where
  "scan_number s =
     (case scan_int s of None \<Rightarrow> None | Some (a, s1) \<Rightarrow>
       (case scan_frac s1 of None \<Rightarrow> None | Some (b, s2) \<Rightarrow>
         (case scan_exp s2 of None \<Rightarrow> None | Some (c, s3) \<Rightarrow> Some (a @ b @ c, s3))))"

definition literal :: "string \<Rightarrow> json \<Rightarrow> string \<Rightarrow> (json \<times> string) option" where
  "literal w j s = (if take (length w) s = w then Some (j, drop (length w) s) else None)"

text \<open>
  The parser of one value. Its fuel bounds the depth of the recursion; two nested calls consume
  at least one byte, so a fuel above twice the length of the text is always enough
  (\<open>json_value_fuel\<close>).
\<close>

fun jvalue :: "nat \<Rightarrow> string \<Rightarrow> (json \<times> string) option"
  and jelems :: "nat \<Rightarrow> string \<Rightarrow> (json list \<times> string) option"
  and jmembers :: "nat \<Rightarrow> string \<Rightarrow> ((string \<times> json) list \<times> string) option"
where
  "jvalue 0 s = None"
| "jvalue (Suc n) s =
     (case skip_ws s of
        [] \<Rightarrow> None
      | c # r \<Rightarrow>
          (if c = CHR ''{'' then
             (case skip_ws r of
                [] \<Rightarrow> None
              | d # t \<Rightarrow> (if d = CHR ''}'' then Some (JObj [], t)
                         else map_option (\<lambda>(ms, u). (JObj ms, u)) (jmembers n (d # t))))
           else if c = CHR ''['' then
             (case skip_ws r of
                [] \<Rightarrow> None
              | d # t \<Rightarrow> (if d = CHR '']'' then Some (JArr [], t)
                         else map_option (\<lambda>(js, u). (JArr js, u)) (jelems n (d # t))))
           else if c = quote then map_option (\<lambda>(v, u). (JStr v, u)) (parse_str r)
           else if c = CHR ''t'' then literal ''true'' (JBool True) (c # r)
           else if c = CHR ''f'' then literal ''false'' (JBool False) (c # r)
           else if c = CHR ''n'' then literal ''null'' JNull (c # r)
           else map_option (\<lambda>(v, u). (JNum v, u)) (scan_number (c # r))))"
| "jelems 0 s = None"
| "jelems (Suc n) s =
     (case jvalue n s of
        None \<Rightarrow> None
      | Some (j, r) \<Rightarrow>
          (case skip_ws r of
             [] \<Rightarrow> None
           | d # t \<Rightarrow>
               (if d = CHR '']'' then Some ([j], t)
                else if d = CHR '','' then map_option (\<lambda>(js, u). (j # js, u)) (jelems n t)
                else None)))"
| "jmembers 0 s = None"
| "jmembers (Suc n) s =
     (case skip_ws s of
        [] \<Rightarrow> None
      | c # r \<Rightarrow>
          (if c \<noteq> quote then None
           else case parse_str r of
             None \<Rightarrow> None
           | Some (k, r1) \<Rightarrow>
               (case skip_ws r1 of
                  [] \<Rightarrow> None
                | d # r2 \<Rightarrow>
                    (if d \<noteq> CHR '':'' then None
                     else case jvalue n r2 of
                       None \<Rightarrow> None
                     | Some (j, r3) \<Rightarrow>
                         (case skip_ws r3 of
                            [] \<Rightarrow> None
                          | e # t \<Rightarrow>
                              (if e = CHR ''}'' then Some ([(k, j)], t)
                               else if e = CHR '','' then
                                 map_option (\<lambda>(ms, u). ((k, j) # ms, u)) (jmembers n t)
                               else None))))))"

definition json_value :: "string \<Rightarrow> (json \<times> string) option" where
  "json_value s = jvalue (2 * length s + 1) s"

text \<open>\<open>json.Unmarshal\<close> reads the whole text, \<open>Decoder.Decode\<close> its first value.\<close>

definition json_parse :: "string \<Rightarrow> json option" where
  "json_parse s =
     (case json_value s of
        None \<Rightarrow> None
      | Some (j, r) \<Rightarrow> (if skip_ws r = [] then Some j else None))"

definition json_decode_first :: "string \<Rightarrow> json option" where
  "json_decode_first s = map_option fst (json_value s)"

subsection \<open>The fuel is enough\<close>

declare dropWhile_eq_Nil_conv [simp del]

lemma parse_str_length: "parse_str s = Some (v, r) \<Longrightarrow> length r < length s"
proof (induction s arbitrary: v r rule: parse_str.induct)
  case (2 c s)
  let ?n = "utf8_len (c # s)"
  show ?case
  proof (cases "c = CHR 0x22 \<or> byte c < 32 \<or> c = CHR 0x5C")
    case True
    then show ?thesis
      using "2.prems" "2.IH"(1) unfolding parse_str.simps(2) [of c s]
      by (fastforce split: if_splits option.splits dest: parse_escape_length)
  next
    case False
    then show ?thesis
      using "2.prems" "2.IH"(2,3) unfolding parse_str.simps(2) [of c s]
      by (fastforce simp: Let_def split: if_splits)
  qed
qed simp

lemma length_skip_ws: "skip_ws s = c # r \<Longrightarrow> length r < length s"
  by (metis Suc_le_eq length_Cons length_dropWhile_le)

lemma scan_number_length: "scan_number s = Some (v, r) \<Longrightarrow> length r < length s"
proof -
  have a: "length r < length s" if "scan_int s = Some (v, r)" for v r s
  proof -
    let ?neg = "takeWhile ((=) (CHR ''-'')) (take 1 s)"
    let ?t = "drop (length ?neg) s"
    have t: "?t \<noteq> []" "is_digit (hd ?t)"
      and r: "r = tl ?t \<or> r = dropWhile is_digit ?t"
      using that by (auto simp: scan_int_def Let_def split: if_splits)
    have "length r < length ?t"
      using r length_dropWhile_less [OF t(1), of is_digit, OF t(2)] t(1) by auto
    then show ?thesis by simp
  qed
  have b: "length r \<le> length s" if "scan_frac s = Some (v, r)" for v r s
    using that length_dropWhile_le [of is_digit "tl s"]
    by (auto simp: scan_frac_def split: if_splits)
  have c: "length r \<le> length s" if "scan_exp s = Some (v, r)" for v r s
  proof (cases "s = [] \<or> \<not> (hd s = CHR ''e'' \<or> hd s = CHR ''E'')")
    case True
    then show ?thesis using that by (simp add: scan_exp_def)
  next
    case False
    let ?t = "drop (length (takeWhile (\<lambda>c. c = CHR ''-'' \<or> c = CHR ''+'') (take 1 (tl s)))) (tl s)"
    have "r = dropWhile is_digit ?t"
      using that False by (auto simp: scan_exp_def Let_def split: if_splits)
    then show ?thesis using length_dropWhile_le [of is_digit ?t] by simp
  qed
  show "scan_number s = Some (v, r) \<Longrightarrow> length r < length s"
    by (auto simp: scan_number_def split: option.splits dest!: a b c)
qed

lemma literal_length: "literal w j s = Some (k, r) \<Longrightarrow> w \<noteq> [] \<Longrightarrow> s \<noteq> [] \<Longrightarrow> length r < length s"
  by (auto simp: literal_def split: if_splits)

lemma jvalue_length:
  "jvalue n s = Some (j, r) \<Longrightarrow> length r < length s"
  "jelems n s = Some (js, r) \<Longrightarrow> length r < length s"
  "jmembers n s = Some (ms, r) \<Longrightarrow> length r < length s"
proof (induction n s and n s and n s arbitrary: j r and js r and ms r
    rule: jvalue_jelems_jmembers.induct)
  case (2 n s)
  show ?case
  proof (cases "skip_ws s")
    case Nil
    with "2.prems" show ?thesis by simp
  next
    case (Cons c t)
    note len = length_skip_ws [OF Cons]
    have le: "length (c # t) \<le> length s" using len by simp
    show ?thesis
    proof (cases "c = CHR ''{'' \<or> c = CHR ''[''")
      case True
      then obtain d u where d: "skip_ws t = d # u"
        using "2.prems" Cons by (cases "skip_ws t") auto
      then show ?thesis
        using "2.prems" Cons True len length_skip_ws [OF d] "2.IH" Cons d
        by (fastforce split: if_splits)
    next
      case False
      then show ?thesis
        using "2.prems" Cons le
        by (auto split: if_splits dest!: parse_str_length scan_number_length literal_length)
    qed
  qed
next
  case (4 n s)
  then show ?case
    by (fastforce split: option.splits list.splits if_splits dest: length_skip_ws)
next
  case (6 n s)
  obtain c r0 where 1: "skip_ws s = c # r0" "c = quote"
    using "6.prems" by (auto split: list.splits if_splits)
  then obtain k r1 where 2: "parse_str r0 = Some (k, r1)"
    using "6.prems" by (auto split: option.splits)
  then obtain d r2 where 3: "skip_ws r1 = d # r2" "d = CHR '':''"
    using "6.prems" 1 by (auto split: list.splits if_splits)
  then obtain j r3 where 4: "jvalue n r2 = Some (j, r3)"
    using "6.prems" 1 2 by (auto split: option.splits)
  then obtain e t where 5: "skip_ws r3 = e # t"
    using "6.prems" 1 2 3 by (auto split: list.splits)
  have "length r3 < length r2"
    using "6.IH"(1) [OF 1(1) _ 2 _ 3(1) _ 4] 1(2) 3(2) by simp
  then have "length t < length s"
    using length_skip_ws [OF 1(1)] parse_str_length [OF 2] length_skip_ws [OF 3(1)]
      length_skip_ws [OF 5] by simp
  moreover have "r = t \<or> (\<exists>ms'. e \<noteq> CHR ''}'' \<and> e = CHR '','' \<and> jmembers n t = Some (ms', r))"
    using "6.prems" 1 2 3 4 5 by (auto split: if_splits)
  ultimately show ?case
    using "6.IH"(2) [OF 1(1) _ 2 _ 3(1) _ 4 _ 5] 1(2) 3(2) by fastforce
qed simp_all

lemma jvalue_fuel_aux:
  "(\<forall>s m. 2 * length s + 1 \<le> n \<longrightarrow> 2 * length s + 1 \<le> m \<longrightarrow> jvalue n s = jvalue m s) \<and>
   (\<forall>s m. 2 * length s + 2 \<le> n \<longrightarrow> 2 * length s + 2 \<le> m \<longrightarrow> jelems n s = jelems m s) \<and>
   (\<forall>s m. 2 * length s + 2 \<le> n \<longrightarrow> 2 * length s + 2 \<le> m \<longrightarrow> jmembers n s = jmembers m s)"
proof (induction n)
  case 0
  show ?case by simp
next
  case (Suc n)
  have ihv: "\<And>s m. 2 * length s + 1 \<le> n \<Longrightarrow> 2 * length s + 1 \<le> m \<Longrightarrow> jvalue n s = jvalue m s"
    and ihe: "\<And>s m. 2 * length s + 2 \<le> n \<Longrightarrow> 2 * length s + 2 \<le> m \<Longrightarrow> jelems n s = jelems m s"
    and ihm: "\<And>s m. 2 * length s + 2 \<le> n \<Longrightarrow> 2 * length s + 2 \<le> m \<Longrightarrow> jmembers n s = jmembers m s"
    using Suc.IH by blast+
  have v: "jvalue (Suc n) s = jvalue m s"
    if n: "2 * length s + 1 \<le> Suc n" and m: "2 * length s + 1 \<le> m" for s m
  proof -
    obtain k where k: "m = Suc k" using m by (cases m) auto
    have e: "jelems n (d # t) = jelems k (d # t)" "jmembers n (d # t) = jmembers k (d # t)"
      if "skip_ws s = c # r" "skip_ws r = d # t" for c r d t
      using n m k length_skip_ws [OF that(1)] length_skip_ws [OF that(2)]
      by (auto intro!: ihe ihm)
    show ?thesis
      unfolding k jvalue.simps by (auto split: list.splits simp: e)
  qed
  have el: "jelems (Suc n) s = jelems m s"
    if n: "2 * length s + 2 \<le> Suc n" and m: "2 * length s + 2 \<le> m" for s m
  proof -
    obtain k where k: "m = Suc k" using m by (cases m) auto
    have 1: "jvalue n s = jvalue k s" by (rule ihv) (use n m k in auto)
    have 2: "jelems n t = jelems k t"
      if "jvalue k s = Some (j, r)" "skip_ws r = d # t" for j r d t
      by (rule ihe)
         (use n m k jvalue_length(1) [OF that(1)] length_skip_ws [OF that(2)] in auto)
    show ?thesis
      unfolding k jelems.simps 1 by (auto split: list.splits option.splits simp: 2)
  qed
  have me: "jmembers (Suc n) s = jmembers m s"
    if n: "2 * length s + 2 \<le> Suc n" and m: "2 * length s + 2 \<le> m" for s m
  proof -
    obtain k where k: "m = Suc k" using m by (cases m) auto
    have 1: "jvalue n r2 = jvalue k r2"
      if "skip_ws s = c # r" "parse_str r = Some (x, r1)" "skip_ws r1 = d # r2" for c r x r1 d r2
      by (rule ihv)
         (use n m k length_skip_ws [OF that(1)] parse_str_length [OF that(2)]
            length_skip_ws [OF that(3)] in auto)
    have 2: "jmembers n t = jmembers k t"
      if "skip_ws s = c # r" "parse_str r = Some (x, r1)" "skip_ws r1 = d # r2"
        "jvalue k r2 = Some (j, r3)" "skip_ws r3 = e # t" for c r x r1 d r2 j r3 e t
      by (rule ihm)
         (use n m k length_skip_ws [OF that(1)] parse_str_length [OF that(2)]
            length_skip_ws [OF that(3)] jvalue_length(1) [OF that(4)]
            length_skip_ws [OF that(5)] in auto)
    show ?thesis
      unfolding k jmembers.simps by (auto split: list.splits option.splits simp: 1 2)
  qed
  show ?case using v el me by blast
qed

theorem json_value_fuel: "2 * length s + 1 \<le> n \<Longrightarrow> jvalue n s = json_value s"
  using jvalue_fuel_aux [of n] unfolding json_value_def by blast

subsection \<open>Printing and parsing\<close>

text \<open>
  The values the gateway marshals: numbers are printed integers, strings are valid UTF-8.
\<close>

fun json_ok :: "json \<Rightarrow> bool" where
  "json_ok (JNum t) \<longleftrightarrow> (\<exists>i. t = show_int i)"
| "json_ok (JStr s) \<longleftrightarrow> utf8_valid s"
| "json_ok (JArr js) \<longleftrightarrow> (\<forall>j \<in> set js. json_ok j)"
| "json_ok (JObj ms) \<longleftrightarrow> (\<forall>m \<in> set ms. utf8_valid (fst m) \<and> json_ok (snd m))"
| "json_ok _ \<longleftrightarrow> True"

definition value_end :: "string \<Rightarrow> bool" where
  "value_end r \<longleftrightarrow> r = [] \<or> hd r \<in> {CHR '','', CHR ''}'', CHR '']''}"

lemma value_end_simps [simp]:
  "value_end []" "value_end (CHR '','' # r)" "value_end (CHR ''}'' # r)" "value_end (CHR '']'' # r)"
  by (simp_all add: value_end_def)

lemma show_nat_zero: "0 \<le> n \<Longrightarrow> hd (show_nat n) = CHR ''0'' \<Longrightarrow> n = 0"
proof (induction n rule: show_nat.induct)
  case (1 n)
  show ?case
  proof (cases "n < 10")
    case True
    with "1.prems" have "digit n = CHR ''0''" by (subst (asm) show_nat.simps) simp
    then have "byte (digit n) = 48" by simp
    then show ?thesis using True "1.prems" by (simp add: byte_digit)
  next
    case False
    with "1.prems" have "hd (show_nat (n div 10)) = CHR ''0''"
      by (subst (asm) show_nat.simps) simp
    then have "n div 10 = 0" using "1.IH" False by simp
    then show ?thesis using False by simp
  qed
qed

lemma scan_int_show_nat:
  assumes "0 \<le> n" and "r = [] \<or> \<not> is_digit (hd r)"
  shows "scan_int (show_nat n @ r) = Some (show_nat n, r)"
    and "scan_int (CHR ''-'' # show_nat n @ r) = Some (CHR ''-'' # show_nat n, r)"
proof -
  obtain c t where ct: "show_nat n = c # t" by (cases "show_nat n") auto
  have c: "is_digit c" "c \<noteq> CHR ''-''"
    using hd_show_nat_digit [OF assms(1)] show_nat_no_sign [OF assms(1)] ct by auto
  have tw: "takeWhile is_digit (show_nat n @ r) = show_nat n"
    "dropWhile is_digit (show_nat n @ r) = r"
    using takeWhile_stop [OF show_nat_digits [OF assms(1)] assms(2)]
      dropWhile_stop [OF show_nat_digits [OF assms(1)] assms(2)] by auto
  have zero: "t = []" if "c = CHR ''0''"
    using show_nat_zero [OF assms(1)] that ct by (auto simp: show_nat.simps digit_def)
  show "scan_int (show_nat n @ r) = Some (show_nat n, r)"
    and "scan_int (CHR ''-'' # show_nat n @ r) = Some (CHR ''-'' # show_nat n, r)"
    using c zero tw unfolding ct by (auto simp: scan_int_def Let_def)
qed

lemma scan_number_show_int:
  assumes "value_end r"
  shows "scan_number (show_int i @ r) = Some (show_int i, r)"
proof -
  have "r = [] \<or> \<not> is_digit (hd r)" using assms by (auto simp: value_end_def is_digit_def)
  then have "scan_int (show_int i @ r) = Some (show_int i, r)"
    using scan_int_show_nat [of "- i" r] scan_int_show_nat [of i r] by (auto simp: show_int_def)
  moreover have "scan_frac r = Some ([], r)" "scan_exp r = Some ([], r)"
    using assms by (auto simp: scan_frac_def scan_exp_def value_end_def)
  ultimately show ?thesis by (simp add: scan_number_def)
qed

lemma hd_show_int: "hd (show_int i) = CHR ''-'' \<or> is_digit (hd (show_int i))"
  using hd_show_nat_digit [of i] by (auto simp: show_int_def)

lemma show_int_nonempty [simp]: "show_int i \<noteq> []"
  by (simp add: show_int_def)

lemma jprint_head:
  assumes "json_ok j"
  obtains c t where "jprint j = c # t" "\<not> is_ws c" "c \<noteq> CHR '']''"
proof -
  have d: "\<not> is_ws c \<and> c \<noteq> CHR '']''" if "is_digit c \<or> c = CHR ''-''" for c
    using that by (auto simp: is_ws_def is_digit_def)
  have "\<exists>c t. jprint j = c # t \<and> \<not> is_ws c \<and> c \<noteq> CHR '']''"
  proof (cases j)
    case (JNum n)
    then obtain i where "jprint j = show_int i" using assms by auto
    then show ?thesis using d hd_show_int [of i] by (cases "show_int i") auto
  qed (auto simp: is_ws_def)
  with that show ?thesis by blast
qed

lemma skip_ws_id: "\<not> is_ws c \<Longrightarrow> skip_ws (c # s) = c # s"
  by simp

lemma not_ws_simps [simp]:
  "\<not> is_ws (CHR ''{'')" "\<not> is_ws (CHR ''}'')" "\<not> is_ws (CHR ''['')" "\<not> is_ws (CHR '']'')"
  "\<not> is_ws (CHR '','')" "\<not> is_ws (CHR '':'')" "\<not> is_ws quote" "\<not> is_ws (CHR ''t'')"
  "\<not> is_ws (CHR ''f'')" "\<not> is_ws (CHR ''n'')" "\<not> is_ws (CHR ''-'')"
  by (simp_all add: is_ws_def)

lemma jvalue_show_int:
  assumes "value_end r"
  shows "jvalue (Suc n) (show_int i @ r) = Some (JNum (show_int i), r)"
proof -
  obtain c t where ct: "show_int i = c # t" by (cases "show_int i") auto
  have c: "c = CHR ''-'' \<or> is_digit c" using hd_show_int [of i] ct by simp
  then have "\<not> is_ws c" "c \<notin> {CHR ''{'', CHR ''['', quote, CHR ''t'', CHR ''f'', CHR ''n''}"
    by (auto simp: is_ws_def is_digit_def)
  then show ?thesis
    using scan_number_show_int [OF assms, of i] unfolding ct by simp
qed

lemma jprint_parse:
  "json_ok j \<Longrightarrow> value_end r \<Longrightarrow> 2 * length (jprint j @ r) + 1 \<le> n
     \<Longrightarrow> jvalue n (jprint j @ r) = Some (j, r)"
  "\<forall>j \<in> set js. json_ok j \<Longrightarrow> js \<noteq> [] \<Longrightarrow> 2 * length (jprint_elems js @ r) + 2 \<le> n
     \<Longrightarrow> jelems n (jprint_elems js @ r) = Some (js, r)"
  "\<forall>m \<in> set ms. utf8_valid (fst m) \<and> json_ok (snd m) \<Longrightarrow> ms \<noteq> []
     \<Longrightarrow> 2 * length (jprint_members ms @ r) + 2 \<le> n
     \<Longrightarrow> jmembers n (jprint_members ms @ r) = Some (ms, r)"
proof (induction j and js and ms arbitrary: r n and r n and r n
    rule: jprint_jprint_elems_jprint_members.induct)
  case 1
  then obtain k where "n = Suc k" by (cases n) auto
  then show ?case by (simp add: literal_def)
next
  case (2 b)
  then obtain k where "n = Suc k" by (cases n) auto
  then show ?case by (simp add: literal_def)
next
  case (3 t)
  then obtain k i where "n = Suc k" "t = show_int i" by (cases n) auto
  then show ?case using "3.prems"(2) jvalue_show_int by simp
next
  case (4 s)
  then obtain k where "n = Suc k" by (cases n) auto
  then show ?case using parse_str_esc [of s r] "4.prems"(1) by simp
next
  case (5 js)
  obtain k where n: "n = Suc k" using "5.prems" by (cases n) auto
  show ?case
  proof (cases js)
    case Nil
    then show ?thesis using n by simp
  next
    case (Cons j js')
    then obtain c t where c: "jprint j = c # t" "\<not> is_ws c" "c \<noteq> CHR '']''"
      using "5.prems"(1) jprint_head [of j] by auto
    have "jelems k (jprint_elems js @ r) = Some (js, r)"
      using "5.IH" "5.prems" Cons n by simp
    then show ?thesis using n Cons c by simp
  qed
next
  case (6 ms)
  obtain k where n: "n = Suc k" using "6.prems" by (cases n) auto
  show ?case
  proof (cases ms)
    case Nil
    then show ?thesis using n by simp
  next
    case (Cons m ms')
    have "jmembers k (jprint_members ms @ r) = Some (ms, r)"
      using "6.IH" "6.prems" Cons n by simp
    then show ?thesis using n Cons by (cases m) simp
  qed
next
  case (8 j js)
  obtain k where n: "n = Suc k" using "8.prems" by (cases n) auto
  show ?case
  proof (cases js)
    case Nil
    have "jvalue k (jprint j @ CHR '']'' # r) = Some (j, CHR '']'' # r)"
      using "8.IH"(1) "8.prems" n Nil by simp
    then show ?thesis using n Nil by simp
  next
    case (Cons j' js')
    have "jvalue k (jprint j @ CHR '','' # jprint_elems js @ r)
            = Some (j, CHR '','' # jprint_elems js @ r)"
      using "8.IH"(1) "8.prems" n Cons by simp
    moreover have "jelems k (jprint_elems js @ r) = Some (js, r)"
      using "8.IH"(2) "8.prems" n Cons by simp
    ultimately show ?thesis using n Cons by simp
  qed
next
  case (10 key j ms)
  obtain k where n: "n = Suc k" using "10.prems" by (cases n) auto
  let ?r = "if ms = [] then CHR ''}'' # r else CHR '','' # jprint_members ms @ r"
  have str: "parse_str (esc key @ quote # CHR '':'' # jprint j @ ?r) = Some (key, CHR '':'' # jprint j @ ?r)"
    using parse_str_esc [of key] "10.prems"(1) by simp
  have val: "jvalue k (jprint j @ ?r) = Some (j, ?r)"
    using "10.IH"(1) [of ?r k] "10.prems" n by (auto split: if_splits)
  have rest: "jmembers k (jprint_members ms @ r) = Some (ms, r)" if "ms \<noteq> []"
    using "10.IH"(2) [OF that, of r k] "10.prems" n that by simp
  have "jprint_members ((key, j) # ms) @ r = quote # esc key @ quote # CHR '':'' # jprint j @ ?r"
    by simp
  then show ?case using n str val rest by (cases "ms = []") simp_all
qed simp_all

text \<open>
  What the gateway marshals is parsed back to the same value, by \<open>json.Unmarshal\<close> and,
  whatever follows, by a decoder.
\<close>

lemma json_value_jprint:
  "json_ok j \<Longrightarrow> value_end r \<Longrightarrow> json_value (jprint j @ r) = Some (j, r)"
  unfolding json_value_def by (rule jprint_parse(1)) auto

theorem json_parse_jprint: "json_ok j \<Longrightarrow> json_parse (jprint j) = Some j"
  using json_value_jprint [of j "[]"] by (simp add: json_parse_def)

subsection \<open>Parsed strings are valid UTF-8\<close>

lemma utf8_valid_rune:
  "utf8_len s = n \<Longrightarrow> 0 < n \<Longrightarrow> utf8_valid v \<Longrightarrow> utf8_valid (take n s @ v)"
  using utf8_len_take_append [of s n v] utf8_len_le [of s]
  by (subst utf8_valid.simps) auto

lemma utf8_valid_append: "utf8_valid u \<Longrightarrow> utf8_valid v \<Longrightarrow> utf8_valid (u @ v)"
proof (induction u rule: utf8_valid.induct)
  case (1 u)
  show ?case
  proof (cases "u = []")
    case False
    with "1.prems"(1) have n: "utf8_len u \<noteq> 0" and d: "utf8_valid (drop (utf8_len u) u)"
      by (subst (asm) utf8_valid.simps, simp split: if_splits)+
    have "utf8_valid (drop (utf8_len u) u @ v)" using "1.IH" False n d "1.prems"(2) by blast
    then have "utf8_valid (take (utf8_len u) u @ drop (utf8_len u) u @ v)"
      using n by (intro utf8_valid_rune) auto
    then show ?thesis by (metis append_assoc append_take_drop_id)
  qed (use "1.prems" in simp)
qed

text \<open>Runes of two, three and four bytes.\<close>

lemma utf8_valid_2:
  "194 \<le> a \<Longrightarrow> a \<le> 223 \<Longrightarrow> 128 \<le> b \<Longrightarrow> b \<le> 191 \<Longrightarrow> utf8_valid (map char_of [a, b :: int])"
  by (subst utf8_valid.simps) (simp add: utf8_len_def rune_size_def accept_second_def)

lemma utf8_valid_3:
  "224 \<le> a \<Longrightarrow> a \<le> 239 \<Longrightarrow> 128 \<le> b \<Longrightarrow> b \<le> 191 \<Longrightarrow> accept_second a b
     \<Longrightarrow> 128 \<le> c \<Longrightarrow> c \<le> 191 \<Longrightarrow> utf8_valid (map char_of [a, b, c :: int])"
  by (subst utf8_valid.simps) (simp add: utf8_len_def rune_size_def is_cont_def Let_def)

lemma utf8_valid_4:
  "240 \<le> a \<Longrightarrow> a \<le> 244 \<Longrightarrow> 128 \<le> b \<Longrightarrow> b \<le> 191 \<Longrightarrow> accept_second a b
     \<Longrightarrow> 128 \<le> c \<Longrightarrow> c \<le> 191 \<Longrightarrow> 128 \<le> d \<Longrightarrow> d \<le> 191
     \<Longrightarrow> utf8_valid (map char_of [a, b, c, d :: int])"
  by (subst utf8_valid.simps) (simp add: utf8_len_def rune_size_def is_cont_def Let_def)

lemma low6: "128 \<le> 128 + x mod 64" "128 + x mod 64 \<le> (191 :: int)"
  using pos_mod_bound [of 64 x] pos_mod_sign [of 64 x] by linarith+

lemma utf8_valid_encode_rune:
  assumes "0 \<le> r" "r \<le> 1114111" "\<not> (55296 \<le> r \<and> r \<le> 57343)"
  shows "utf8_valid (encode_rune r)"
proof -
  consider "r < 128" | "128 \<le> r" "r < 2048" | "2048 \<le> r" "r < 65536" | "65536 \<le> r" by linarith
  then show ?thesis
  proof cases
    case 1
    then show ?thesis using assms by (simp add: encode_rune_def)
  next
    case 2
    have "utf8_valid (map char_of [192 + r div 64, 128 + r mod 64])"
      by (rule utf8_valid_2; (rule low6)?) (use 2 in linarith)+
    with 2 show ?thesis by (simp add: encode_rune_def)
  next
    case 3
    define d where "d = r div 64"
    have q: "r div 4096 = d div 64" by (simp add: zdiv_zmult2_eq [symmetric] d_def)
    have e: "d = 64 * (d div 64) + d mod 64" by simp
    have d: "32 \<le> d" "r < 55296 \<Longrightarrow> d \<le> 863" "57344 \<le> r \<Longrightarrow> 896 \<le> d"
      unfolding d_def using 3 by linarith+
    have "d div 64 < 16" unfolding d_def using 3 by linarith
    moreover have "32 \<le> d mod 64" if "d div 64 = 0" using e d that by linarith
    moreover have "d mod 64 \<le> 31" if "d div 64 = 13" using e d that assms(3) low6 [of d] by linarith
    ultimately have "accept_second (224 + r div 4096) (128 + (r div 64) mod 64)"
      using low6 [of d] unfolding accept_second_def q d_def [symmetric] by auto
    then have "utf8_valid (map char_of [224 + r div 4096, 128 + (r div 64) mod 64, 128 + r mod 64])"
      by (rule utf8_valid_3 [rotated 4]; (rule low6)?) (use 3 in linarith)+
    with 3 show ?thesis by (simp add: encode_rune_def)
  next
    case 4
    define d where "d = r div 4096"
    have q: "r div 262144 = d div 64" by (simp add: zdiv_zmult2_eq [symmetric] d_def)
    have e: "d = 64 * (d div 64) + d mod 64" by simp
    have d: "16 \<le> d" "d \<le> 271" unfolding d_def using 4 assms(2) by linarith+
    have "0 \<le> d div 64" using d by linarith
    moreover have "16 \<le> d mod 64" if "d div 64 = 0" using e d that by linarith
    moreover have "d mod 64 \<le> 15" if "d div 64 = 4" using e d that by linarith
    ultimately have "accept_second (240 + r div 262144) (128 + (r div 4096) mod 64)"
      using low6 [of d] unfolding accept_second_def q d_def [symmetric] by auto
    then have "utf8_valid (map char_of [240 + r div 262144, 128 + (r div 4096) mod 64, 128 + (r div 64) mod 64, 128 + r mod 64])"
      by (rule utf8_valid_4 [rotated 4]; (rule low6)?) (use 4 assms(2) in linarith)+
    with 4 show ?thesis by (simp add: encode_rune_def)
  qed
qed

lemma utf8_valid_replacement: "utf8_valid replacement"
  unfolding replacement_def by (rule utf8_valid_encode_rune) auto

lemma hex_value_range: "hex_value c = Some v \<Longrightarrow> 0 \<le> v \<and> v < 16"
  by (auto simp: hex_value_def Let_def split: if_splits)

lemma hex4_range: "hex4 s = Some (r, t) \<Longrightarrow> 0 \<le> r \<and> r < 65536"
proof (induction s rule: hex4.induct)
  case (1 a b c d s)
  then obtain w x y z where h: "hex_value a = Some w" "hex_value b = Some x"
    "hex_value c = Some y" "hex_value d = Some z" "r = ((w * 16 + x) * 16 + y) * 16 + z"
    by (auto split: option.splits)
  then show ?case using hex_value_range [OF h(1)] hex_value_range [OF h(2)]
      hex_value_range [OF h(3)] hex_value_range [OF h(4)] by auto
qed simp_all

lemma utf8_valid_parse_escape:
  assumes "parse_escape s = Some (u, t)"
  shows "utf8_valid u"
proof (cases s)
  case (Cons c r)
  show ?thesis
  proof (cases "c = CHR ''u''")
    case False
    then show ?thesis using assms Cons by (auto split: if_splits)
  next
    case True
    then obtain v w where v: "hex4 r = Some (v, w)" using assms Cons by (auto split: option.splits)
    have pair: "utf8_valid (encode_rune ((v - 55296) * 1024 + (v2 - 56320) + 65536))"
      if "55296 \<le> v" "v \<le> 56319" "56320 \<le> v2" "v2 \<le> 57343" for v2
      by (rule utf8_valid_encode_rune) (use that in auto)
    have "utf8_valid (encode_rune v)" if "\<not> (55296 \<le> v \<and> v \<le> 57343)"
      using utf8_valid_encode_rune [of v] hex4_range [OF v] that by auto
    then show ?thesis
      using assms Cons True v pair utf8_valid_replacement
      by (auto split: if_splits list.splits option.splits)
  qed
qed (use assms in simp)

lemma utf8_valid_parse_str: "parse_str s = Some (v, r) \<Longrightarrow> utf8_valid v"
proof (induction s arbitrary: v r rule: parse_str.induct)
  case (2 c s)
  let ?n = "utf8_len (c # s)"
  show ?case
  proof (cases "c = CHR 0x22 \<or> byte c < 32 \<or> c = CHR 0x5C")
    case True
    then show ?thesis
      using "2.prems" "2.IH"(1) unfolding parse_str.simps(2) [of c s]
      by (fastforce split: if_splits option.splits
            intro: utf8_valid_append dest: utf8_valid_parse_escape)
  next
    case False
    then have ne: "c \<noteq> CHR 0x22" "\<not> byte c < 32" "c \<noteq> CHR 0x5C" by auto
    show ?thesis
    proof (cases "?n = 0")
      case True
      then obtain w where "parse_str s = Some (w, r)" "v = replacement @ w"
        using "2.prems" ne unfolding parse_str.simps(2) [of c s] by auto
      then show ?thesis
        using "2.IH"(2) [OF ne refl True] utf8_valid_append utf8_valid_replacement by blast
    next
      case nz: False
      then obtain w where "parse_str (drop ?n (c # s)) = Some (w, r)" "v = take ?n (c # s) @ w"
        using "2.prems" ne unfolding parse_str.simps(2) [of c s] by (auto simp: Let_def)
      then show ?thesis
        using "2.IH"(3) [OF ne refl nz] utf8_valid_rune [of "c # s" ?n] nz by simp
    qed
  qed
qed simp

text \<open>All strings and keys of a value are valid UTF-8.\<close>

fun strings_ok :: "json \<Rightarrow> bool" where
  "strings_ok (JStr s) \<longleftrightarrow> utf8_valid s"
| "strings_ok (JArr js) \<longleftrightarrow> (\<forall>j \<in> set js. strings_ok j)"
| "strings_ok (JObj ms) \<longleftrightarrow> (\<forall>m \<in> set ms. utf8_valid (fst m) \<and> strings_ok (snd m))"
| "strings_ok _ \<longleftrightarrow> True"

lemma literal_strings_ok: "literal w j s = Some (k, r) \<Longrightarrow> strings_ok j \<Longrightarrow> strings_ok k"
  by (auto simp: literal_def split: if_splits)

lemma jvalue_strings_ok:
  "jvalue n s = Some (j, r) \<Longrightarrow> strings_ok j"
  "jelems n s = Some (js, r) \<Longrightarrow> \<forall>j \<in> set js. strings_ok j"
  "jmembers n s = Some (ms, r) \<Longrightarrow> \<forall>m \<in> set ms. utf8_valid (fst m) \<and> strings_ok (snd m)"
proof (induction n s and n s and n s arbitrary: j r and js r and ms r
    rule: jvalue_jelems_jmembers.induct)
  case (2 n s)
  obtain c t where c: "skip_ws s = c # t" using "2.prems" by (auto split: list.splits)
  show ?case
    using "2.prems" "2.IH" [OF c] unfolding jvalue.simps c list.case
    by (auto split: if_splits list.splits dest: utf8_valid_parse_str literal_strings_ok)
next
  case (4 n s)
  then show ?case by (fastforce split: option.splits list.splits if_splits)
next
  case (6 n s)
  then show ?case
    by (fastforce split: option.splits list.splits if_splits dest: utf8_valid_parse_str)
qed simp_all

lemma json_value_strings_ok: "json_value s = Some (j, r) \<Longrightarrow> strings_ok j"
  unfolding json_value_def by (rule jvalue_strings_ok(1))

section \<open>Decoding into Go values\<close>

text \<open>
  A decoder takes the JSON value and the Go value it is decoded into; \<open>null\<close> leaves a string,
  a number or a struct unchanged and makes a pointer, a map or a slice nil. A type mismatch
  makes the whole call fail: the code under study never looks at a value after an error.
\<close>

type_synonym 'a decoder = "json \<Rightarrow> 'a \<Rightarrow> 'a option"

fun dec_string :: "string decoder" where
  "dec_string JNull s = Some s"
| "dec_string (JStr t) s = Some t"
| "dec_string _ s = None"

fun dec_int64 :: "int decoder" where
  "dec_int64 JNull i = Some i"
| "dec_int64 (JNum t) i = ParseInt t"
| "dec_int64 _ i = None"

definition dec_ptr :: "'a decoder \<Rightarrow> 'a \<Rightarrow> 'a option decoder" where
  "dec_ptr d zero j p =
     (if j = JNull then Some None
      else map_option Some (d j (case p of None \<Rightarrow> zero | Some x \<Rightarrow> x)))"

fun dec_elems :: "'a decoder \<Rightarrow> 'a \<Rightarrow> json list \<Rightarrow> 'a list \<Rightarrow> 'a list option" where
  "dec_elems d zero [] old = Some []"
| "dec_elems d zero (j # js) old =
     (case d j (case old of [] \<Rightarrow> zero | x # _ \<Rightarrow> x) of
        None \<Rightarrow> None
      | Some y \<Rightarrow> map_option ((#) y) (dec_elems d zero js (tl old)))"

fun dec_slice :: "'a decoder \<Rightarrow> 'a \<Rightarrow> 'a list option decoder" where
  "dec_slice d zero JNull old = Some None"
| "dec_slice d zero (JArr js) old =
     map_option Some (dec_elems d zero js (case old of None \<Rightarrow> [] | Some xs \<Rightarrow> xs))"
| "dec_slice d zero _ old = None"

text \<open>
  A Go map from strings to strings is the list of its entries in the order of their keys, the
  order in which \<open>json.Marshal\<close> writes them. The code never tells a nil map from an empty one.
\<close>

type_synonym string_map = "(string \<times> string) list"

fun str_less :: "string \<Rightarrow> string \<Rightarrow> bool" where
  "str_less _ [] \<longleftrightarrow> False"
| "str_less [] (_ # _) \<longleftrightarrow> True"
| "str_less (x # xs) (y # ys) \<longleftrightarrow> byte x < byte y \<or> (x = y \<and> str_less xs ys)"

fun map_put :: "string \<Rightarrow> string \<Rightarrow> string_map \<Rightarrow> string_map" where
  "map_put k v [] = [(k, v)]"
| "map_put k v ((a, b) # m) =
     (if k = a then (k, v) # m
      else if str_less k a then (k, v) # (a, b) # m
      else (a, b) # map_put k v m)"

definition map_ok :: "string_map \<Rightarrow> bool" where
  "map_ok m \<longleftrightarrow> sorted_wrt str_less (map fst m)"

definition put_member :: "string \<times> json \<Rightarrow> string_map \<Rightarrow> string_map option" where
  "put_member kv m = map_option (\<lambda>v. map_put (fst kv) v m) (dec_string (snd kv) [])"

fun dec_string_map :: "string_map decoder" where
  "dec_string_map JNull m = Some []"
| "dec_string_map (JObj ms) m = fold_opt put_member ms m"
| "dec_string_map _ m = None"

definition enc_string_map :: "string_map \<Rightarrow> json" where
  "enc_string_map m = JObj (map (\<lambda>(k, v). (k, JStr v)) m)"

definition enc_int :: "int \<Rightarrow> json" where
  "enc_int i = JNum (show_int i)"

section \<open>Structs\<close>

text \<open>
  The field of a key: the one with this very name, else the first with the same name up to
  case, where the long s (U+017F) folds to \<open>S\<close> and the Kelvin sign (U+212A) to \<open>K\<close>.
\<close>

function fold_name :: "string \<Rightarrow> string" where
  "fold_name [] = []"
| "fold_name (c # s) =
     (if 97 \<le> byte c \<and> byte c \<le> 122 then char_of (byte c - 32) # fold_name s
      else if map byte (take 2 (c # s)) = [197, 191] then CHR ''S'' # fold_name (drop 1 s)
      else if map byte (take 3 (c # s)) = [226, 132, 170] then CHR ''K'' # fold_name (drop 2 s)
      else c # fold_name s)"
  by pat_completeness auto
termination by (relation "measure length") auto

declare fold_name.simps [simp del]

type_synonym 's field_table = "(string \<times> (json \<Rightarrow> 's \<Rightarrow> 's option)) list"

definition find_field :: "'s field_table \<Rightarrow> string \<Rightarrow> (json \<Rightarrow> 's \<Rightarrow> 's option) option" where
  "find_field tbl k =
     (case map_of tbl k of
        Some f \<Rightarrow> Some f
      | None \<Rightarrow> map_of (map (\<lambda>(n, f). (fold_name n, f)) tbl) (fold_name k))"

definition field :: "string \<Rightarrow> 'a decoder \<Rightarrow> ('s \<Rightarrow> 'a) \<Rightarrow> (('a \<Rightarrow> 'a) \<Rightarrow> 's \<Rightarrow> 's)
    \<Rightarrow> string \<times> (json \<Rightarrow> 's \<Rightarrow> 's option)" where
  "field name d get upd = (name, \<lambda>j s. map_option (\<lambda>x. upd (\<lambda>_. x) s) (d j (get s)))"

definition set_member :: "'s field_table \<Rightarrow> string \<times> json \<Rightarrow> 's \<Rightarrow> 's option" where
  "set_member tbl kv s =
     (case find_field tbl (fst kv) of None \<Rightarrow> Some s | Some f \<Rightarrow> f (snd kv) s)"

fun dec_struct :: "'s field_table \<Rightarrow> 's decoder" where
  "dec_struct tbl JNull s = Some s"
| "dec_struct tbl (JObj ms) s = fold_opt (set_member tbl) ms s"
| "dec_struct tbl _ s = None"

text \<open>A member that is left out when its value is empty (\<open>omitempty\<close>).\<close>

definition member_unless :: "bool \<Rightarrow> string \<Rightarrow> json \<Rightarrow> (string \<times> json) list" where
  "member_unless omit name j = (if omit then [] else [(name, j)])"

definition member_opt :: "string \<Rightarrow> ('a \<Rightarrow> json) \<Rightarrow> 'a option \<Rightarrow> (string \<times> json) list" where
  "member_opt name enc p = (case p of None \<Rightarrow> [] | Some x \<Rightarrow> [(name, enc x)])"

lemmas dec_simps = set_member_def find_field_def field_def dec_ptr_def

subsection \<open>Round trips\<close>

lemma dec_string_JStr [simp]: "dec_string (JStr s) t = Some s"
  by simp

lemma dec_int64_enc [simp]: "int64_ok i \<Longrightarrow> dec_int64 (enc_int i) k = Some i"
  by (simp add: enc_int_def ParseInt_show_int)

lemma enc_int_not_null [simp]: "enc_int i \<noteq> JNull"
  by (simp add: enc_int_def)

lemma dec_elems_enc:
  assumes "\<And>x. x \<in> set xs \<Longrightarrow> d (enc x) zero = Some x"
  shows "dec_elems d zero (map enc xs) [] = Some xs"
  using assms by (induction xs) auto

lemma str_less_irrefl [simp]: "\<not> str_less s s"
  by (induction s) auto

lemma str_less_asym: "str_less s t \<Longrightarrow> \<not> str_less t s"
  by (induction s t rule: str_less.induct) auto

lemma map_put_last:
  "\<forall>a \<in> set (map fst m). str_less a k \<Longrightarrow> map_put k v m = m @ [(k, v)]"
  by (induction m) (auto dest: str_less_asym)

lemma fold_put_member:
  "map_ok (m @ xs) \<Longrightarrow> fold_opt put_member (map (\<lambda>(k, v). (k, JStr v)) xs) m = Some (m @ xs)"
proof (induction xs arbitrary: m)
  case (Cons x xs)
  obtain k v where x: "x = (k, v)" by (cases x)
  have "map_put k v m = m @ [(k, v)]"
    using Cons.prems by (intro map_put_last) (auto simp: map_ok_def x sorted_wrt_append)
  then show ?case using Cons.IH [of "m @ [(k, v)]"] Cons.prems by (simp add: x put_member_def)
qed simp

lemma dec_string_map_enc [simp]: "map_ok m \<Longrightarrow> dec_string_map (enc_string_map m) [] = Some m"
  using fold_put_member [of "[]" m] by (simp add: enc_string_map_def)

lemma str_less_trans: "str_less s t \<Longrightarrow> str_less t u \<Longrightarrow> str_less s u"
proof (induction s t arbitrary: u rule: str_less.induct)
  case (2 y ys)
  then show ?case by (cases u) auto
next
  case (3 x xs y ys)
  then show ?case by (cases u) auto
qed simp

lemma str_less_total: "\<not> str_less s t \<Longrightarrow> s \<noteq> t \<Longrightarrow> str_less t s"
  by (induction s t rule: str_less.induct) (auto simp: not_less order_le_less of_char_eq_iff, metis neq_Nil_conv str_less.simps(2))

lemma set_map_put: "fst ` set (map_put k v m) = insert k (fst ` set m)"
  by (induction k v m rule: map_put.induct) (simp_all add: insert_commute)

lemma map_put_ok: "map_ok m \<Longrightarrow> map_ok (map_put k v m)"
proof (induction m)
  case Nil
  then show ?case by (simp add: map_ok_def)
next
  case (Cons x m)
  obtain a b where x: "x = (a, b)" by (cases x)
  have m: "map_ok m" "\<forall>c \<in> fst ` set m. str_less a c"
    using Cons.prems by (auto simp: map_ok_def x)
  consider "k = a" | "k \<noteq> a" "str_less k a" | "k \<noteq> a" "\<not> str_less k a" by blast
  then show ?case
  proof cases
    case 1
    then show ?thesis using Cons.prems by (simp add: x map_ok_def)
  next
    case 2
    then show ?thesis using Cons.prems m(2) by (auto simp: x map_ok_def dest: str_less_trans)
  next
    case 3
    then have "str_less a k" using str_less_total by metis
    then have "\<forall>c \<in> fst ` set (map_put k v m). str_less a c" using m(2) by (simp add: set_map_put)
    then show ?thesis using 3 Cons.IH [OF m(1)] by (auto simp: x map_ok_def)
  qed
qed

text \<open>A predicate every field keeps is kept by the decoder of the struct.\<close>

lemma fold_opt_invariant:
  assumes "fold_opt f xs s = Some t" and "P s"
    and "\<And>x s t. x \<in> set xs \<Longrightarrow> P s \<Longrightarrow> f x s = Some t \<Longrightarrow> P t"
  shows "P t"
  using assms
proof (induction xs arbitrary: s)
  case (Cons x xs)
  then obtain b where b: "f x s = Some b" "fold_opt f xs b = Some t"
    by (auto split: option.splits)
  have "P b" using Cons.prems(3) [of x s b] Cons.prems(2) b(1) by simp
  then show ?case using Cons.IH [OF b(2)] Cons.prems(3) by (meson list.set_intros(2))
qed simp

lemma dec_struct_invariant:
  assumes "dec_struct tbl j s = Some t" and "strings_ok j" and "P s"
    and "\<And>n f v s t. (n, f) \<in> set tbl \<Longrightarrow> strings_ok v \<Longrightarrow> P s \<Longrightarrow> f v s = Some t \<Longrightarrow> P t"
  shows "P t"
proof (cases j)
  case (JObj ms)
  have "P b" if "kv \<in> set ms" "P a" "set_member tbl kv a = Some b" for kv a b
  proof (cases "find_field tbl (fst kv)")
    case None
    then show ?thesis using that by (simp add: set_member_def)
  next
    case (Some f)
    then have "\<exists>n. (n, f) \<in> set tbl"
      by (auto simp: find_field_def split: option.splits dest!: map_of_SomeD)
    then show ?thesis
      using assms(2,4) that Some JObj by (auto simp: set_member_def)
  qed
  then show ?thesis using assms(1,3) JObj fold_opt_invariant [of "set_member tbl" ms s t P] by auto
qed (use assms in auto)

definition map_strings_ok :: "string_map \<Rightarrow> bool" where
  "map_strings_ok m \<longleftrightarrow> (\<forall>(k, v) \<in> set m. utf8_valid k \<and> utf8_valid v)"

lemma map_put_strings_ok:
  "map_strings_ok m \<Longrightarrow> utf8_valid k \<Longrightarrow> utf8_valid v \<Longrightarrow> map_strings_ok (map_put k v m)"
  by (induction k v m rule: map_put.induct) (auto simp: map_strings_ok_def split: if_splits)

lemma dec_string_ok:
  "dec_string j s = Some t \<Longrightarrow> strings_ok j \<Longrightarrow> utf8_valid s \<Longrightarrow> utf8_valid t"
  by (cases j) auto

lemma dec_string_map_ok:
  assumes "dec_string_map j m = Some m'" and "strings_ok j" and "map_ok m" and "map_strings_ok m"
  shows "map_ok m' \<and> map_strings_ok m'"
proof (cases j)
  case (JObj ms)
  have f: "fold_opt put_member ms m = Some m'" using assms(1) JObj by simp
  show ?thesis
    by (rule fold_opt_invariant [OF f, where P = "\<lambda>m. map_ok m \<and> map_strings_ok m"])
       (use assms(2-4) JObj in \<open>fastforce simp: put_member_def
          intro: map_put_ok map_put_strings_ok dec_string_ok\<close>)+
qed (use assms in \<open>auto simp: map_ok_def map_strings_ok_def\<close>)

end
