(* ===== verification/OpenAI.thy ===== *)
theory OpenAI
  imports GoJson
begin

text \<open>
  The data structures of the Batch API (\<open>internal/shared/openai/batch.go\<close>): endpoints,
  statuses, the static part \<open>BatchSpec\<close> and the dynamic part \<open>BatchStatusInfo\<close> of a batch,
  the create request and its \<open>Validate\<close>. Each struct that the gateway marshals has its JSON
  form (\<open>enc_\<dots>\<close>), each one it unmarshals the table of its fields (\<open>\<dots>_fields\<close>), in the
  order and with the names and the \<open>omitempty\<close> marks of the Go tags; \<open>dec_BatchSpec_enc\<close> and
  \<open>dec_BatchStatusInfo_enc\<close> are the round trips.
\<close>

section \<open>Endpoints and statuses\<close>

text \<open>\<open>Endpoint\<close> and \<open>BatchStatus\<close> are Go string types: any string can occur.\<close>

type_synonym Endpoint = string
type_synonym BatchStatus = string

definition EndpointResponses :: Endpoint where "EndpointResponses = ''/v1/responses''"
definition EndpointChatCompletions :: Endpoint where
  "EndpointChatCompletions = ''/v1/chat/completions''"
definition EndpointEmbeddings :: Endpoint where "EndpointEmbeddings = ''/v1/embeddings''"
definition EndpointCompletions :: Endpoint where "EndpointCompletions = ''/v1/completions''"
definition EndpointModerations :: Endpoint where "EndpointModerations = ''/v1/moderations''"

definition BatchStatusValidating :: BatchStatus where "BatchStatusValidating = ''validating''"
definition BatchStatusFailed :: BatchStatus where "BatchStatusFailed = ''failed''"
definition BatchStatusInProgress :: BatchStatus where "BatchStatusInProgress = ''in_progress''"
definition BatchStatusFinalizing :: BatchStatus where "BatchStatusFinalizing = ''finalizing''"
definition BatchStatusCompleted :: BatchStatus where "BatchStatusCompleted = ''completed''"
definition BatchStatusExpired :: BatchStatus where "BatchStatusExpired = ''expired''"
definition BatchStatusCancelling :: BatchStatus where "BatchStatusCancelling = ''cancelling''"
definition BatchStatusCancelled :: BatchStatus where "BatchStatusCancelled = ''cancelled''"

lemmas endpoint_defs =
  EndpointResponses_def EndpointChatCompletions_def EndpointEmbeddings_def
  EndpointCompletions_def EndpointModerations_def

lemmas status_defs =
  BatchStatusValidating_def BatchStatusFailed_def BatchStatusInProgress_def
  BatchStatusFinalizing_def BatchStatusCompleted_def BatchStatusExpired_def
  BatchStatusCancelling_def BatchStatusCancelled_def

definition IsFinal :: "BatchStatus \<Rightarrow> bool" where
  "IsFinal s \<longleftrightarrow>
     s = BatchStatusCompleted \<or> s = BatchStatusFailed \<or> s = BatchStatusExpired \<or>
     s = BatchStatusCancelled"

section \<open>The static part of a batch\<close>

record BatchSpec =
  spec_Object :: string
  spec_Endpoint :: Endpoint
  spec_InputFileID :: string
  spec_CompletionWindow :: string
  spec_Metadata :: string_map
  spec_CreatedAt :: int

definition zero_BatchSpec :: BatchSpec where
  "zero_BatchSpec =
     \<lparr>spec_Object = [], spec_Endpoint = [], spec_InputFileID = [], spec_CompletionWindow = [],
      spec_Metadata = [], spec_CreatedAt = 0\<rparr>"

definition BatchSpec_members :: "BatchSpec \<Rightarrow> (string \<times> json) list" where
  "BatchSpec_members s =
     [(''object'', JStr (spec_Object s)), (''endpoint'', JStr (spec_Endpoint s)),
      (''input_file_id'', JStr (spec_InputFileID s)),
      (''completion_window'', JStr (spec_CompletionWindow s))]
     @ member_unless (spec_Metadata s = []) ''metadata'' (enc_string_map (spec_Metadata s))
     @ [(''created_at'', enc_int (spec_CreatedAt s))]"

definition enc_BatchSpec :: "BatchSpec \<Rightarrow> json" where
  "enc_BatchSpec s = JObj (BatchSpec_members s)"

definition BatchSpec_fields :: "BatchSpec field_table" where
  "BatchSpec_fields =
     [field ''object'' dec_string spec_Object spec_Object_update,
      field ''endpoint'' dec_string spec_Endpoint spec_Endpoint_update,
      field ''input_file_id'' dec_string spec_InputFileID spec_InputFileID_update,
      field ''completion_window'' dec_string spec_CompletionWindow spec_CompletionWindow_update,
      field ''metadata'' dec_string_map spec_Metadata spec_Metadata_update,
      field ''created_at'' dec_int64 spec_CreatedAt spec_CreatedAt_update]"

definition BatchSpec_ok :: "BatchSpec \<Rightarrow> bool" where
  "BatchSpec_ok s \<longleftrightarrow>
     utf8_valid (spec_Object s) \<and> utf8_valid (spec_Endpoint s) \<and> utf8_valid (spec_InputFileID s) \<and>
     utf8_valid (spec_CompletionWindow s) \<and> map_ok (spec_Metadata s) \<and>
     map_strings_ok (spec_Metadata s) \<and> int64_ok (spec_CreatedAt s)"

lemma dec_BatchSpec_enc:
  "BatchSpec_ok s \<Longrightarrow> dec_struct BatchSpec_fields (enc_BatchSpec s) zero_BatchSpec = Some s"
  by (cases s)
     (auto simp: BatchSpec_ok_def enc_BatchSpec_def BatchSpec_members_def BatchSpec_fields_def
        zero_BatchSpec_def dec_simps member_unless_def)

lemma enc_string_map_ok: "map_strings_ok m \<Longrightarrow> json_ok (enc_string_map m)"
  by (auto simp: enc_string_map_def map_strings_ok_def)

lemma enc_int_ok [simp]: "json_ok (enc_int i)"
  by (auto simp: enc_int_def)

lemma BatchSpec_json_ok:
  "BatchSpec_ok s \<Longrightarrow> \<forall>m \<in> set (BatchSpec_members s). utf8_valid (fst m) \<and> json_ok (snd m)"
  by (auto simp: BatchSpec_ok_def BatchSpec_members_def member_unless_def enc_string_map_ok)

section \<open>The dynamic part of a batch\<close>

record BatchRequestCounts =
  rc_Total :: int
  rc_Completed :: int
  rc_Failed :: int

record BatchError =
  be_Code :: string
  be_Message :: string
  be_Param :: string
  be_Line :: int

record BatchErrors =
  bes_Object :: string
  bes_Data :: "BatchError list option"

record BatchUsageInputTokensDetails =
  itd_CachedTokens :: int

record BatchUsageOutputTokensDetails =
  otd_ReasoningTokens :: int

record BatchUsage =
  bu_InputTokens :: int
  bu_InputTokensDetails :: BatchUsageInputTokensDetails
  bu_OutputTokens :: int
  bu_OutputTokensDetails :: BatchUsageOutputTokensDetails
  bu_TotalTokens :: int

record BatchStatusInfo =
  st_Status :: BatchStatus
  st_OutputFileID :: string
  st_ErrorFileID :: string
  st_CancelledAt :: "int option"
  st_CancellingAt :: "int option"
  st_CompletedAt :: "int option"
  st_ExpiredAt :: "int option"
  st_ExpiresAt :: "int option"
  st_FailedAt :: "int option"
  st_FinalizingAt :: "int option"
  st_InProgressAt :: "int option"
  st_Model :: string
  st_RequestCounts :: BatchRequestCounts
  st_Errors :: "BatchErrors option"
  st_Usage :: "BatchUsage option"

definition zero_BatchRequestCounts :: BatchRequestCounts where
  "zero_BatchRequestCounts = \<lparr>rc_Total = 0, rc_Completed = 0, rc_Failed = 0\<rparr>"

definition zero_BatchError :: BatchError where
  "zero_BatchError = \<lparr>be_Code = [], be_Message = [], be_Param = [], be_Line = 0\<rparr>"

definition zero_BatchErrors :: BatchErrors where
  "zero_BatchErrors = \<lparr>bes_Object = [], bes_Data = None\<rparr>"

definition zero_BatchUsage :: BatchUsage where
  "zero_BatchUsage =
     \<lparr>bu_InputTokens = 0, bu_InputTokensDetails = \<lparr>itd_CachedTokens = 0\<rparr>, bu_OutputTokens = 0,
      bu_OutputTokensDetails = \<lparr>otd_ReasoningTokens = 0\<rparr>, bu_TotalTokens = 0\<rparr>"

definition zero_BatchStatusInfo :: BatchStatusInfo where
  "zero_BatchStatusInfo =
     \<lparr>st_Status = [], st_OutputFileID = [], st_ErrorFileID = [], st_CancelledAt = None,
      st_CancellingAt = None, st_CompletedAt = None, st_ExpiredAt = None, st_ExpiresAt = None,
      st_FailedAt = None, st_FinalizingAt = None, st_InProgressAt = None, st_Model = [],
      st_RequestCounts = zero_BatchRequestCounts, st_Errors = None, st_Usage = None\<rparr>"

subsection \<open>JSON forms\<close>

definition enc_BatchRequestCounts :: "BatchRequestCounts \<Rightarrow> json" where
  "enc_BatchRequestCounts c =
     JObj [(''total'', enc_int (rc_Total c)), (''completed'', enc_int (rc_Completed c)),
           (''failed'', enc_int (rc_Failed c))]"

definition BatchRequestCounts_fields :: "BatchRequestCounts field_table" where
  "BatchRequestCounts_fields =
     [field ''total'' dec_int64 rc_Total rc_Total_update,
      field ''completed'' dec_int64 rc_Completed rc_Completed_update,
      field ''failed'' dec_int64 rc_Failed rc_Failed_update]"

definition enc_BatchError :: "BatchError \<Rightarrow> json" where
  "enc_BatchError e =
     JObj (member_unless (be_Code e = []) ''code'' (JStr (be_Code e))
       @ member_unless (be_Message e = []) ''message'' (JStr (be_Message e))
       @ member_unless (be_Param e = []) ''param'' (JStr (be_Param e))
       @ member_unless (be_Line e = 0) ''line'' (enc_int (be_Line e)))"

definition BatchError_fields :: "BatchError field_table" where
  "BatchError_fields =
     [field ''code'' dec_string be_Code be_Code_update,
      field ''message'' dec_string be_Message be_Message_update,
      field ''param'' dec_string be_Param be_Param_update,
      field ''line'' dec_int64 be_Line be_Line_update]"

definition enc_BatchErrors :: "BatchErrors \<Rightarrow> json" where
  "enc_BatchErrors e =
     JObj [(''object'', JStr (bes_Object e)),
           (''data'', case bes_Data e of None \<Rightarrow> JNull | Some es \<Rightarrow> JArr (map enc_BatchError es))]"

definition BatchErrors_fields :: "BatchErrors field_table" where
  "BatchErrors_fields =
     [field ''object'' dec_string bes_Object bes_Object_update,
      field ''data'' (dec_slice (dec_struct BatchError_fields) zero_BatchError)
        bes_Data bes_Data_update]"

definition enc_BatchUsage :: "BatchUsage \<Rightarrow> json" where
  "enc_BatchUsage u =
     JObj [(''input_tokens'', enc_int (bu_InputTokens u)),
           (''input_tokens_details'',
              JObj [(''cached_tokens'', enc_int (itd_CachedTokens (bu_InputTokensDetails u)))]),
           (''output_tokens'', enc_int (bu_OutputTokens u)),
           (''output_tokens_details'',
              JObj [(''reasoning_tokens'', enc_int (otd_ReasoningTokens (bu_OutputTokensDetails u)))]),
           (''total_tokens'', enc_int (bu_TotalTokens u))]"

definition InputTokensDetails_fields :: "BatchUsageInputTokensDetails field_table" where
  "InputTokensDetails_fields =
     [field ''cached_tokens'' dec_int64 itd_CachedTokens itd_CachedTokens_update]"

definition OutputTokensDetails_fields :: "BatchUsageOutputTokensDetails field_table" where
  "OutputTokensDetails_fields =
     [field ''reasoning_tokens'' dec_int64 otd_ReasoningTokens otd_ReasoningTokens_update]"

definition BatchUsage_fields :: "BatchUsage field_table" where
  "BatchUsage_fields =
     [field ''input_tokens'' dec_int64 bu_InputTokens bu_InputTokens_update,
      field ''input_tokens_details'' (dec_struct InputTokensDetails_fields)
        bu_InputTokensDetails bu_InputTokensDetails_update,
      field ''output_tokens'' dec_int64 bu_OutputTokens bu_OutputTokens_update,
      field ''output_tokens_details'' (dec_struct OutputTokensDetails_fields)
        bu_OutputTokensDetails bu_OutputTokensDetails_update,
      field ''total_tokens'' dec_int64 bu_TotalTokens bu_TotalTokens_update]"

definition BatchStatusInfo_members :: "BatchStatusInfo \<Rightarrow> (string \<times> json) list" where
  "BatchStatusInfo_members s =
     [(''status'', JStr (st_Status s))]
     @ member_unless (st_OutputFileID s = []) ''output_file_id'' (JStr (st_OutputFileID s))
     @ member_unless (st_ErrorFileID s = []) ''error_file_id'' (JStr (st_ErrorFileID s))
     @ member_opt ''cancelled_at'' enc_int (st_CancelledAt s)
     @ member_opt ''cancelling_at'' enc_int (st_CancellingAt s)
     @ member_opt ''completed_at'' enc_int (st_CompletedAt s)
     @ member_opt ''expired_at'' enc_int (st_ExpiredAt s)
     @ member_opt ''expires_at'' enc_int (st_ExpiresAt s)
     @ member_opt ''failed_at'' enc_int (st_FailedAt s)
     @ member_opt ''finalizing_at'' enc_int (st_FinalizingAt s)
     @ member_opt ''in_progress_at'' enc_int (st_InProgressAt s)
     @ member_unless (st_Model s = []) ''model'' (JStr (st_Model s))
     @ [(''request_counts'', enc_BatchRequestCounts (st_RequestCounts s))]
     @ member_opt ''errors'' enc_BatchErrors (st_Errors s)
     @ member_opt ''usage'' enc_BatchUsage (st_Usage s)"

definition enc_BatchStatusInfo :: "BatchStatusInfo \<Rightarrow> json" where
  "enc_BatchStatusInfo s = JObj (BatchStatusInfo_members s)"

abbreviation dec_int64_ptr :: "int option decoder" where
  "dec_int64_ptr \<equiv> dec_ptr dec_int64 0"

definition BatchStatusInfo_fields :: "BatchStatusInfo field_table" where
  "BatchStatusInfo_fields =
     [field ''status'' dec_string st_Status st_Status_update,
      field ''output_file_id'' dec_string st_OutputFileID st_OutputFileID_update,
      field ''error_file_id'' dec_string st_ErrorFileID st_ErrorFileID_update,
      field ''cancelled_at'' dec_int64_ptr st_CancelledAt st_CancelledAt_update,
      field ''cancelling_at'' dec_int64_ptr st_CancellingAt st_CancellingAt_update,
      field ''completed_at'' dec_int64_ptr st_CompletedAt st_CompletedAt_update,
      field ''expired_at'' dec_int64_ptr st_ExpiredAt st_ExpiredAt_update,
      field ''expires_at'' dec_int64_ptr st_ExpiresAt st_ExpiresAt_update,
      field ''failed_at'' dec_int64_ptr st_FailedAt st_FailedAt_update,
      field ''finalizing_at'' dec_int64_ptr st_FinalizingAt st_FinalizingAt_update,
      field ''in_progress_at'' dec_int64_ptr st_InProgressAt st_InProgressAt_update,
      field ''model'' dec_string st_Model st_Model_update,
      field ''request_counts'' (dec_struct BatchRequestCounts_fields)
        st_RequestCounts st_RequestCounts_update,
      field ''errors'' (dec_ptr (dec_struct BatchErrors_fields) zero_BatchErrors)
        st_Errors st_Errors_update,
      field ''usage'' (dec_ptr (dec_struct BatchUsage_fields) zero_BatchUsage)
        st_Usage st_Usage_update]"

subsection \<open>Round trips\<close>

definition BatchRequestCounts_ok :: "BatchRequestCounts \<Rightarrow> bool" where
  "BatchRequestCounts_ok c \<longleftrightarrow>
     int64_ok (rc_Total c) \<and> int64_ok (rc_Completed c) \<and> int64_ok (rc_Failed c)"

definition BatchError_ok :: "BatchError \<Rightarrow> bool" where
  "BatchError_ok e \<longleftrightarrow>
     utf8_valid (be_Code e) \<and> utf8_valid (be_Message e) \<and> utf8_valid (be_Param e) \<and>
     int64_ok (be_Line e)"

definition BatchErrors_ok :: "BatchErrors \<Rightarrow> bool" where
  "BatchErrors_ok e \<longleftrightarrow>
     utf8_valid (bes_Object e) \<and> pred_option (list_all BatchError_ok) (bes_Data e)"

definition BatchUsage_ok :: "BatchUsage \<Rightarrow> bool" where
  "BatchUsage_ok u \<longleftrightarrow>
     int64_ok (bu_InputTokens u) \<and> int64_ok (itd_CachedTokens (bu_InputTokensDetails u)) \<and>
     int64_ok (bu_OutputTokens u) \<and> int64_ok (otd_ReasoningTokens (bu_OutputTokensDetails u)) \<and>
     int64_ok (bu_TotalTokens u)"

definition BatchStatusInfo_ok :: "BatchStatusInfo \<Rightarrow> bool" where
  "BatchStatusInfo_ok s \<longleftrightarrow>
     utf8_valid (st_Status s) \<and> utf8_valid (st_OutputFileID s) \<and> utf8_valid (st_ErrorFileID s) \<and>
     utf8_valid (st_Model s) \<and>
     pred_option int64_ok (st_CancelledAt s) \<and> pred_option int64_ok (st_CancellingAt s) \<and>
     pred_option int64_ok (st_CompletedAt s) \<and> pred_option int64_ok (st_ExpiredAt s) \<and>
     pred_option int64_ok (st_ExpiresAt s) \<and> pred_option int64_ok (st_FailedAt s) \<and>
     pred_option int64_ok (st_FinalizingAt s) \<and> pred_option int64_ok (st_InProgressAt s) \<and>
     BatchRequestCounts_ok (st_RequestCounts s) \<and>
     pred_option BatchErrors_ok (st_Errors s) \<and> pred_option BatchUsage_ok (st_Usage s)"

lemma dec_BatchRequestCounts_enc [simp]:
  "BatchRequestCounts_ok c \<Longrightarrow>
     dec_struct BatchRequestCounts_fields (enc_BatchRequestCounts c) zero_BatchRequestCounts = Some c"
  by (cases c)
     (simp add: BatchRequestCounts_ok_def enc_BatchRequestCounts_def BatchRequestCounts_fields_def
        zero_BatchRequestCounts_def dec_simps)

lemma dec_BatchError_enc:
  "BatchError_ok e \<Longrightarrow> dec_struct BatchError_fields (enc_BatchError e) zero_BatchError = Some e"
  by (cases e)
     (simp add: BatchError_ok_def enc_BatchError_def BatchError_fields_def zero_BatchError_def
        dec_simps member_unless_def)

lemma dec_BatchErrors_enc:
  assumes "BatchErrors_ok e"
  shows "dec_struct BatchErrors_fields (enc_BatchErrors e) zero_BatchErrors = Some e"
proof (cases "bes_Data e")
  case None
  then show ?thesis
    by (cases e) (simp add: enc_BatchErrors_def BatchErrors_fields_def zero_BatchErrors_def dec_simps)
next
  case (Some es)
  have "dec_elems (dec_struct BatchError_fields) zero_BatchError (map enc_BatchError es) [] = Some es"
    by (rule dec_elems_enc)
       (use assms Some in \<open>auto simp: BatchErrors_ok_def list_all_iff intro!: dec_BatchError_enc\<close>)
  with Some show ?thesis
    by (cases e) (simp add: enc_BatchErrors_def BatchErrors_fields_def zero_BatchErrors_def dec_simps)
qed

lemma dec_BatchUsage_enc:
  "BatchUsage_ok u \<Longrightarrow> dec_struct BatchUsage_fields (enc_BatchUsage u) zero_BatchUsage = Some u"
  by (cases u; cases "bu_InputTokensDetails u"; cases "bu_OutputTokensDetails u")
     (simp add: BatchUsage_ok_def enc_BatchUsage_def BatchUsage_fields_def zero_BatchUsage_def
        InputTokensDetails_fields_def OutputTokensDetails_fields_def dec_simps)

lemma fold_set_member_unless:
  "fold_opt (set_member tbl) (member_unless c n j) s =
     (if c then Some s else set_member tbl (n, j) s)"
  by (simp add: member_unless_def split: option.splits)

lemma fold_set_member_opt:
  "fold_opt (set_member tbl) (member_opt n enc p) s =
     (case p of None \<Rightarrow> Some s | Some x \<Rightarrow> set_member tbl (n, enc x) s)"
  by (simp add: member_opt_def split: option.splits)

text \<open>One rule per member of the status, for a target whose field is still empty.\<close>

lemma set_status_time:
  assumes "pred_option int64_ok p"
  shows
    "st_CancelledAt s = None \<Longrightarrow> fold_opt (set_member BatchStatusInfo_fields)
       (member_opt ''cancelled_at'' enc_int p) s = Some (s\<lparr>st_CancelledAt := p\<rparr>)"
    "st_CancellingAt s = None \<Longrightarrow> fold_opt (set_member BatchStatusInfo_fields)
       (member_opt ''cancelling_at'' enc_int p) s = Some (s\<lparr>st_CancellingAt := p\<rparr>)"
    "st_CompletedAt s = None \<Longrightarrow> fold_opt (set_member BatchStatusInfo_fields)
       (member_opt ''completed_at'' enc_int p) s = Some (s\<lparr>st_CompletedAt := p\<rparr>)"
    "st_ExpiredAt s = None \<Longrightarrow> fold_opt (set_member BatchStatusInfo_fields)
       (member_opt ''expired_at'' enc_int p) s = Some (s\<lparr>st_ExpiredAt := p\<rparr>)"
    "st_ExpiresAt s = None \<Longrightarrow> fold_opt (set_member BatchStatusInfo_fields)
       (member_opt ''expires_at'' enc_int p) s = Some (s\<lparr>st_ExpiresAt := p\<rparr>)"
    "st_FailedAt s = None \<Longrightarrow> fold_opt (set_member BatchStatusInfo_fields)
       (member_opt ''failed_at'' enc_int p) s = Some (s\<lparr>st_FailedAt := p\<rparr>)"
    "st_FinalizingAt s = None \<Longrightarrow> fold_opt (set_member BatchStatusInfo_fields)
       (member_opt ''finalizing_at'' enc_int p) s = Some (s\<lparr>st_FinalizingAt := p\<rparr>)"
    "st_InProgressAt s = None \<Longrightarrow> fold_opt (set_member BatchStatusInfo_fields)
       (member_opt ''in_progress_at'' enc_int p) s = Some (s\<lparr>st_InProgressAt := p\<rparr>)"
  using assms
  by (cases s; cases p;
      simp add: fold_set_member_opt BatchStatusInfo_fields_def dec_simps)+

lemma set_status_string:
  "st_OutputFileID s = [] \<Longrightarrow> fold_opt (set_member BatchStatusInfo_fields)
     (member_unless (v = []) ''output_file_id'' (JStr v)) s = Some (s\<lparr>st_OutputFileID := v\<rparr>)"
  "st_ErrorFileID s = [] \<Longrightarrow> fold_opt (set_member BatchStatusInfo_fields)
     (member_unless (v = []) ''error_file_id'' (JStr v)) s = Some (s\<lparr>st_ErrorFileID := v\<rparr>)"
  "st_Model s = [] \<Longrightarrow> fold_opt (set_member BatchStatusInfo_fields)
     (member_unless (v = []) ''model'' (JStr v)) s = Some (s\<lparr>st_Model := v\<rparr>)"
  by (cases s; simp add: fold_set_member_unless BatchStatusInfo_fields_def dec_simps)+

lemma set_status_struct:
  "st_Errors s = None \<Longrightarrow> pred_option BatchErrors_ok e \<Longrightarrow>
     fold_opt (set_member BatchStatusInfo_fields) (member_opt ''errors'' enc_BatchErrors e) s
       = Some (s\<lparr>st_Errors := e\<rparr>)"
  "st_Usage s = None \<Longrightarrow> pred_option BatchUsage_ok u \<Longrightarrow>
     fold_opt (set_member BatchStatusInfo_fields) (member_opt ''usage'' enc_BatchUsage u) s
       = Some (s\<lparr>st_Usage := u\<rparr>)"
  "st_RequestCounts s = zero_BatchRequestCounts \<Longrightarrow> BatchRequestCounts_ok c \<Longrightarrow>
     set_member BatchStatusInfo_fields (''request_counts'', enc_BatchRequestCounts c) s
       = Some (s\<lparr>st_RequestCounts := c\<rparr>)"
  "set_member BatchStatusInfo_fields (''status'', JStr v) s = Some (s\<lparr>st_Status := v\<rparr>)"
proof -
  have n: "enc_BatchErrors x \<noteq> JNull" "enc_BatchUsage y \<noteq> JNull" for x y
    by (simp_all add: enc_BatchErrors_def enc_BatchUsage_def)
  show "st_Errors s = None \<Longrightarrow> pred_option BatchErrors_ok e \<Longrightarrow>
     fold_opt (set_member BatchStatusInfo_fields) (member_opt ''errors'' enc_BatchErrors e) s
       = Some (s\<lparr>st_Errors := e\<rparr>)"
    by (cases s; cases e)
       (simp_all add: fold_set_member_opt BatchStatusInfo_fields_def dec_simps n dec_BatchErrors_enc)
  show "st_Usage s = None \<Longrightarrow> pred_option BatchUsage_ok u \<Longrightarrow>
     fold_opt (set_member BatchStatusInfo_fields) (member_opt ''usage'' enc_BatchUsage u) s
       = Some (s\<lparr>st_Usage := u\<rparr>)"
    by (cases s; cases u)
       (simp_all add: fold_set_member_opt BatchStatusInfo_fields_def dec_simps n dec_BatchUsage_enc)
qed (simp_all add: BatchStatusInfo_fields_def dec_simps)

theorem dec_BatchStatusInfo_enc:
  assumes "BatchStatusInfo_ok s"
  shows "dec_struct BatchStatusInfo_fields (enc_BatchStatusInfo s) zero_BatchStatusInfo = Some s"
  using assms
  by (cases s)
     (simp add: BatchStatusInfo_ok_def enc_BatchStatusInfo_def BatchStatusInfo_members_def
        zero_BatchStatusInfo_def fold_opt_append set_status_time set_status_string
        set_status_struct)

lemma enc_BatchErrors_json_ok: "BatchErrors_ok e \<Longrightarrow> json_ok (enc_BatchErrors e)"
  by (auto simp: enc_BatchErrors_def BatchErrors_ok_def BatchError_ok_def enc_BatchError_def
      member_unless_def list_all_iff split: option.splits)

lemma enc_BatchUsage_json_ok: "json_ok (enc_BatchUsage u)"
  by (simp add: enc_BatchUsage_def)

lemma member_opt_json_ok:
  "m \<in> set (member_opt n enc p) \<Longrightarrow> utf8_valid n \<Longrightarrow> pred_option (\<lambda>x. json_ok (enc x)) p
     \<Longrightarrow> utf8_valid (fst m) \<and> json_ok (snd m)"
  by (auto simp: member_opt_def split: option.splits)

lemma member_unless_json_ok:
  "m \<in> set (member_unless c n j) \<Longrightarrow> utf8_valid n \<Longrightarrow> json_ok j
     \<Longrightarrow> utf8_valid (fst m) \<and> json_ok (snd m)"
  by (auto simp: member_unless_def split: if_splits)

lemma BatchStatusInfo_json_ok:
  assumes "BatchStatusInfo_ok s"
  shows "\<forall>m \<in> set (BatchStatusInfo_members s). utf8_valid (fst m) \<and> json_ok (snd m)"
proof -
  have "pred_option (\<lambda>x. json_ok (enc_int x)) p" for p by (cases p) simp_all
  moreover have "pred_option (\<lambda>x. json_ok (enc_BatchErrors x)) (st_Errors s)"
    using assms by (cases "st_Errors s") (auto simp: BatchStatusInfo_ok_def enc_BatchErrors_json_ok)
  moreover have "pred_option (\<lambda>x. json_ok (enc_BatchUsage x)) (st_Usage s)"
    by (cases "st_Usage s") (auto simp: enc_BatchUsage_json_ok)
  moreover have "json_ok (enc_BatchRequestCounts (st_RequestCounts s))"
    by (simp add: enc_BatchRequestCounts_def)
  moreover have "json_ok (JStr (st_Status s))" "json_ok (JStr (st_OutputFileID s))"
    "json_ok (JStr (st_ErrorFileID s))" "json_ok (JStr (st_Model s))"
    using assms by (simp_all add: BatchStatusInfo_ok_def)
  ultimately show ?thesis
    unfolding BatchStatusInfo_members_def
    by (auto simp del: json_ok.simps dest!: member_opt_json_ok member_unless_json_ok)
qed

section \<open>Batches and lists of batches\<close>

text \<open>\<open>Batch\<close> embeds the two structs: their members follow the identifier.\<close>

record Batch =
  b_ID :: string
  b_Spec :: BatchSpec
  b_Status :: BatchStatusInfo

definition enc_Batch :: "Batch \<Rightarrow> json" where
  "enc_Batch b =
     JObj ((''id'', JStr (b_ID b)) # BatchSpec_members (b_Spec b)
             @ BatchStatusInfo_members (b_Status b))"

record ListBatchResponse =
  lb_Object :: string
  lb_Data :: "Batch list"
  lb_FirstID :: string
  lb_LastID :: string
  lb_HasMore :: bool

definition enc_ListBatchResponse :: "ListBatchResponse \<Rightarrow> json" where
  "enc_ListBatchResponse l =
     JObj [(''object'', JStr (lb_Object l)), (''data'', JArr (map enc_Batch (lb_Data l))),
           (''first_id'', JStr (lb_FirstID l)), (''last_id'', JStr (lb_LastID l)),
           (''has_more'', JBool (lb_HasMore l))]"

section \<open>The create request\<close>

record OutputExpiresAfter =
  oea_Seconds :: int
  oea_Anchor :: string

record CreateBatchRequest =
  cr_InputFileID :: string
  cr_Endpoint :: Endpoint
  cr_CompletionWindow :: string
  cr_Metadata :: string_map
  cr_OutputExpiresAfter :: "OutputExpiresAfter option"

definition zero_OutputExpiresAfter :: OutputExpiresAfter where
  "zero_OutputExpiresAfter = \<lparr>oea_Seconds = 0, oea_Anchor = []\<rparr>"

definition zero_CreateBatchRequest :: CreateBatchRequest where
  "zero_CreateBatchRequest =
     \<lparr>cr_InputFileID = [], cr_Endpoint = [], cr_CompletionWindow = [], cr_Metadata = [],
      cr_OutputExpiresAfter = None\<rparr>"

definition OutputExpiresAfter_fields :: "OutputExpiresAfter field_table" where
  "OutputExpiresAfter_fields =
     [field ''seconds'' dec_int64 oea_Seconds oea_Seconds_update,
      field ''anchor'' dec_string oea_Anchor oea_Anchor_update]"

definition CreateBatchRequest_fields :: "CreateBatchRequest field_table" where
  "CreateBatchRequest_fields =
     [field ''input_file_id'' dec_string cr_InputFileID cr_InputFileID_update,
      field ''endpoint'' dec_string cr_Endpoint cr_Endpoint_update,
      field ''completion_window'' dec_string cr_CompletionWindow cr_CompletionWindow_update,
      field ''metadata'' dec_string_map cr_Metadata cr_Metadata_update,
      field ''output_expires_after''
        (dec_ptr (dec_struct OutputExpiresAfter_fields) zero_OutputExpiresAfter)
        cr_OutputExpiresAfter cr_OutputExpiresAfter_update]"

definition validEndpoints :: "Endpoint list" where
  "validEndpoints =
     [EndpointResponses, EndpointChatCompletions, EndpointEmbeddings, EndpointCompletions,
      EndpointModerations]"

definition nil_dereference :: error where
  "nil_dereference = ''runtime error: invalid memory address or nil pointer dereference''"

text \<open>\<open>Validate\<close> on a pointer: the first field access panics when the pointer is nil.\<close>

definition CreateBatchRequest_Validate :: "CreateBatchRequest option \<Rightarrow> error option go_result" where
  "CreateBatchRequest_Validate p =
     (case p of
        None \<Rightarrow> Panics nil_dereference
      | Some r \<Rightarrow> Returns
          (if cr_CompletionWindow r = [] then Some ''completion_window is required''
           else if ParseDuration (cr_CompletionWindow r) = None then
             Some ''completion_window must be a valid duration (e.g., 24h)''
           else if cr_Endpoint r = [] then Some ''endpoint is required''
           else if cr_Endpoint r \<notin> set validEndpoints then
             Some (''invalid endpoint: '' @ cr_Endpoint r)
           else if cr_InputFileID r = [] then Some ''input_file_id is required''
           else case cr_OutputExpiresAfter r of
             None \<Rightarrow> None
           | Some e \<Rightarrow>
               (if oea_Anchor e = [] then Some ''output_expires_after.anchor is required''
                else if oea_Seconds e < 3600 \<or> oea_Seconds e > 2592000 then
                  Some ''output_expires_after.seconds must be between 3600 (1 hour) and 2592000 (30 days)''
                else None)))"

text \<open>What a request that passes \<open>Validate\<close> satisfies.\<close>

definition valid_request :: "CreateBatchRequest \<Rightarrow> bool" where
  "valid_request r \<longleftrightarrow>
     ParseDuration (cr_CompletionWindow r) \<noteq> None \<and> cr_Endpoint r \<in> set validEndpoints \<and>
     cr_InputFileID r \<noteq> [] \<and>
     (case cr_OutputExpiresAfter r of
        None \<Rightarrow> True
      | Some e \<Rightarrow> oea_Anchor e \<noteq> [] \<and> 3600 \<le> oea_Seconds e \<and> oea_Seconds e \<le> 2592000)"

lemma ParseDuration_Nil [simp]: "ParseDuration [] = None"
  by (simp add: ParseDuration_def)

lemma Validate_accepts:
  "CreateBatchRequest_Validate (Some r) = Returns None \<longleftrightarrow> valid_request r"
proof -
  have "cr_Endpoint r \<in> set validEndpoints \<Longrightarrow> cr_Endpoint r \<noteq> []"
    by (auto simp: validEndpoints_def endpoint_defs)
  then show ?thesis
    by (auto simp: CreateBatchRequest_Validate_def valid_request_def not_less
        split: option.splits)
qed

lemma Validate_Some_returns: "\<exists>e. CreateBatchRequest_Validate (Some r) = Returns e"
  by (simp add: CreateBatchRequest_Validate_def)

definition request_strings_ok :: "CreateBatchRequest \<Rightarrow> bool" where
  "request_strings_ok r \<longleftrightarrow>
     utf8_valid (cr_InputFileID r) \<and> utf8_valid (cr_Endpoint r) \<and>
     utf8_valid (cr_CompletionWindow r) \<and> map_ok (cr_Metadata r) \<and> map_strings_ok (cr_Metadata r)"

text \<open>The request body is decoded through a pointer to a pointer: \<open>null\<close> makes it nil.\<close>

definition decode_request :: "bytes \<Rightarrow> CreateBatchRequest option option" where
  "decode_request body =
     (case json_decode_first body of
        None \<Rightarrow> None
      | Some j \<Rightarrow>
          dec_ptr (dec_struct CreateBatchRequest_fields) zero_CreateBatchRequest j
            (Some zero_CreateBatchRequest))"

lemma decode_request_strings_ok:
  assumes "decode_request body = Some (Some r)"
  shows "request_strings_ok r"
proof -
  obtain j rest where j: "json_value body = Some (j, rest)"
    and d: "dec_struct CreateBatchRequest_fields j zero_CreateBatchRequest = Some r"
    using assms
    by (auto simp: decode_request_def json_decode_first_def dec_ptr_def
        split: option.splits if_splits)
  show ?thesis
  proof (rule dec_struct_invariant [OF d json_value_strings_ok [OF j]])
    show "request_strings_ok zero_CreateBatchRequest"
      by (simp add: request_strings_ok_def zero_CreateBatchRequest_def map_ok_def map_strings_ok_def)
  next
    fix n f v s t
    assume "(n, f) \<in> set CreateBatchRequest_fields" "strings_ok v" "request_strings_ok s"
      "f v s = Some t"
    then show "request_strings_ok t"
      by (auto simp: CreateBatchRequest_fields_def field_def request_strings_ok_def
          dest: dec_string_ok dec_string_map_ok)
  qed
qed

text \<open>The expiry of a decoded request.\<close>

lemma dec_int64_ok: "dec_int64 j i = Some k \<Longrightarrow> int64_ok i \<Longrightarrow> int64_ok k"
  by (cases j) (auto dest: ParseInt_range)

definition expiry_ok :: "OutputExpiresAfter \<Rightarrow> bool" where
  "expiry_ok e \<longleftrightarrow> int64_ok (oea_Seconds e) \<and> utf8_valid (oea_Anchor e)"

lemma dec_expiry_ok:
  assumes "dec_struct OutputExpiresAfter_fields j e = Some e'" and "strings_ok j" and "expiry_ok e"
  shows "expiry_ok e'"
proof (rule dec_struct_invariant [OF assms(1,2), where P = expiry_ok, OF assms(3)])
  fix n f v s t
  assume "(n, f) \<in> set OutputExpiresAfter_fields" "strings_ok v" "expiry_ok s" "f v s = Some t"
  then show "expiry_ok t"
    by (auto simp: OutputExpiresAfter_fields_def field_def expiry_ok_def dest: dec_string_ok dec_int64_ok)
qed

lemma zero_expiry_ok: "expiry_ok zero_OutputExpiresAfter"
  by (simp add: expiry_ok_def int64_ok_def zero_OutputExpiresAfter_def)

lemma decode_request_expiry_ok:
  assumes "decode_request body = Some (Some r)"
  shows "pred_option expiry_ok (cr_OutputExpiresAfter r)"
proof -
  obtain j rest where j: "json_value body = Some (j, rest)"
    and d: "dec_struct CreateBatchRequest_fields j zero_CreateBatchRequest = Some r"
    using assms
    by (auto simp: decode_request_def json_decode_first_def dec_ptr_def
        split: option.splits if_splits)
  show ?thesis
  proof (rule dec_struct_invariant [OF d json_value_strings_ok [OF j]])
    show "pred_option expiry_ok (cr_OutputExpiresAfter zero_CreateBatchRequest)"
      by (simp add: zero_CreateBatchRequest_def)
  next
    fix n f v s t
    assume *: "(n, f) \<in> set CreateBatchRequest_fields" "strings_ok v"
      "pred_option expiry_ok (cr_OutputExpiresAfter s)" "f v s = Some t"
    have "expiry_ok e" if "dec_struct OutputExpiresAfter_fields v
        (case cr_OutputExpiresAfter s of None \<Rightarrow> zero_OutputExpiresAfter | Some x \<Rightarrow> x) = Some e" for e
      using dec_expiry_ok [OF that *(2)] *(3) zero_expiry_ok by (cases "cr_OutputExpiresAfter s") simp_all
    then show "pred_option expiry_ok (cr_OutputExpiresAfter t)"
      using * by (auto simp: CreateBatchRequest_fields_def field_def dec_ptr_def split: if_splits)
  qed
qed

end
