(* ===== verification/Rest.thy ===== *)
theory Rest
  imports OpenAI
begin

text \<open>
  The error bodies of the API (\<open>internal/shared/openai/apierror.go\<close>), the response writer of
  \<open>net/http\<close> and the response helpers (\<open>internal/apiserver/common/rest.go\<close>).
\<close>

section \<open>API errors\<close>

record APIError =
  ae_Code :: int
  ae_Type :: string
  ae_Message :: string
  ae_Param :: "string option"

definition ErrorCodeToType :: "int \<Rightarrow> string" where
  "ErrorCodeToType code =
     (if code = 400 then ''BadRequestError''
      else if code = 401 then ''AuthenticationError''
      else if code = 403 then ''PermissionDeniedError''
      else if code = 404 then ''NotFoundError''
      else if code = 422 then ''UnprocessableEntityError''
      else if code = 429 then ''RateLimitError''
      else if code = 501 then ''NotImplementedError''
      else if code \<ge> 500 then ''InternalServerError''
      else ''APIConnectionError'')"

definition NewAPIError :: "int \<Rightarrow> string \<Rightarrow> string \<Rightarrow> string option \<Rightarrow> APIError" where
  "NewAPIError code errorType message param =
     \<lparr>ae_Code = code,
      ae_Type = (if errorType = [] then ErrorCodeToType code else errorType),
      ae_Message = message, ae_Param = param\<rparr>"

definition enc_APIError :: "APIError \<Rightarrow> json" where
  "enc_APIError e =
     JObj (member_unless (ae_Code e = 0) ''code'' (enc_int (ae_Code e))
       @ [(''type'', JStr (ae_Type e)), (''message'', JStr (ae_Message e)),
          (''param'', case ae_Param e of None \<Rightarrow> JNull | Some p \<Rightarrow> JStr p)])"

record ErrorResponse =
  er_Error :: APIError

definition enc_ErrorResponse :: "ErrorResponse \<Rightarrow> json" where
  "enc_ErrorResponse r = JObj [(''error'', enc_APIError (er_Error r))]"

section \<open>The response writer\<close>

text \<open>
  The canonical form of a header name, as \<open>textproto.CanonicalMIMEHeaderKey\<close> makes it: the first
  letter and every letter after a hyphen is a capital, the others are not. A name with a byte that
  is not a token byte stays as it is.
\<close>

type_synonym headers = "(string \<times> string) list"

definition upper_char :: "char \<Rightarrow> char" where
  "upper_char c = (if 97 \<le> byte c \<and> byte c \<le> 122 then char_of (nat (byte c - 32)) else c)"

definition lower_char :: "char \<Rightarrow> char" where
  "lower_char c = (if 65 \<le> byte c \<and> byte c \<le> 90 then char_of (nat (byte c + 32)) else c)"

definition token_char :: "char \<Rightarrow> bool" where
  "token_char c \<longleftrightarrow>
     48 \<le> byte c \<and> byte c \<le> 57 \<or> 65 \<le> byte c \<and> byte c \<le> 90 \<or> 97 \<le> byte c \<and> byte c \<le> 122 \<or>
     c \<in> set ''!#$%&*+-.^_`|~'' \<or> byte c = 39"

fun canonical_letters :: "bool \<Rightarrow> string \<Rightarrow> string" where
  "canonical_letters up [] = []"
| "canonical_letters up (c # s) =
     (if up then upper_char c else lower_char c) # canonical_letters (c = CHR ''-'') s"

definition canonical_key :: "string \<Rightarrow> string" where
  "canonical_key k = (if list_all token_char k then canonical_letters True k else k)"

lemma canonical_names [simp]:
  "canonical_key ''Content-Type'' = ''Content-Type''"
  "canonical_key ''X-Content-Type-Options'' = ''X-Content-Type-Options''"
  "canonical_key ''X-Frame-Options'' = ''X-Frame-Options''"
  "canonical_key ''X-XSS-Protection'' = ''X-Xss-Protection''"
  "canonical_key ''X-Request-ID'' = ''X-Request-Id''"
  "canonical_key ''Allow'' = ''Allow''"
  "canonical_key ''Location'' = ''Location''"
  by code_simp+

text \<open>
  The header map, the code and the headers that were sent (\<open>None\<close> before the first
  \<open>WriteHeader\<close>), and the body. The first \<open>WriteHeader\<close> wins, a \<open>Write\<close> without one sends 200.
  \<open>rw_statusCode\<close> is the field of the middleware's \<open>responseWriter\<close>, which wraps the writer and
  notes the code of every explicit call of \<open>WriteHeader\<close>.
\<close>

record response_writer =
  rw_header :: headers
  rw_sent :: "(int \<times> headers) option"
  rw_body :: bytes
  rw_statusCode :: int

definition new_writer :: response_writer where
  "new_writer = \<lparr>rw_header = [], rw_sent = None, rw_body = [], rw_statusCode = 200\<rparr>"

definition set_header :: "string \<Rightarrow> string \<Rightarrow> response_writer \<Rightarrow> response_writer" where
  "set_header k v w =
     w\<lparr>rw_header := (canonical_key k, v) # filter (\<lambda>h. fst h \<noteq> canonical_key k) (rw_header w)\<rparr>"

definition send_header :: "int \<Rightarrow> response_writer \<Rightarrow> response_writer" where
  "send_header code w =
     (case rw_sent w of None \<Rightarrow> w\<lparr>rw_sent := Some (code, rw_header w)\<rparr> | Some _ \<Rightarrow> w)"

definition write_header :: "int \<Rightarrow> response_writer \<Rightarrow> response_writer" where
  "write_header code w = send_header code (w\<lparr>rw_statusCode := code\<rparr>)"

definition write_body :: "bytes \<Rightarrow> response_writer \<Rightarrow> response_writer" where
  "write_body data w =
     (let w' = send_header 200 w in w'\<lparr>rw_body := rw_body w' @ data\<rparr>)"

definition rw_status :: "response_writer \<Rightarrow> int option" where
  "rw_status w = map_option fst (rw_sent w)"

section \<open>Requests\<close>

text \<open>
  What the handlers read of an \<open>http.Request\<close>: the body, the parameters of the parsed query in
  their order, and the wildcards the router bound. \<open>Get\<close> and \<open>PathValue\<close> give the empty string
  for a name that is not there.
\<close>

record http_request =
  rq_Method :: string
  rq_Path :: string
  rq_Body :: bytes
  rq_Query :: "(string \<times> string) list"
  rq_PathValues :: "(string \<times> string) list"

definition lookup_param :: "string \<Rightarrow> (string \<times> string) list \<Rightarrow> string" where
  "lookup_param name ps = (case map_of ps name of None \<Rightarrow> [] | Some v \<Rightarrow> v)"

abbreviation Query_Get :: "http_request \<Rightarrow> string \<Rightarrow> string" where
  "Query_Get r name \<equiv> lookup_param name (rq_Query r)"

abbreviation PathValue :: "http_request \<Rightarrow> string \<Rightarrow> string" where
  "PathValue r name \<equiv> lookup_param name (rq_PathValues r)"

section \<open>The helpers\<close>

text \<open>\<open>json.Marshal\<close> has no error on the types of the API.\<close>

definition Marshal :: "json \<Rightarrow> error + bytes" where
  "Marshal j = Inr (jprint j)"

text \<open>\<open>WriteJSONResponse\<close> on the outcome of marshalling its object.\<close>

definition WriteJSONResponse :: "int \<Rightarrow> error + bytes \<Rightarrow> response_writer \<Rightarrow> response_writer" where
  "WriteJSONResponse status marshalled w =
     (let w = set_header ''Content-Type'' ''application/json'' w
      in case marshalled of
           Inl err \<Rightarrow>
             write_body (CHR ''{'' # quote # ''error'' @ quote # CHR '':'' # quote
                           # ''Internal Server Error'' @ [quote, CHR ''}''])
               (write_header 500 w)
         | Inr data \<Rightarrow> write_body data (write_header status w))"

definition WriteAPIError :: "APIError \<Rightarrow> response_writer \<Rightarrow> response_writer" where
  "WriteAPIError oaiErr w =
     (let errorResp = \<lparr>er_Error = oaiErr\<rparr>
      in WriteJSONResponse (ae_Code oaiErr) (Marshal (enc_ErrorResponse errorResp)) w)"

definition WriteNotImplementedError :: "response_writer \<Rightarrow> response_writer" where
  "WriteNotImplementedError w =
     WriteAPIError (NewAPIError 501 [] ''This is not yet implemented'' None) w"

definition WriteInternalServerError :: "response_writer \<Rightarrow> response_writer" where
  "WriteInternalServerError w =
     WriteAPIError (NewAPIError 500 [] ''Internal Server Error'' None) w"

lemma ae_Code_NewAPIError [rest_simps]: "ae_Code (NewAPIError c t m p) = c"
  by (simp add: NewAPIError_def)

lemma rw_sent_WriteJSONResponse [rest_simps]:
  "rw_sent w = None \<Longrightarrow>
     rw_sent (WriteJSONResponse c (Inr d) w)
       = Some (c, (''Content-Type'', ''application/json'') # filter (\<lambda>h. fst h \<noteq> ''Content-Type'') (rw_header w))"
  by (simp add: WriteJSONResponse_def write_body_def write_header_def send_header_def set_header_def Let_def)

lemma rw_status_WriteJSONResponse [rest_simps]:
  "rw_sent w = None \<Longrightarrow> rw_status (WriteJSONResponse c (Inr d) w) = Some c"
  by (simp add: rw_status_def rw_sent_WriteJSONResponse)

lemma rw_body_WriteJSONResponse [rest_simps]:
  "rw_body (WriteJSONResponse c (Inr d) w) = rw_body w @ d"
  by (simp add: WriteJSONResponse_def write_body_def write_header_def send_header_def set_header_def Let_def
      split: option.splits)

lemma rw_status_WriteAPIError [rest_simps]:
  "rw_sent w = None \<Longrightarrow> rw_status (WriteAPIError e w) = Some (ae_Code e)"
  by (simp add: WriteAPIError_def Marshal_def rest_simps Let_def)

lemma rw_status_errors [rest_simps]:
  "rw_sent w = None \<Longrightarrow> rw_status (WriteInternalServerError w) = Some 500"
  "rw_sent w = None \<Longrightarrow> rw_status (WriteNotImplementedError w) = Some 501"
  by (simp_all add: WriteInternalServerError_def WriteNotImplementedError_def rest_simps)

lemma new_writer_sent [simp]: "rw_sent new_writer = None" "rw_body new_writer = []"
  by (simp_all add: new_writer_def)

end
