(* ===== verification/StoreApi.thy ===== *)
theory StoreApi
  imports Prelude GoNum "HOL-Library.Multiset"
begin

text \<open>
  The interfaces of the batch data structures (\<open>internal/database/api/database.go\<close>): the job
  record and its \<open>IsValid\<close>, the priority queue entries and the events, and for each interface
  the table of its operations (\<open>db_client\<close>, \<open>queue_client\<close>, \<open>event_client\<close>,
  \<open>status_client\<close>) with the contract its comments promise, as a locale.

  Jobs are passed by pointer: a pointer is an index into the heap of job objects, and a
  database operation takes and returns the heap beside its own state.
\<close>

section \<open>Jobs\<close>

record BatchJob =
  job_ID :: string
  job_SLO :: gotime
  job_TTL :: int
  job_Tags :: "string list"
  job_Spec :: bytes
  job_Status :: bytes

definition BatchJob_IsValid :: "BatchJob \<Rightarrow> error option" where
  "BatchJob_IsValid bj =
     (if length (job_ID bj) = 0 then Some ''ID is empty''
      else if job_SLO bj = 0 then Some (''SLO is zero for ID '' @ job_ID bj)
      else if job_TTL bj \<le> 0 then Some (''TTL is invalid for ID '' @ job_ID bj)
      else None)"

type_synonym ptr = nat
type_synonym heap = "BatchJob list"

type_synonym TagsLogicalCond = int

definition TagsLogicalCondNa :: TagsLogicalCond where "TagsLogicalCondNa = 0"
definition TagsLogicalCondAnd :: TagsLogicalCond where "TagsLogicalCondAnd = 1"
definition TagsLogicalCondOr :: TagsLogicalCond where "TagsLogicalCondOr = 2"

definition TagsLogicalCondMaxVal :: TagsLogicalCond where "TagsLogicalCondMaxVal = 3"

definition TagsLogicalCondNames :: "TagsLogicalCond \<Rightarrow> string option" where
  "TagsLogicalCondNames = [TagsLogicalCondAnd \<mapsto> ''and'', TagsLogicalCondOr \<mapsto> ''or'']"

section \<open>Queue entries\<close>

record BatchJobPriority =
  jp_ID :: string
  jp_SLO :: gotime

section \<open>Events\<close>

type_synonym BatchEventType = int

definition BatchEventCancel :: BatchEventType where "BatchEventCancel = 0"
definition BatchEventPause :: BatchEventType where "BatchEventPause = 1"
definition BatchEventResume :: BatchEventType where "BatchEventResume = 2"
definition BatchEventMaxVal :: BatchEventType where "BatchEventMaxVal = 3"

record BatchEvent =
  ev_ID :: string
  ev_Type :: BatchEventType
  ev_TTL :: int

definition BatchEvent_IsValid :: "BatchEvent \<Rightarrow> error option" where
  "BatchEvent_IsValid be =
     (if length (ev_ID be) = 0 then Some ''ID is empty''
      else if ev_Type be < BatchEventCancel \<or> ev_Type be \<ge> BatchEventMaxVal then
        Some (''event type '' @ show_int (ev_Type be) @ '' is invalid for ID '' @ ev_ID be)
      else if ev_TTL be \<le> 0 then Some (''TTL is invalid for ID '' @ ev_ID be)
      else None)"

section \<open>The operations of the clients\<close>

text \<open>
  The results are Go's result lists, the error last. The context argument is left out where no
  client under study looks at it. \<open>Dequeue\<close> waits for up to the given time, and sending on a
  channel can panic, so a call of these is a \<open>go_result\<close>.
\<close>

record 'd db_client =
  db_Store :: "ptr \<Rightarrow> heap \<times> 'd \<Rightarrow> (string \<times> error option) \<times> heap \<times> 'd"
  db_Get :: "string list \<Rightarrow> string list \<Rightarrow> TagsLogicalCond \<Rightarrow> bool \<Rightarrow> int \<Rightarrow> int
      \<Rightarrow> heap \<times> 'd \<Rightarrow> (ptr list \<times> int \<times> error option) \<times> heap \<times> 'd"
  db_Update :: "ptr \<Rightarrow> heap \<times> 'd \<Rightarrow> error option \<times> heap \<times> 'd"
  db_Delete :: "string list \<Rightarrow> heap \<times> 'd \<Rightarrow> (string list \<times> error option) \<times> heap \<times> 'd"

record 'q queue_client =
  pq_Enqueue :: "BatchJobPriority \<Rightarrow> 'q \<Rightarrow> error option \<times> 'q"
  pq_Dequeue :: "duration \<Rightarrow> int \<Rightarrow> 'q \<Rightarrow> ((BatchJobPriority list \<times> error option) \<times> 'q) go_result"
  pq_Remove :: "BatchJobPriority \<Rightarrow> 'q \<Rightarrow> (int \<times> error option) \<times> 'q"

record 'e event_client =
  ec_ProducerSendEvents :: "BatchEvent list \<Rightarrow> 'e \<Rightarrow> ((string list \<times> error option) \<times> 'e) go_result"

record 't status_client =
  sc_Set :: "string \<Rightarrow> int \<Rightarrow> bytes \<Rightarrow> 't \<Rightarrow> error option \<times> 't"
  sc_Get :: "string \<Rightarrow> 't \<Rightarrow> bytes option \<times> error option"
  sc_Delete :: "string \<Rightarrow> 't \<Rightarrow> error option \<times> 't"

section \<open>Contracts\<close>

text \<open>What \<open>Get\<close> gives back of a stored job: all of it but the TTL.\<close>

definition same_job :: "BatchJob \<Rightarrow> BatchJob \<Rightarrow> bool" where
  "same_job a b \<longleftrightarrow>
     job_ID a = job_ID b \<and> job_SLO a = job_SLO b \<and> job_Tags a = job_Tags b \<and>
     job_Spec a = job_Spec b \<and> job_Status a = job_Status b"

lemma same_job_refl [simp]: "same_job j j"
  by (simp add: same_job_def)

text \<open>
  The contract of \<open>BatchDBClient\<close>. \<open>look\<close> is the database as its users see it, \<open>inv\<close> the
  invariant of the representation. A caller may allocate job objects and may write the status
  of an object it holds; both leave the other jobs alone.
\<close>

locale job_store =
  fixes dbc :: "'d db_client"
    and look :: "heap \<times> 'd \<Rightarrow> string \<Rightarrow> BatchJob option"
    and inv :: "heap \<times> 'd \<Rightarrow> bool"
  assumes look_ID: "inv s \<Longrightarrow> look s k = Some j \<Longrightarrow> job_ID j = k"
    and alloc: "inv (h, d) \<Longrightarrow> inv (h @ [j], d) \<and> look (h @ [j], d) = look (h, d)"
    and store: "inv (h, d) \<Longrightarrow> p < length h \<Longrightarrow> db_Store dbc p (h, d) = ((i, e), s')
      \<Longrightarrow> inv s' \<and> look s' = (if e = None then (look (h, d))(job_ID (h ! p) \<mapsto> h ! p) else look (h, d))"
    and get_frame: "inv s \<Longrightarrow> db_Get dbc ks tags cond static start limit s = (r, s')
      \<Longrightarrow> inv s' \<and> look s' = look s"
    and get: "inv s \<Longrightarrow> db_Get dbc [k] [] TagsLogicalCondNa True 0 1 s = ((ps, cur, None), s')
      \<Longrightarrow> (case look s k of
            None \<Rightarrow> ps = []
          | Some j \<Rightarrow> \<exists>p. ps = [p] \<and> p < length (fst s') \<and> same_job (fst s' ! p) j)"
    and get_list: "inv s \<Longrightarrow> 0 < limit
      \<Longrightarrow> db_Get dbc [] [] TagsLogicalCondNa True start limit s = ((ps, cur, None), s')
      \<Longrightarrow> int (length ps) \<le> limit \<and> distinct (map (\<lambda>p. job_ID (fst s' ! p)) ps) \<and>
          (\<forall>p \<in> set ps. p < length (fst s') \<and>
             (\<exists>j. look s (job_ID (fst s' ! p)) = Some j \<and> same_job (fst s' ! p) j))"
    and put_status: "inv (h, d) \<Longrightarrow> p < length h
      \<Longrightarrow> inv (h[p := (h ! p)\<lparr>job_Status := v\<rparr>], d) \<and>
          (look (h[p := (h ! p)\<lparr>job_Status := v\<rparr>], d) = look (h, d) \<or>
           (\<exists>j. look (h, d) (job_ID (h ! p)) = Some j \<and>
              look (h[p := (h ! p)\<lparr>job_Status := v\<rparr>], d)
                = (look (h, d))(job_ID (h ! p) \<mapsto> j\<lparr>job_Status := v\<rparr>)))"
    and update: "inv (h, d) \<Longrightarrow> p < length h
      \<Longrightarrow> look (h, d) (job_ID (h ! p)) = Some j
      \<Longrightarrow> same_job (j\<lparr>job_Status := job_Status (h ! p)\<rparr>) (h ! p)
      \<Longrightarrow> db_Update dbc p (h, d) = (e, s')
      \<Longrightarrow> inv s' \<and>
          (if e = None
           then (\<exists>j'. same_job j' (h ! p) \<and> look s' = (look (h, d))(job_ID (h ! p) \<mapsto> j'))
           else look s' = look (h, d))"
    and delete: "inv s \<Longrightarrow> db_Delete dbc [k] s = ((ids, e), s')
      \<Longrightarrow> inv s' \<and> (look s' = (look s)(k := None) \<or> e \<noteq> None \<and> look s' = look s)"

text \<open>
  The contract of \<open>BatchPriorityQueueClient\<close>: the entries come out in the order of their SLO.
\<close>

locale job_queue =
  fixes pqc :: "'q queue_client"
    and items :: "'q \<Rightarrow> BatchJobPriority list"
    and qinv :: "'q \<Rightarrow> bool"
  assumes ordered: "qinv q \<Longrightarrow> sorted (map jp_SLO (items q))"
    and enqueue: "qinv q \<Longrightarrow> pq_Enqueue pqc jp q = (e, q')
      \<Longrightarrow> qinv q' \<and> (if e = None then mset (items q') = add_mset jp (mset (items q))
                     else items q' = items q)"
    and dequeue: "qinv q \<Longrightarrow> pq_Dequeue pqc timeout 1 q = Returns ((js, e), q')
      \<Longrightarrow> qinv q' \<and> (if e = None then items q = js @ items q' \<and> length js = min 1 (length (items q))
                     else js = [] \<and> items q' = items q)"
    and remove: "qinv q \<Longrightarrow> pq_Remove pqc jp q = ((n, e), q')
      \<Longrightarrow> qinv q' \<and>
          (if e = None
           then (0 < n \<longleftrightarrow> (\<exists>x \<in> set (items q). jp_ID x = jp_ID jp)) \<and>
                filter (\<lambda>x. jp_ID x \<noteq> jp_ID jp) (items q') = filter (\<lambda>x. jp_ID x \<noteq> jp_ID jp) (items q) \<and>
                (\<not> 0 < n \<longrightarrow> items q' = items q) \<and>
                (distinct (map jp_ID (items q)) \<longrightarrow> (\<forall>x \<in> set (items q'). jp_ID x \<noteq> jp_ID jp))
           else items q' = items q)"

text \<open>The contract of \<open>BatchStatusClient\<close>: a map from job identifiers to data.\<close>

locale status_store =
  fixes scl :: "'t status_client"
    and content :: "'t \<Rightarrow> string \<Rightarrow> bytes option"
  assumes set: "sc_Set scl k ttl v t = (None, t') \<Longrightarrow> content t' = (content t)(k \<mapsto> v)"
    and get: "sc_Get scl k t = (r, None) \<Longrightarrow> r = content t k"
    and delete: "sc_Delete scl k t = (None, t') \<Longrightarrow> content t' = (content t)(k := None)"

text \<open>
  The contract of the producer side of \<open>BatchEventChannelClient\<close>: \<open>pending\<close> lists the unread
  events of every consumer of a job; sending appends to the channels of the event's job, in
  order, and touches no other job's channels. A full channel may drop the event.
\<close>

locale event_channels =
  fixes ecl :: "'e event_client"
    and pending :: "'e \<Rightarrow> string \<Rightarrow> BatchEvent list list"
    and einv :: "'e \<Rightarrow> bool"
  assumes send: "einv c
      \<Longrightarrow> \<exists>sent e c'. ec_ProducerSendEvents ecl [ev] c = Returns ((sent, e), c') \<and>
          einv c' \<and> (\<forall>k. k \<noteq> ev_ID ev \<longrightarrow> pending c' k = pending c k) \<and>
          list_all2 (\<lambda>old new. new = old \<or> new = old @ [ev]) (pending c (ev_ID ev)) (pending c' (ev_ID ev))"

end
