(* ===== verification/ServerConf.thy ===== *)
theory ServerConf
  imports Prelude
begin

text \<open>
  The configuration of the API server (\<open>internal/apiserver/common/config.go\<close>). The file system
  (\<open>os.Stat\<close>, \<open>os.ReadFile\<close>), the YAML decoder and the command line parser are parameters:
  \<open>stat\<close> and \<open>ReadFile\<close> answer with an error or a value, \<open>yaml\<close> decodes a text into a
  configuration that may be partly filled already.
\<close>

record ServerConfig =
  sv_Host :: string
  sv_Port :: string
  sv_SSLCertFile :: string
  sv_SSLKeyFile :: string
  sv_BatchTTLSeconds :: int

definition NewConfig :: ServerConfig where
  "NewConfig =
     \<lparr>sv_Host = [], sv_Port = [], sv_SSLCertFile = [], sv_SSLKeyFile = [], sv_BatchTTLSeconds = 0\<rparr>"

definition ServerConfig_Validate :: "(string \<Rightarrow> error option) \<Rightarrow> ServerConfig \<Rightarrow> error option" where
  "ServerConfig_Validate stat c =
     (if sv_Port c = [] then Some ''port cannot be empty''
      else if sv_SSLCertFile c \<noteq> [] \<and> sv_SSLKeyFile c = [] \<or> sv_SSLCertFile c = [] \<and> sv_SSLKeyFile c \<noteq> [] then
        Some ''both ssl-cert-file and ssl-private-key-file must be provided together''
      else if sv_SSLCertFile c \<noteq> [] then
        (case stat (sv_SSLCertFile c) of
           Some err \<Rightarrow> Some (''ssl cert file not found: '' @ err)
         | None \<Rightarrow>
             (case stat (sv_SSLKeyFile c) of
                Some err \<Rightarrow> Some (''ssl key file not found: '' @ err)
              | None \<Rightarrow> None))
      else None)"

definition loadFromFile ::
  "(string \<Rightarrow> error + bytes) \<Rightarrow> (bytes \<Rightarrow> ServerConfig \<Rightarrow> error + ServerConfig)
    \<Rightarrow> string \<Rightarrow> ServerConfig \<Rightarrow> error + ServerConfig" where
  "loadFromFile ReadFile yaml path c =
     (if path = [] then Inl ''config file path cannot be empty''
      else case ReadFile path of
          Inl err \<Rightarrow> Inl (''failed to read config file: '' @ err)
        | Inr data \<Rightarrow>
            (case yaml data c of
               Inl err \<Rightarrow> Inl (''failed to parse YAML config file: '' @ err)
             | Inr c' \<Rightarrow> Inr c'))"

text \<open>\<open>flags\<close> parses the command line: the value of \<open>-config\<close>, given its default.\<close>

definition ServerConfig_Load ::
  "(string \<Rightarrow> error + string) \<Rightarrow> (string \<Rightarrow> error + bytes)
    \<Rightarrow> (bytes \<Rightarrow> ServerConfig \<Rightarrow> error + ServerConfig) \<Rightarrow> (string \<Rightarrow> error option)
    \<Rightarrow> ServerConfig \<Rightarrow> error + ServerConfig" where
  "ServerConfig_Load flags ReadFile yaml stat c =
     (case flags ''cmd/apiserver/config.yaml'' of
        Inl err \<Rightarrow> Inl err
      | Inr configFile \<Rightarrow>
          (case loadFromFile ReadFile yaml configFile c of
             Inl err \<Rightarrow> Inl err
           | Inr c' \<Rightarrow>
               (case ServerConfig_Validate stat c' of
                  Some err \<Rightarrow> Inl err
                | None \<Rightarrow> Inr c')))"

definition SSLEnabled :: "ServerConfig \<Rightarrow> bool" where
  "SSLEnabled c \<longleftrightarrow> sv_SSLCertFile c \<noteq> [] \<and> sv_SSLKeyFile c \<noteq> []"

text \<open>A configuration that loads can be served: the port is set, and TLS is either off, with
  neither file named, or on, with both files there. A failed check never yields a configuration.\<close>

theorem loaded_config_ok:
  assumes "ServerConfig_Load flags ReadFile yaml stat c = Inr c'"
  shows "sv_Port c' \<noteq> [] \<and>
     (if SSLEnabled c' then stat (sv_SSLCertFile c') = None \<and> stat (sv_SSLKeyFile c') = None
      else sv_SSLCertFile c' = [] \<and> sv_SSLKeyFile c' = []) \<and>
     (\<exists>path data. flags ''cmd/apiserver/config.yaml'' = Inr path \<and> path \<noteq> [] \<and> ReadFile path = Inr data \<and>
        yaml data c = Inr c')"
  using assms
  by (auto simp: ServerConfig_Load_def loadFromFile_def ServerConfig_Validate_def SSLEnabled_def
      split: sum.splits option.splits if_splits)

theorem loaded_config_ok_witness:
  "sv_Port (NewConfig\<lparr>sv_Port := ''8000''\<rparr>) \<noteq> [] \<and>
   ServerConfig_Load Inr (\<lambda>_. Inr ''port: 8000'') (\<lambda>_ c. Inr (c\<lparr>sv_Port := ''8000''\<rparr>)) (\<lambda>_. Some ''no such file'') NewConfig
     = Inr (NewConfig\<lparr>sv_Port := ''8000''\<rparr>)"
proof -
  have l: "ServerConfig_Load Inr (\<lambda>_. Inr ''port: 8000'') (\<lambda>_ c. Inr (c\<lparr>sv_Port := ''8000''\<rparr>)) (\<lambda>_. Some ''no such file'') NewConfig
     = Inr (NewConfig\<lparr>sv_Port := ''8000''\<rparr>)" by code_simp
  show ?thesis using loaded_config_ok [OF l] l by simp
qed

end
