(* ===== verification/BatchHandler.thy ===== *)
theory BatchHandler
  imports Rest StoreApi ServerConf
begin

text \<open>
  The handlers of the Batch API (\<open>internal/apiserver/batch/batch_handler.go\<close>), each as one
  definition over the tables of the clients it was built with: create, list, retrieve and
  cancel. A handler takes the response writer and the state of the service and gives both back;
  a panic inside a handler is a \<open>go_result\<close>. The identifier \<open>uuid.NewString\<close> makes and the
  instants \<open>time.Now\<close> reads are arguments. Logging, and the status client that no handler uses,
  are left out.

  The locale \<open>batch_service\<close> puts the contracts of the clients together; the lemmas in it hold
  for every database, queue and event client that keeps them.
\<close>

section \<open>State\<close>

record ('d, 'q, 'e) BatchApiHandler =
  bh_config :: ServerConfig
  bh_dbClient :: "'d db_client"
  bh_queueClient :: "'q queue_client"
  bh_eventClient :: "'e event_client"

definition NewBatchApiHandler ::
  "ServerConfig \<Rightarrow> 'd db_client \<Rightarrow> 'q queue_client \<Rightarrow> 'e event_client \<Rightarrow> ('d, 'q, 'e) BatchApiHandler" where
  "NewBatchApiHandler config dbClient queueClient eventClient =
     \<lparr>bh_config = config, bh_dbClient = dbClient, bh_queueClient = queueClient,
      bh_eventClient = eventClient\<rparr>"

text \<open>The job objects, and the state behind each client.\<close>

record ('d, 'q, 'e) world =
  w_store :: "heap \<times> 'd"
  w_queue :: 'q
  w_events :: 'e

text \<open>The routes: method, pattern and handler.\<close>

datatype handler_name = CreateBatch_h | ListBatches_h | RetrieveBatch_h | CancelBatch_h

definition GetRoutes :: "(string \<times> string \<times> handler_name) list" where
  "GetRoutes =
     [(''POST'', ''/v1/batches'', CreateBatch_h),
      (''GET'', ''/v1/batches'', ListBatches_h),
      (''GET'', ''/v1/batches/{batch_id}'', RetrieveBatch_h),
      (''POST'', ''/v1/batches/{batch_id}/cancel'', CancelBatch_h)]"

section \<open>Jobs and batches\<close>

text \<open>\<open>json.Unmarshal\<close> into a struct; the error it wraps goes to the log only.\<close>

definition Unmarshal :: "'s field_table \<Rightarrow> bytes \<Rightarrow> 's \<Rightarrow> 's option" where
  "Unmarshal tbl data s =
     (case json_parse data of None \<Rightarrow> None | Some j \<Rightarrow> dec_struct tbl j s)"

definition jobToBatch :: "BatchJob \<Rightarrow> error + Batch" where
  "jobToBatch job =
     (case Unmarshal BatchSpec_fields (job_Spec job) zero_BatchSpec of
        None \<Rightarrow> Inl ''failed to unmarshal batch spec''
      | Some spec \<Rightarrow>
          (case Unmarshal BatchStatusInfo_fields (job_Status job) zero_BatchStatusInfo of
             None \<Rightarrow> Inl ''failed to unmarshal batch status''
           | Some status \<Rightarrow> Inr \<lparr>b_ID = job_ID job, b_Spec = spec, b_Status = status\<rparr>))"

text \<open>\<open>Unix\<close>: whole seconds since 1970, from nanoseconds since year 1.\<close>

definition Unix :: "gotime \<Rightarrow> int" where
  "Unix t = t div 1000000000 - 62135596800"

definition bad_request :: "string \<Rightarrow> response_writer \<Rightarrow> response_writer" where
  "bad_request msg w = WriteAPIError (NewAPIError 400 [] msg None) w"

section \<open>Create\<close>

definition batch_id :: "string \<Rightarrow> string" where
  "batch_id uuid = ''batch_'' @ uuid"

definition create_spec :: "CreateBatchRequest \<Rightarrow> gotime \<Rightarrow> BatchSpec" where
  "create_spec r now =
     \<lparr>spec_Object = ''batch'', spec_Endpoint = cr_Endpoint r, spec_InputFileID = cr_InputFileID r,
      spec_CompletionWindow = cr_CompletionWindow r, spec_Metadata = cr_Metadata r,
      spec_CreatedAt = Unix now\<rparr>"

definition create_status :: BatchStatusInfo where
  "create_status = zero_BatchStatusInfo\<lparr>st_Status := BatchStatusValidating\<rparr>"

definition create_ttl :: "ServerConfig \<Rightarrow> CreateBatchRequest \<Rightarrow> duration \<Rightarrow> int" where
  "create_ttl config r completionDuration =
     (case cr_OutputExpiresAfter r of
        None \<Rightarrow> sv_BatchTTLSeconds config
      | Some e \<Rightarrow>
          (if oea_Anchor e = [] \<or> oea_Anchor e = ''created_at'' then
             seconds_int completionDuration + oea_Seconds e
           else sv_BatchTTLSeconds config))"

definition CreateBatch ::
  "('d, 'q, 'e) BatchApiHandler \<Rightarrow> string \<Rightarrow> gotime \<Rightarrow> gotime \<Rightarrow> http_request \<Rightarrow> response_writer
    \<Rightarrow> ('d, 'q, 'e) world \<Rightarrow> response_writer go_result \<times> ('d, 'q, 'e) world" where
  "CreateBatch c uuid now1 now2 rq w s =
     (case decode_request (rq_Body rq) of
        None \<Rightarrow> (Returns (bad_request ''invalid request body'' w), s)
      | Some batchReq \<Rightarrow>
     (case CreateBatchRequest_Validate batchReq of
        Panics msg \<Rightarrow> (Panics msg, s)
      | Blocks \<Rightarrow> (Blocks, s)
      | Returns (Some err) \<Rightarrow> (Returns (bad_request err w), s)
      | Returns None \<Rightarrow>
     (let r = the batchReq;
          batchID = batch_id uuid;
          batchSpec = create_spec r now1;
          batchStatus = create_status
      in case Marshal (enc_BatchSpec batchSpec) of
        Inl _ \<Rightarrow> (Returns (WriteInternalServerError w), s)
      | Inr batchSpecData \<Rightarrow>
     (case Marshal (enc_BatchStatusInfo batchStatus) of
        Inl _ \<Rightarrow> (Returns (WriteInternalServerError w), s)
      | Inr batchStatusData \<Rightarrow>
     (case ParseDuration (cr_CompletionWindow r) of
        None \<Rightarrow> (Returns (WriteInternalServerError w), s)
      | Some completionDuration \<Rightarrow>
     (let slo = now2 + completionDuration;
          job = \<lparr>job_ID = batchID, job_SLO = slo, job_TTL = create_ttl (bh_config c) r completionDuration,
                 job_Tags = [], job_Spec = batchSpecData, job_Status = batchStatusData\<rparr>;
          (heap, db) = w_store s;
          ((_, err), store) = db_Store (bh_dbClient c) (length heap) (heap @ [job], db);
          s = s\<lparr>w_store := store\<rparr>
      in if err \<noteq> None then (Returns (WriteInternalServerError w), s)
      else
     (let (err, queue) = pq_Enqueue (bh_queueClient c) \<lparr>jp_ID = batchID, jp_SLO = slo\<rparr> (w_queue s);
          s = s\<lparr>w_queue := queue\<rparr>
      in if err \<noteq> None then
           (let (_, store) = db_Delete (bh_dbClient c) [batchID] (w_store s)
            in (Returns (WriteInternalServerError w), s\<lparr>w_store := store\<rparr>))
         else
           (Returns (WriteJSONResponse 200
              (Marshal (enc_Batch \<lparr>b_ID = batchID, b_Spec = batchSpec, b_Status = batchStatus\<rparr>)) w), s))))))))"

section \<open>List\<close>

definition parse_limit :: "http_request \<Rightarrow> error + int" where
  "parse_limit rq =
     (let limitStr = Query_Get rq ''limit''
      in if limitStr \<noteq> [] then
           (case Sscanf_d limitStr of
              None \<Rightarrow> Inl ''invalid limit parameter: must be an integer''
            | Some parsedLimit \<Rightarrow>
                (if parsedLimit < 1 \<or> parsedLimit > 100 then
                   Inl ''invalid limit parameter: must be between 1 and 100''
                 else Inr parsedLimit))
         else Inr 20)"

definition parse_after :: "http_request \<Rightarrow> error + int" where
  "parse_after rq =
     (let afterStr = Query_Get rq ''after''
      in if afterStr \<noteq> [] then
           (case Sscanf_d afterStr of
              None \<Rightarrow> Inl ''invalid after parameter: must be an integer''
            | Some parsedAfter \<Rightarrow>
                (if parsedAfter < 0 then
                   Inl ''invalid after parameter: must be equal to or greater than 0''
                 else Inr parsedAfter))
         else Inr 0)"

text \<open>The loop over the jobs: one that does not convert is skipped.\<close>

fun jobs_to_batches :: "BatchJob list \<Rightarrow> Batch list" where
  "jobs_to_batches [] = []"
| "jobs_to_batches (job # jobs) =
     (case jobToBatch job of
        Inl _ \<Rightarrow> jobs_to_batches jobs
      | Inr batch \<Rightarrow> batch # jobs_to_batches jobs)"

text \<open>The page of at most \<open>limit\<close> batches, from up to one job more.\<close>

definition list_response :: "int \<Rightarrow> BatchJob list \<Rightarrow> ListBatchResponse" where
  "list_response limit jobs =
     (let hasMore = (int (length jobs) > limit);
          jobs = (if hasMore then take (nat limit) jobs else jobs);
          batches = jobs_to_batches jobs;
          resp = \<lparr>lb_Object = ''list'', lb_Data = batches, lb_FirstID = [], lb_LastID = [],
                  lb_HasMore = hasMore\<rparr>
      in if length batches > 0
         then resp\<lparr>lb_FirstID := b_ID (batches ! 0),
                   lb_LastID := b_ID (batches ! (length batches - 1))\<rparr>
         else resp)"

definition ListBatches ::
  "('d, 'q, 'e) BatchApiHandler \<Rightarrow> http_request \<Rightarrow> response_writer
    \<Rightarrow> ('d, 'q, 'e) world \<Rightarrow> response_writer go_result \<times> ('d, 'q, 'e) world" where
  "ListBatches c rq w s =
     (case parse_limit rq of
        Inl msg \<Rightarrow> (Returns (bad_request msg w), s)
      | Inr limit \<Rightarrow>
     (case parse_after rq of
        Inl msg \<Rightarrow> (Returns (bad_request msg w), s)
      | Inr after \<Rightarrow>
     (let ((jobs, _, err), store) =
            db_Get (bh_dbClient c) [] [] TagsLogicalCondNa True after (limit + 1) (w_store s);
          s = s\<lparr>w_store := store\<rparr>
      in if err \<noteq> None then (Returns (WriteInternalServerError w), s)
      else
       (Returns (WriteJSONResponse 200
          (Marshal (enc_ListBatchResponse (list_response limit (map (\<lambda>p. fst store ! p) jobs)))) w), s))))"

section \<open>Retrieve\<close>

definition not_found :: "string \<Rightarrow> response_writer \<Rightarrow> response_writer" where
  "not_found batchID w =
     WriteAPIError (NewAPIError 404 [] (''Batch with ID '' @ batchID @ '' not found'') None) w"

definition RetrieveBatch ::
  "('d, 'q, 'e) BatchApiHandler \<Rightarrow> http_request \<Rightarrow> response_writer
    \<Rightarrow> ('d, 'q, 'e) world \<Rightarrow> response_writer go_result \<times> ('d, 'q, 'e) world" where
  "RetrieveBatch c rq w s =
     (let batchID = PathValue rq ''batch_id''
      in if batchID = [] then (Returns (bad_request ''batch_id is required'' w), s)
      else
     (let ((jobs, _, err), store) =
            db_Get (bh_dbClient c) [batchID] [] TagsLogicalCondNa True 0 1 (w_store s);
          s = s\<lparr>w_store := store\<rparr>
      in if err \<noteq> None then (Returns (WriteInternalServerError w), s)
         else if length jobs = 0 then (Returns (not_found batchID w), s)
         else (case jobToBatch (fst store ! (jobs ! 0)) of
             Inl _ \<Rightarrow> (Returns (WriteInternalServerError w), s)
           | Inr batch \<Rightarrow> (Returns (WriteJSONResponse 200 (Marshal (enc_Batch batch)) w), s))))"

section \<open>Cancel\<close>

text \<open>
  The last part of \<open>CancelBatch\<close>: the new status is marshalled, written to the job object and
  given to \<open>Update\<close>.
\<close>

definition update_status ::
  "('d, 'q, 'e) BatchApiHandler \<Rightarrow> ptr \<Rightarrow> Batch \<Rightarrow> response_writer
    \<Rightarrow> ('d, 'q, 'e) world \<Rightarrow> response_writer go_result \<times> ('d, 'q, 'e) world" where
  "update_status c p batch w s =
     (case Marshal (enc_BatchStatusInfo (b_Status batch)) of
        Inl _ \<Rightarrow> (Returns (WriteInternalServerError w), s)
      | Inr updatedStatusData \<Rightarrow>
     (let (heap, db) = w_store s;
          heap = heap[p := (heap ! p)\<lparr>job_Status := updatedStatusData\<rparr>];
          (err, store) = db_Update (bh_dbClient c) p (heap, db);
          s = s\<lparr>w_store := store\<rparr>
      in if err \<noteq> None then (Returns (WriteInternalServerError w), s)
         else (Returns (WriteJSONResponse 200 (Marshal (enc_Batch batch)) w), s)))"

definition mark_cancelled :: "gotime \<Rightarrow> Batch \<Rightarrow> Batch" where
  "mark_cancelled now b =
     b\<lparr>b_Status := (b_Status b)\<lparr>st_Status := BatchStatusCancelled, st_CancelledAt := Some (Unix now)\<rparr>\<rparr>"

definition mark_cancelling :: "gotime \<Rightarrow> Batch \<Rightarrow> Batch" where
  "mark_cancelling now b =
     b\<lparr>b_Status := (b_Status b)\<lparr>st_Status := BatchStatusCancelling, st_CancellingAt := Some (Unix now)\<rparr>\<rparr>"

definition CancelBatch ::
  "('d, 'q, 'e) BatchApiHandler \<Rightarrow> gotime \<Rightarrow> http_request \<Rightarrow> response_writer
    \<Rightarrow> ('d, 'q, 'e) world \<Rightarrow> response_writer go_result \<times> ('d, 'q, 'e) world" where
  "CancelBatch c now rq w s =
     (let batchID = PathValue rq ''batch_id''
      in if batchID = [] then (Returns (bad_request ''batch_id is required'' w), s)
      else
     (let ((jobs, _, err), store) =
            db_Get (bh_dbClient c) [batchID] [] TagsLogicalCondNa True 0 1 (w_store s);
          s = s\<lparr>w_store := store\<rparr>
      in if err \<noteq> None then (Returns (WriteInternalServerError w), s)
         else if length jobs = 0 then (Returns (not_found batchID w), s)
         else (case jobToBatch (fst store ! (jobs ! 0)) of
             Inl _ \<Rightarrow> (Returns (WriteInternalServerError w), s)
           | Inr batch \<Rightarrow>
     (if IsFinal (st_Status (b_Status batch)) then
        (Returns (bad_request (''Batch with status '' @ st_Status (b_Status batch) @ '' cannot be cancelled'') w), s)
      else
     (let ((removed, err), queue) =
            pq_Remove (bh_queueClient c) \<lparr>jp_ID = batchID, jp_SLO = 0\<rparr> (w_queue s);
          s = s\<lparr>w_queue := queue\<rparr>
      in if err \<noteq> None then (Returns (WriteInternalServerError w), s)
         else if removed > 0 then update_status c (jobs ! 0) (mark_cancelled now batch) w s
         else
     (case ec_ProducerSendEvents (bh_eventClient c)
             [\<lparr>ev_ID = batchID, ev_Type = BatchEventCancel, ev_TTL = sv_BatchTTLSeconds (bh_config c)\<rparr>]
             (w_events s) of
        Panics msg \<Rightarrow> (Panics msg, s)
      | Blocks \<Rightarrow> (Blocks, s)
      | Returns ((_, err), events) \<Rightarrow>
          (let s = s\<lparr>w_events := events\<rparr>
           in if err \<noteq> None then (Returns (WriteInternalServerError w), s)
              else update_status c (jobs ! 0) (mark_cancelling now batch) w s)))))))"

end
