(* ===== verification/MockDB.thy ===== *)
theory MockDB
  imports StoreApi "HOL-Library.AList"
begin

text \<open>
  The in-memory \<open>BatchDBClient\<close> (\<open>internal/database/mock/mock_db_client.go\<close>). Its \<open>sync.Map\<close>
  from identifiers to job pointers is an association list with distinct keys. \<open>Range\<close> visits the
  entries in an order Go leaves open: the order is a parameter.
  \<open>mdb\<close> interprets the contract \<open>job_store\<close> on this client.
\<close>

section \<open>State and operations\<close>

record MockBatchDBClient =
  mdb_jobs :: "(string \<times> ptr) list"

type_synonym range_order = "(string \<times> ptr) list \<Rightarrow> (string \<times> ptr) list"

definition NewMockBatchDBClient :: MockBatchDBClient where
  "NewMockBatchDBClient = \<lparr>mdb_jobs = []\<rparr>"

definition mdb_Store ::
  "ptr \<Rightarrow> heap \<times> MockBatchDBClient \<Rightarrow> (string \<times> error option) \<times> heap \<times> MockBatchDBClient" where
  "mdb_Store p s =
     (let (h, m) = s; ID = job_ID (h ! p)
      in ((ID, None), h, m\<lparr>mdb_jobs := AList.update ID p (mdb_jobs m)\<rparr>))"

text \<open>The loop over the given identifiers, and the callback of \<open>Range\<close>.\<close>

fun load_ids :: "(string \<times> ptr) list \<Rightarrow> string list \<Rightarrow> ptr list" where
  "load_ids m [] = []"
| "load_ids m (k # ks) =
     (case map_of m k of Some p \<Rightarrow> p # load_ids m ks | None \<Rightarrow> load_ids m ks)"

fun range_collect :: "int \<Rightarrow> ptr list \<Rightarrow> (string \<times> ptr) list \<Rightarrow> ptr list" where
  "range_collect limit results [] = results"
| "range_collect limit results ((k, p) # entries) =
     (let results = results @ [p]
      in if int (length results) \<ge> limit \<and> limit > 0 then results
         else range_collect limit results entries)"

text \<open>Every entry is visited once: an order that is not a permutation of the entries is not used.\<close>

definition range_visit :: "range_order \<Rightarrow> (string \<times> ptr) list \<Rightarrow> (string \<times> ptr) list" where
  "range_visit ord m = (if mset (ord m) = mset m then ord m else m)"

definition mdb_Get ::
  "range_order \<Rightarrow> string list \<Rightarrow> string list \<Rightarrow> TagsLogicalCond \<Rightarrow> bool \<Rightarrow> int \<Rightarrow> int
    \<Rightarrow> heap \<times> MockBatchDBClient \<Rightarrow> (ptr list \<times> int \<times> error option) \<times> heap \<times> MockBatchDBClient" where
  "mdb_Get ord IDs tags tagsLogicalCond includeStatic start limit s =
     (let m = mdb_jobs (snd s);
          results = (if length IDs > 0 then load_ids m IDs else range_collect limit [] (range_visit ord m))
      in ((results, 0, None), s))"

definition mdb_Update ::
  "ptr \<Rightarrow> heap \<times> MockBatchDBClient \<Rightarrow> error option \<times> heap \<times> MockBatchDBClient" where
  "mdb_Update p s =
     (let (h, m) = s; ID = job_ID (h ! p)
      in if map_of (mdb_jobs m) ID = None then
           (Some (''cannot update job with ID '' @ CHR 0x27 # ID @ CHR 0x27 # '': job doesn'' @ CHR 0x27 # ''t exist''), s)
         else (None, h, m\<lparr>mdb_jobs := AList.update ID p (mdb_jobs m)\<rparr>))"

fun delete_ids :: "string list \<Rightarrow> (string \<times> ptr) list \<Rightarrow> string list \<times> (string \<times> ptr) list" where
  "delete_ids [] m = ([], m)"
| "delete_ids (k # ks) m =
     (case map_of m k of
        None \<Rightarrow> delete_ids ks m
      | Some p \<Rightarrow> (let (ds, m') = delete_ids ks (AList.delete k m) in (k # ds, m')))"

definition mdb_Delete ::
  "string list \<Rightarrow> heap \<times> MockBatchDBClient \<Rightarrow> (string list \<times> error option) \<times> heap \<times> MockBatchDBClient" where
  "mdb_Delete IDs s =
     (let (deleted, m') = delete_ids IDs (mdb_jobs (snd s))
      in ((deleted, None), fst s, (snd s)\<lparr>mdb_jobs := m'\<rparr>))"

definition mdb_Close :: "MockBatchDBClient \<Rightarrow> error option \<times> MockBatchDBClient" where
  "mdb_Close m = (None, m\<lparr>mdb_jobs := []\<rparr>)"

definition mock_db :: "range_order \<Rightarrow> MockBatchDBClient db_client" where
  "mock_db ord =
     \<lparr>db_Store = mdb_Store, db_Get = mdb_Get ord, db_Update = mdb_Update, db_Delete = mdb_Delete\<rparr>"

section \<open>Invariant and abstraction\<close>

text \<open>
  Every entry points into the heap, at an object that carries the entry's key. So two
  identifiers never share an object.
\<close>

definition mdb_inv :: "heap \<times> MockBatchDBClient \<Rightarrow> bool" where
  "mdb_inv s \<longleftrightarrow>
     distinct (map fst (mdb_jobs (snd s))) \<and>
     (\<forall>k p. map_of (mdb_jobs (snd s)) k = Some p \<longrightarrow>
        p < length (fst s) \<and> job_ID (fst s ! p) = k)"

definition mdb_look :: "heap \<times> MockBatchDBClient \<Rightarrow> string \<Rightarrow> BatchJob option" where
  "mdb_look s k = map_option (\<lambda>p. fst s ! p) (map_of (mdb_jobs (snd s)) k)"

lemma mdb_inv_new [simp]: "mdb_inv ([], NewMockBatchDBClient)"
  by (simp add: mdb_inv_def NewMockBatchDBClient_def)

lemma mdb_inv_entry:
  "mdb_inv s \<Longrightarrow> map_of (mdb_jobs (snd s)) k = Some p \<Longrightarrow> p < length (fst s) \<and> job_ID (fst s ! p) = k"
  by (simp add: mdb_inv_def)

lemma mdb_put:
  assumes "mdb_inv (h, m)" and "p < length h"
  shows "mdb_inv (h, m\<lparr>mdb_jobs := AList.update (job_ID (h ! p)) p (mdb_jobs m)\<rparr>)"
    and "mdb_look (h, m\<lparr>mdb_jobs := AList.update (job_ID (h ! p)) p (mdb_jobs m)\<rparr>)
           = (mdb_look (h, m))(job_ID (h ! p) \<mapsto> h ! p)"
  using assms by (auto simp: mdb_inv_def mdb_look_def AList.update_conv' distinct_update fun_eq_iff)

lemma mdb_alloc:
  assumes "mdb_inv (h, m)"
  shows "mdb_inv (h @ [j], m)" and "mdb_look (h @ [j], m) = mdb_look (h, m)"
proof -
  show "mdb_inv (h @ [j], m)"
    using assms by (fastforce simp: mdb_inv_def nth_append)
  show "mdb_look (h @ [j], m) = mdb_look (h, m)"
    using assms
    by (auto simp: mdb_inv_def mdb_look_def nth_append fun_eq_iff option.map_comp
        intro!: option.map_cong)
qed

lemma mdb_put_status:
  fixes v :: bytes
  assumes "mdb_inv (h, m)" and "p < length h"
  defines "h' \<equiv> h[p := (h ! p)\<lparr>job_Status := v\<rparr>]"
  shows "mdb_inv (h', m) \<and>
     (mdb_look (h', m) = mdb_look (h, m) \<or>
      (\<exists>j. mdb_look (h, m) (job_ID (h ! p)) = Some j \<and>
         mdb_look (h', m) = (mdb_look (h, m))(job_ID (h ! p) \<mapsto> j\<lparr>job_Status := v\<rparr>)))"
proof
  show "mdb_inv (h', m)"
    using assms by (auto simp: mdb_inv_def nth_list_update)
  show "mdb_look (h', m) = mdb_look (h, m) \<or>
      (\<exists>j. mdb_look (h, m) (job_ID (h ! p)) = Some j \<and>
         mdb_look (h', m) = (mdb_look (h, m))(job_ID (h ! p) \<mapsto> j\<lparr>job_Status := v\<rparr>))"
  proof (cases "map_of (mdb_jobs m) (job_ID (h ! p)) = Some p")
    case True
    have "mdb_look (h', m) k = ((mdb_look (h, m))(job_ID (h ! p) \<mapsto> (h ! p)\<lparr>job_Status := v\<rparr>)) k" for k
    proof (cases "map_of (mdb_jobs m) k")
      case None
      then show ?thesis using True by (auto simp: mdb_look_def)
    next
      case (Some q)
      then have "job_ID (h ! q) = k" using mdb_inv_entry [OF assms(1), of k q] by simp
      then show ?thesis
        using Some True assms(2) by (cases "q = p") (auto simp: mdb_look_def h'_def)
    qed
    then have "mdb_look (h', m) = (mdb_look (h, m))(job_ID (h ! p) \<mapsto> (h ! p)\<lparr>job_Status := v\<rparr>)"
      by (rule ext)
    moreover have "mdb_look (h, m) (job_ID (h ! p)) = Some (h ! p)"
      using True by (simp add: mdb_look_def)
    ultimately show ?thesis by blast
  next
    case False
    have "mdb_look (h', m) k = mdb_look (h, m) k" for k
    proof (cases "map_of (mdb_jobs m) k")
      case (Some q)
      then have "job_ID (h ! q) = k" using mdb_inv_entry [OF assms(1), of k q] by simp
      then have "q \<noteq> p" using Some False by auto
      then show ?thesis using Some by (simp add: mdb_look_def h'_def)
    qed (simp add: mdb_look_def)
    then have "mdb_look (h', m) = mdb_look (h, m)" by (rule ext)
    then show ?thesis ..
  qed
qed

lemma delete_one:
  "delete_ids [k] m = (case map_of m k of None \<Rightarrow> ([], m) | Some p \<Rightarrow> ([k], AList.delete k m))"
  by (simp split: option.splits)

lemma mdb_drop:
  assumes "mdb_inv s"
  shows "mdb_inv (fst s, (snd s)\<lparr>mdb_jobs := AList.delete k (mdb_jobs (snd s))\<rparr>)"
    and "mdb_look (fst s, (snd s)\<lparr>mdb_jobs := AList.delete k (mdb_jobs (snd s))\<rparr>)
           = (mdb_look s)(k := None)"
  using assms
  by (auto simp: mdb_inv_def mdb_look_def AList.delete_conv' fun_eq_iff
      distinct_delete)

lemmas mdb_op_defs [store_simps] =
  mock_db_def mdb_Store_def mdb_Get_def mdb_Update_def mdb_Delete_def

text \<open>Bounds of the listing branch.\<close>

lemma range_collect_take:
  "0 < limit \<Longrightarrow> int (length acc) < limit \<Longrightarrow>
     range_collect limit acc es = acc @ map snd (take (nat limit - length acc) es)"
proof (induction limit acc es rule: range_collect.induct)
  case (2 limit acc k p es)
  show ?case
  proof (cases "limit \<le> int (length acc) + 1")
    case True
    then have "nat limit - length acc = 1" using "2.prems" by linarith
    then show ?thesis using True "2.prems" by (simp add: Let_def)
  next
    case False
    then have "nat limit - length acc = Suc (nat limit - Suc (length acc))" by linarith
    then show ?thesis using False "2.IH" "2.prems" by (simp add: Let_def)
  qed
qed simp

lemma load_ids_set: "p \<in> set (load_ids m ks) \<Longrightarrow> \<exists>k \<in> set ks. map_of m k = Some p"
  by (induction ks) (auto split: option.splits)

lemma mset_range_visit [simp]: "mset (range_visit ord m) = mset m"
  by (simp add: range_visit_def)

lemma set_range_visit [simp]: "set (range_visit ord m) = set m"
  by (metis mset_range_visit set_mset_mset)

lemma length_range_visit [simp]: "length (range_visit ord m) = length m"
  by (metis mset_range_visit size_mset)

text \<open>The pointers of a listing: no job twice, each one stored under its identifier.\<close>

lemma mdb_listed:
  fixes n :: nat and ord :: range_order
  assumes "mdb_inv s"
  defines "ps \<equiv> map snd (take n (range_visit ord (mdb_jobs (snd s))))"
  shows "distinct (map (\<lambda>p. job_ID (fst s ! p)) ps)"
    and "p \<in> set ps \<Longrightarrow> p < length (fst s) \<and> map_of (mdb_jobs (snd s)) (job_ID (fst s ! p)) = Some p"
proof -
  let ?es = "take n (range_visit ord (mdb_jobs (snd s)))"
  have d: "distinct (map fst (mdb_jobs (snd s)))" using assms(1) by (simp add: mdb_inv_def)
  have entry: "snd e < length (fst s) \<and> job_ID (fst s ! snd e) = fst e \<and>
      map_of (mdb_jobs (snd s)) (fst e) = Some (snd e)" if "e \<in> set ?es" for e
  proof -
    have "e \<in> set (mdb_jobs (snd s))" using that in_set_takeD by fastforce
    then have "map_of (mdb_jobs (snd s)) (fst e) = Some (snd e)" using d by simp
    then show ?thesis using mdb_inv_entry [OF assms(1)] by simp
  qed
  show "p \<in> set ps \<Longrightarrow> p < length (fst s) \<and> map_of (mdb_jobs (snd s)) (job_ID (fst s ! p)) = Some p"
    using entry by (auto simp: ps_def)
  have "mset (map fst (range_visit ord (mdb_jobs (snd s)))) = mset (map fst (mdb_jobs (snd s)))"
    by simp
  then have "distinct (map fst ?es)"
    using d mset_eq_imp_distinct_iff distinct_take by (metis take_map)
  moreover have "map (\<lambda>p. job_ID (fst s ! p)) ps = map fst ?es"
    using entry by (simp add: ps_def)
  ultimately show "distinct (map (\<lambda>p. job_ID (fst s ! p)) ps)" by simp
qed

section \<open>The contract\<close>

interpretation mdb: job_store "mock_db ord" mdb_look mdb_inv for ord
proof (unfold_locales, goal_cases)
  case (1 s k j)
  then show ?case by (auto simp: mdb_look_def dest: mdb_inv_entry)
next
  case (2 h d j)
  then show ?case by (simp add: mdb_alloc)
next
  case (3 h d p i e s')
  then show ?case by (auto simp: store_simps mdb_put Let_def)
next
  case (4 s ks tags cond static start limit r s')
  then show ?case by (auto simp: store_simps Let_def)
next
  case (5 s k ps cur s')
  then have s': "s' = s" and ps: "ps = load_ids (mdb_jobs (snd s)) [k]"
    by (auto simp: store_simps Let_def)
  show ?case
  proof (cases "map_of (mdb_jobs (snd s)) k")
    case None
    then show ?thesis using s' ps by (simp add: mdb_look_def)
  next
    case (Some p)
    then show ?thesis
      using s' ps mdb_inv_entry [OF 5(1) Some] by (simp add: mdb_look_def)
  qed
next
  case (6 s limit start ps cur s')
  then have "s' = s" "ps = map snd (take (nat limit) (range_visit ord (mdb_jobs (snd s))))"
    by (auto simp: store_simps Let_def range_collect_take)
  then show ?case
    using 6(2) mdb_listed [OF 6(1), where n = "nat limit" and ord = ord] by (auto simp: mdb_look_def)
next
  case (7 h d p v)
  then show ?case using mdb_put_status [of h d p v] by blast
next
  case (8 h d p j e s')
  then have "map_of (mdb_jobs d) (job_ID (h ! p)) \<noteq> None" by (auto simp: mdb_look_def)
  then show ?case
    using 8 mdb_put [OF 8(1,2)]
    by (auto simp: store_simps Let_def intro!: exI [of _ "h ! p"])
next
  case (9 s k ids e s')
  then show ?case
    using mdb_drop [OF 9(1), of k]
    by (cases s) (auto simp: store_simps Let_def delete_one mdb_look_def AList.delete_conv' split: option.splits)
qed


end
