(* ===== verification/MockQueue.thy ===== *)
theory MockQueue
  imports StoreApi
begin

text \<open>
  The in-memory \<open>BatchPriorityQueueClient\<close> (\<open>internal/database/mock/mock_queue_client.go\<close>): a
  slice kept in the order of the SLO. \<open>Enqueue\<close> finds the insertion index and shifts the tail
  of the slice; \<open>Dequeue\<close> polls until an entry is there, the deadline has passed or the context
  is cancelled. \<open>mpq\<close> interprets the contract \<open>job_queue\<close> on this client.
\<close>

section \<open>State and operations\<close>

record MockBatchPriorityQueueClient =
  mpq_queue :: "BatchJobPriority list"

definition NewMockBatchPriorityQueueClient :: MockBatchPriorityQueueClient where
  "NewMockBatchPriorityQueueClient = \<lparr>mpq_queue = []\<rparr>"

text \<open>The index of the first entry with a later SLO; the length when there is none.\<close>

fun insertIdx :: "gotime \<Rightarrow> BatchJobPriority list \<Rightarrow> nat" where
  "insertIdx slo [] = 0"
| "insertIdx slo (jp # q) = (if slo < jp_SLO jp then 0 else Suc (insertIdx slo q))"

text \<open>
  \<open>append(q, nil)\<close>, then \<open>copy(q[i+1:], q[i:])\<close>, which moves as many elements as the shorter of
  the two slices has, then the assignment. \<open>None\<close> is the nil pointer the append leaves.
\<close>

definition shift_insert :: "nat \<Rightarrow> 'a \<Rightarrow> 'a list \<Rightarrow> 'a list" where
  "shift_insert i x q =
     (let q1 = map Some q @ [None];
          q2 = take (i + 1) q1 @ take (length q1 - (i + 1)) (drop i q1);
          q3 = q2[i := Some x]
      in map the q3)"

definition mpq_Enqueue ::
  "BatchJobPriority \<Rightarrow> MockBatchPriorityQueueClient \<Rightarrow> error option \<times> MockBatchPriorityQueueClient" where
  "mpq_Enqueue jp m =
     (None, m\<lparr>mpq_queue := shift_insert (insertIdx (jp_SLO jp) (mpq_queue m)) jp (mpq_queue m)\<rparr>)"

text \<open>
  What one round of the \<open>Dequeue\<close> loop observes when the queue is empty: whether the deadline
  has passed, whether the context is done, and the entries other goroutines enqueued during
  the sleep. When the observations run out, the call is still waiting.
\<close>

record dequeue_tick =
  dt_expired :: bool
  dt_done :: "error option"
  dt_arrivals :: "BatchJobPriority list"

fun mpq_Dequeue ::
  "dequeue_tick list \<Rightarrow> duration \<Rightarrow> int \<Rightarrow> MockBatchPriorityQueueClient
    \<Rightarrow> ((BatchJobPriority list \<times> error option) \<times> MockBatchPriorityQueueClient) go_result" where
  "mpq_Dequeue ticks timeout maxObjs m =
     (let q = mpq_queue m
      in if length q > 0 then
           (let count = min maxObjs (int (length q))
            in if count < 0 then Panics ''runtime error: makeslice: len out of range''
               else Returns ((take (nat count) q, None), m\<lparr>mpq_queue := drop (nat count) q\<rparr>))
         else if timeout = 0 then Returns (([], None), m)
         else (case ticks of
             [] \<Rightarrow> Blocks
           | tick # ticks' \<Rightarrow>
               if dt_expired tick then Returns (([], None), m)
               else (case dt_done tick of
                   Some err \<Rightarrow> Returns (([], Some err), m)
                 | None \<Rightarrow> mpq_Dequeue ticks' timeout maxObjs
                             (fold (\<lambda>jp m. snd (mpq_Enqueue jp m)) (dt_arrivals tick) m))))"

declare mpq_Dequeue.simps [simp del]

fun remove_first :: "string \<Rightarrow> BatchJobPriority list \<Rightarrow> int \<times> BatchJobPriority list" where
  "remove_first ID [] = (0, [])"
| "remove_first ID (jp # q) =
     (if jp_ID jp = ID then (1, q) else (let (n, q') = remove_first ID q in (n, jp # q')))"

definition mpq_Remove ::
  "BatchJobPriority \<Rightarrow> MockBatchPriorityQueueClient \<Rightarrow> (int \<times> error option) \<times> MockBatchPriorityQueueClient" where
  "mpq_Remove jp m =
     (let (n, q') = remove_first (jp_ID jp) (mpq_queue m) in ((n, None), m\<lparr>mpq_queue := q'\<rparr>))"

definition mpq_Close :: "MockBatchPriorityQueueClient \<Rightarrow> error option \<times> MockBatchPriorityQueueClient" where
  "mpq_Close m = (None, m\<lparr>mpq_queue := []\<rparr>)"

text \<open>The table of operations, for a caller that is alone: nothing arrives while it sleeps.\<close>

definition mock_queue ::
  "(duration \<Rightarrow> (bool \<times> error option) list) \<Rightarrow> MockBatchPriorityQueueClient queue_client" where
  "mock_queue clock =
     \<lparr>pq_Enqueue = mpq_Enqueue,
      pq_Dequeue = (\<lambda>timeout.
        mpq_Dequeue (map (\<lambda>(ex, dn). \<lparr>dt_expired = ex, dt_done = dn, dt_arrivals = []\<rparr>) (clock timeout))
          timeout),
      pq_Remove = mpq_Remove\<rparr>"

section \<open>Insertion\<close>

lemma insertIdx_le: "insertIdx slo q \<le> length q"
  by (induction q) auto

lemma shift_insert_at: "shift_insert (length a) x (a @ b) = a @ x # b"
  by (cases b) (simp_all add: shift_insert_def Let_def list_update_append)

lemma shift_insert_eq: "i \<le> length q \<Longrightarrow> shift_insert i x q = take i q @ x # drop i q"
  using shift_insert_at [of "take i q" x "drop i q"] by (simp add: min_absorb2)

lemma insertIdx_takeWhile:
  "insertIdx slo q = length (takeWhile (\<lambda>x. jp_SLO x \<le> slo) q)"
  by (induction q) auto

text \<open>The queue after an insertion: behind every entry whose SLO is not later.\<close>

lemma Enqueue_split:
  "mpq_queue (snd (mpq_Enqueue jp m)) =
     takeWhile (\<lambda>x. jp_SLO x \<le> jp_SLO jp) (mpq_queue m) @ jp #
     dropWhile (\<lambda>x. jp_SLO x \<le> jp_SLO jp) (mpq_queue m)"
  by (simp add: mpq_Enqueue_def shift_insert_eq [OF insertIdx_le])
    (simp add: insertIdx_takeWhile takeWhile_eq_take [symmetric] dropWhile_eq_drop [symmetric])

lemma sorted_insert_split:
  fixes f :: "'a \<Rightarrow> 'b::linorder"
  assumes "sorted (map f q)"
  shows "sorted (map f (takeWhile (\<lambda>x. f x \<le> f y) q @ y # dropWhile (\<lambda>x. f x \<le> f y) q))"
  using assms by (induction q) (auto dest: set_takeWhileD set_dropWhileD)

definition mpq_inv :: "MockBatchPriorityQueueClient \<Rightarrow> bool" where
  "mpq_inv m \<longleftrightarrow> sorted (map jp_SLO (mpq_queue m))"

lemma Enqueue_inv: "mpq_inv m \<Longrightarrow> mpq_inv (snd (mpq_Enqueue jp m))"
  using sorted_insert_split [of jp_SLO "mpq_queue m" jp]
  by (simp add: mpq_inv_def Enqueue_split)

lemma Enqueue_mset:
  "mset (mpq_queue (snd (mpq_Enqueue jp m))) = add_mset jp (mset (mpq_queue m))"
proof -
  have "mset (mpq_queue m) = mset (takeWhile (\<lambda>x. jp_SLO x \<le> jp_SLO jp) (mpq_queue m)
      @ dropWhile (\<lambda>x. jp_SLO x \<le> jp_SLO jp) (mpq_queue m))" by simp
  also have "\<dots> = mset (takeWhile (\<lambda>x. jp_SLO x \<le> jp_SLO jp) (mpq_queue m))
      + mset (dropWhile (\<lambda>x. jp_SLO x \<le> jp_SLO jp) (mpq_queue m))" by (simp only: mset_append)
  finally show ?thesis by (simp add: Enqueue_split)
qed

text \<open>Entries with the same SLO stay in the order of their arrival.\<close>

lemma filter_takeWhile_dropWhile:
  "filter P (takeWhile Q xs) @ filter P (dropWhile Q xs) = filter P xs"
  by (metis filter_append takeWhile_dropWhile_id)

lemma filter_dropWhile_sorted:
  "sorted (map f q) \<Longrightarrow> filter (\<lambda>x. f x = v) (dropWhile (\<lambda>x. f x \<le> v) q) = []"
  for f :: "'a \<Rightarrow> 'b::linorder"
  by (induction q) (auto simp: filter_empty_conv)

lemma Enqueue_class:
  assumes "mpq_inv m"
  shows "filter (\<lambda>x. jp_SLO x = s) (mpq_queue (snd (mpq_Enqueue jp m)))
       = filter (\<lambda>x. jp_SLO x = s) (mpq_queue m) @ (if jp_SLO jp = s then [jp] else [])"
proof (cases "jp_SLO jp = s")
  case False
  then show ?thesis by (simp add: Enqueue_split filter_takeWhile_dropWhile)
next
  case True
  have "filter (\<lambda>x. jp_SLO x = s) (dropWhile (\<lambda>x. jp_SLO x \<le> s) (mpq_queue m)) = []"
    using assms filter_dropWhile_sorted unfolding mpq_inv_def by blast
  then show ?thesis
    using True filter_takeWhile_dropWhile [of "\<lambda>x. jp_SLO x = s" "\<lambda>x. jp_SLO x \<le> s" "mpq_queue m"]
    by (simp add: Enqueue_split)
qed

section \<open>Dequeue and Remove\<close>

lemma Dequeue_nonempty:
  "mpq_queue m \<noteq> [] \<Longrightarrow> 0 \<le> n \<Longrightarrow>
     mpq_Dequeue ticks timeout n m =
       Returns ((take (nat n) (mpq_queue m), None), m\<lparr>mpq_queue := drop (nat n) (mpq_queue m)\<rparr>)"
  by (subst mpq_Dequeue.simps) (auto simp: Let_def min_def)

text \<open>Alone, the call either takes the head of the queue or leaves the queue empty.\<close>

definition quiet :: "dequeue_tick list \<Rightarrow> bool" where
  "quiet ticks \<longleftrightarrow> (\<forall>t \<in> set ticks. dt_arrivals t = [])"

lemma Dequeue_empty_step:
  "mpq_queue m = [] \<Longrightarrow>
     mpq_Dequeue ticks timeout n m =
       (if timeout = 0 then Returns (([], None), m)
        else (case ticks of
             [] \<Rightarrow> Blocks
           | tick # ticks' \<Rightarrow>
               if dt_expired tick then Returns (([], None), m)
               else (case dt_done tick of
                   Some err \<Rightarrow> Returns (([], Some err), m)
                 | None \<Rightarrow> mpq_Dequeue ticks' timeout n
                             (fold (\<lambda>jp m. snd (mpq_Enqueue jp m)) (dt_arrivals tick) m))))"
  by (subst mpq_Dequeue.simps) simp

lemma Dequeue_empty:
  "mpq_queue m = [] \<Longrightarrow> quiet ticks \<Longrightarrow>
     mpq_Dequeue ticks timeout n m = Returns ((js, e), m') \<Longrightarrow> js = [] \<and> m' = m"
proof (induction ticks)
  case Nil
  then show ?case by (auto simp: Dequeue_empty_step split: if_splits)
next
  case (Cons t ts)
  then show ?case
    by (auto simp: Dequeue_empty_step quiet_def split: if_splits option.splits)
qed

lemma remove_first_spec:
  "remove_first ID q = (n, q') \<Longrightarrow>
     (0 < n \<longleftrightarrow> (\<exists>x \<in> set q. jp_ID x = ID)) \<and> (n = 0 \<or> n = 1) \<and>
     filter (\<lambda>x. jp_ID x \<noteq> ID) q' = filter (\<lambda>x. jp_ID x \<noteq> ID) q \<and>
     (\<not> 0 < n \<longrightarrow> q' = q) \<and>
     (distinct (map jp_ID q) \<longrightarrow> (\<forall>x \<in> set q'. jp_ID x \<noteq> ID)) \<and>
     set q' \<subseteq> set q \<and> (sorted (map jp_SLO q) \<longrightarrow> sorted (map jp_SLO q'))"
proof (induction ID q arbitrary: n q' rule: remove_first.induct)
  case (2 ID jp q)
  show ?case
  proof (cases "jp_ID jp = ID")
    case True
    then show ?thesis using "2.prems" by (auto simp: image_iff)
  next
    case False
    obtain n1 q1 where r: "remove_first ID q = (n1, q1)" by fastforce
    with False "2.prems" have "n = n1" "q' = jp # q1" by auto
    then show ?thesis using "2.IH" [OF False r] False by auto
  qed
qed simp

section \<open>The contract\<close>

lemmas mpq_op_defs [store_simps] = mock_queue_def mpq_Remove_def

interpretation mpq: job_queue "mock_queue clock" mpq_queue mpq_inv for clock
proof (unfold_locales, goal_cases)
  case (1 q)
  then show ?case by (simp add: mpq_inv_def)
next
  case (2 q jp e q')
  then have "q' = snd (mpq_Enqueue jp q)" "e = None"
    by (auto simp: store_simps mpq_Enqueue_def)
  then show ?case using 2(1) by (simp add: Enqueue_inv Enqueue_mset)
next
  case (3 q timeout js e q')
  show ?case
  proof (cases "mpq_queue q = []")
    case True
    have "quiet (map (\<lambda>(ex, dn). \<lparr>dt_expired = ex, dt_done = dn, dt_arrivals = []\<rparr>) (clock timeout))"
      by (auto simp: quiet_def)
    from Dequeue_empty [OF True this] have "js = [] \<and> q' = q"
      using 3(2) unfolding mock_queue_def by simp
    then show ?thesis using 3 True by simp
  next
    case False
    then show ?thesis
      using 3 by (cases "mpq_queue q") (auto simp: store_simps Dequeue_nonempty mpq_inv_def drop_Suc)
  qed
next
  case (4 q jp n e q')
  obtain n1 q1 where r: "remove_first (jp_ID jp) (mpq_queue q) = (n1, q1)" by fastforce
  with 4 have "n = n1" "mpq_queue q' = q1" "e = None" by (auto simp: store_simps)
  then show ?case
    using remove_first_spec [OF r] 4(1) unfolding mpq_inv_def by simp
qed

section \<open>Properties\<close>

definition enqueue_all ::
  "BatchJobPriority list \<Rightarrow> MockBatchPriorityQueueClient \<Rightarrow> MockBatchPriorityQueueClient" where
  "enqueue_all js m = fold (\<lambda>jp m. snd (mpq_Enqueue jp m)) js m"

lemma enqueue_all_inv: "mpq_inv m \<Longrightarrow> mpq_inv (enqueue_all js m)"
  by (induction js arbitrary: m) (simp_all add: enqueue_all_def Enqueue_inv)

lemma enqueue_all_mset:
  "mset (mpq_queue (enqueue_all js m)) = mset (mpq_queue m) + mset js"
  by (induction js arbitrary: m) (simp_all add: enqueue_all_def Enqueue_mset)

lemma enqueue_all_class:
  "mpq_inv m \<Longrightarrow> filter (\<lambda>x. jp_SLO x = s) (mpq_queue (enqueue_all js m))
     = filter (\<lambda>x. jp_SLO x = s) (mpq_queue m) @ filter (\<lambda>x. jp_SLO x = s) js"
  by (induction js arbitrary: m) (simp_all add: enqueue_all_def Enqueue_inv Enqueue_class)

lemma enqueue_all_sorts: "mpq_queue (enqueue_all js NewMockBatchPriorityQueueClient) = sort_key jp_SLO js"
proof -
  have new: "mpq_inv NewMockBatchPriorityQueueClient" "mpq_queue NewMockBatchPriorityQueueClient = []"
    by (simp_all add: mpq_inv_def NewMockBatchPriorityQueueClient_def)
  have "sort_key jp_SLO js = mpq_queue (enqueue_all js NewMockBatchPriorityQueueClient)"
  proof (rule properties_for_sort_key)
    show "mset (mpq_queue (enqueue_all js NewMockBatchPriorityQueueClient)) = mset js"
      by (simp add: enqueue_all_mset new)
    show "sorted (map jp_SLO (mpq_queue (enqueue_all js NewMockBatchPriorityQueueClient)))"
      using enqueue_all_inv [OF new(1)] by (simp add: mpq_inv_def)
    fix x
    show "filter (\<lambda>y. jp_SLO x = jp_SLO y) (mpq_queue (enqueue_all js NewMockBatchPriorityQueueClient))
        = filter (\<lambda>y. jp_SLO x = jp_SLO y) js"
      using enqueue_all_class [OF new(1), of "jp_SLO x" js] new(2) by (simp add: eq_commute)
  qed
  then show ?thesis by simp
qed

text \<open>C14: enqueueing any entries, one after the other, leaves the queue equal to the stable sort of
  the entries by deadline: earlier deadlines first, equal deadlines in the order of arrival.\<close>

theorem enqueue_is_stable_sort:
  "mpq_queue (fold (\<lambda>jp m. snd (mpq_Enqueue jp m)) js NewMockBatchPriorityQueueClient) = sort_key jp_SLO js"
  using enqueue_all_sorts by (simp add: enqueue_all_def)

text \<open>C26: a caller that waits on an empty queue, with a live context and time left, gets what arrives
  during the first sleep, in the order of the deadlines and at most as many entries as it asked for;
  the rest stays in the queue.\<close>

theorem dequeue_wakes_up:
  assumes "mpq_queue m = []" and "timeout \<noteq> 0" and "0 < n" and "arrivals \<noteq> []"
  shows "mpq_Dequeue (\<lparr>dt_expired = False, dt_done = None, dt_arrivals = arrivals\<rparr> # ticks) timeout n m
     = Returns ((take (nat n) (sort_key jp_SLO arrivals), None),
                m\<lparr>mpq_queue := drop (nat n) (sort_key jp_SLO arrivals)\<rparr>)"
proof -
  have m: "m = NewMockBatchPriorityQueueClient"
    using assms(1) by (cases m) (simp add: NewMockBatchPriorityQueueClient_def)
  let ?m = "enqueue_all arrivals m"
  have q: "mpq_queue ?m = sort_key jp_SLO arrivals" unfolding m by (rule enqueue_all_sorts)
  have "sort_key jp_SLO arrivals \<noteq> []" using assms(4) by (metis length_0_conv length_sort)
  then have "mpq_Dequeue ticks timeout n ?m
      = Returns ((take (nat n) (sort_key jp_SLO arrivals), None), ?m\<lparr>mpq_queue := drop (nat n) (sort_key jp_SLO arrivals)\<rparr>)"
    using Dequeue_nonempty [of ?m n ticks timeout] q assms(3) by simp
  moreover have "mpq_Dequeue (\<lparr>dt_expired = False, dt_done = None, dt_arrivals = arrivals\<rparr> # ticks) timeout n m
      = mpq_Dequeue ticks timeout n ?m"
    using assms(2) by (simp add: Dequeue_empty_step [OF assms(1)] enqueue_all_def)
  ultimately show ?thesis by (cases ?m; cases m) simp
qed

theorem dequeue_wakes_up_witness:
  "mpq_Dequeue [\<lparr>dt_expired = False, dt_done = None,
       dt_arrivals = [\<lparr>jp_ID = ''late'', jp_SLO = 9\<rparr>, \<lparr>jp_ID = ''early'', jp_SLO = 2\<rparr>]\<rparr>] 5 1 \<lparr>mpq_queue = []\<rparr>
     = Returns (([\<lparr>jp_ID = ''early'', jp_SLO = 2\<rparr>], None), \<lparr>mpq_queue = [\<lparr>jp_ID = ''late'', jp_SLO = 9\<rparr>]\<rparr>)"
  using dequeue_wakes_up [of "\<lparr>mpq_queue = []\<rparr>" 5 1
      "[\<lparr>jp_ID = ''late'', jp_SLO = 9\<rparr>, \<lparr>jp_ID = ''early'', jp_SLO = 2\<rparr>]" "[]"]
  by simp

text \<open>\<open>Remove\<close> takes out one entry of the identifier if there is one and says so, leaves every other
  entry where it is, and keeps the order of the deadlines.\<close>

theorem remove_one:
  assumes "mpq_inv m" and "mpq_Remove jp m = ((n, e), m')"
  shows "e = None \<and> n = (if jp_ID jp \<in> jp_ID ` set (mpq_queue m) then 1 else 0) \<and> mpq_inv m' \<and>
     int (length (mpq_queue m')) = int (length (mpq_queue m)) - n \<and>
     filter (\<lambda>x. jp_ID x \<noteq> jp_ID jp) (mpq_queue m') = filter (\<lambda>x. jp_ID x \<noteq> jp_ID jp) (mpq_queue m)"
proof -
  obtain n1 q1 where r: "remove_first (jp_ID jp) (mpq_queue m) = (n1, q1)" by fastforce
  with assms have eq: "n = n1" "mpq_queue m' = q1" "e = None" by (auto simp: mpq_Remove_def)
  have "remove_first ID q = (n, q') \<Longrightarrow> int (length q') = int (length q) - n" for ID q n q'
    by (induction ID q arbitrary: n q' rule: remove_first.induct) (auto split: if_splits prod.splits)
  from this [OF r] have len: "int (length q1) = int (length (mpq_queue m)) - n1" .
  note spec = remove_first_spec [OF r]
  have "n1 = (if jp_ID jp \<in> jp_ID ` set (mpq_queue m) then 1 else 0)"
  proof (cases "jp_ID jp \<in> jp_ID ` set (mpq_queue m)")
    case True
    then have "\<exists>x \<in> set (mpq_queue m). jp_ID x = jp_ID jp" by fastforce
    then have "0 < n1" "n1 = 0 \<or> n1 = 1" using spec by blast+
    then show ?thesis using True by auto
  next
    case False
    then have "\<not> (\<exists>x \<in> set (mpq_queue m). jp_ID x = jp_ID jp)" by (metis image_eqI)
    then have "\<not> 0 < n1" "n1 = 0 \<or> n1 = 1" using spec by blast+
    then show ?thesis using False by auto
  qed
  then show ?thesis using spec assms(1) len eq by (simp add: mpq_inv_def)
qed

theorem remove_one_witness:
  "\<exists>m'. mpq_Remove \<lparr>jp_ID = ''b'', jp_SLO = 0\<rparr>
      \<lparr>mpq_queue = [\<lparr>jp_ID = ''a'', jp_SLO = 1\<rparr>, \<lparr>jp_ID = ''b'', jp_SLO = 2\<rparr>]\<rparr> = ((1, None), m') \<and>
    length (mpq_queue m') = 1"
proof -
  let ?m = "\<lparr>mpq_queue = [\<lparr>jp_ID = ''a'', jp_SLO = 1\<rparr>, \<lparr>jp_ID = ''b'', jp_SLO = 2\<rparr>]\<rparr>"
  obtain n e m' where r: "mpq_Remove \<lparr>jp_ID = ''b'', jp_SLO = 0\<rparr> ?m = ((n, e), m')" by (metis prod.exhaust)
  have "mpq_inv ?m" by code_simp
  from remove_one [OF this r] show ?thesis using r by simp
qed

end
