(* ===== verification/MockEvent.thy ===== *)
theory MockEvent
  imports StoreApi "HOL-Library.AList"
begin

text \<open>
  The in-memory \<open>BatchEventChannelClient\<close> (\<open>internal/database/mock/mock_event_client.go\<close>). Go's
  channels live in a heap; a consumer holds the index of its channel and a close function, the
  client a map from job identifiers to the channels of the job's consumers. \<open>mev\<close> interprets
  the contract \<open>event_channels\<close> on this client.
\<close>

section \<open>State and operations\<close>

text \<open>A channel with a buffer of 100 events.\<close>

record chan =
  chan_buf :: "BatchEvent list"
  chan_closed :: bool

record MockBatchEventChannelClient =
  mev_channels :: "(string \<times> nat list) list"
  mev_chans :: "chan list"

definition NewMockBatchEventChannelClient :: MockBatchEventChannelClient where
  "NewMockBatchEventChannelClient = \<lparr>mev_channels = [], mev_chans = []\<rparr>"

definition channels_of :: "MockBatchEventChannelClient \<Rightarrow> string \<Rightarrow> nat list" where
  "channels_of m ID = (case map_of (mev_channels m) ID of None \<Rightarrow> [] | Some cs \<Rightarrow> cs)"

text \<open>The index of the new channel stands for the returned \<open>BatchEventsChan\<close>.\<close>

definition ConsumerGetChannel ::
  "string \<Rightarrow> MockBatchEventChannelClient \<Rightarrow> (nat \<times> error option) \<times> MockBatchEventChannelClient" where
  "ConsumerGetChannel ID m =
     (let c = length (mev_chans m)
      in ((c, None),
          m\<lparr>mev_chans := mev_chans m @ [\<lparr>chan_buf = [], chan_closed = False\<rparr>],
            mev_channels := AList.update ID (channels_of m ID @ [c]) (mev_channels m)\<rparr>))"

text \<open>Go's \<open>close\<close>.\<close>

definition close_chan :: "nat \<Rightarrow> chan list \<Rightarrow> (chan list) go_result" where
  "close_chan c h =
     (if chan_closed (h ! c) then Panics ''close of closed channel''
      else Returns (h[c := (h ! c)\<lparr>chan_closed := True\<rparr>]))"

text \<open>The \<open>CloseFn\<close> of the channel \<open>c\<close> of the job \<open>ID\<close>.\<close>

definition closeFn ::
  "string \<Rightarrow> nat \<Rightarrow> MockBatchEventChannelClient \<Rightarrow> MockBatchEventChannelClient go_result" where
  "closeFn ID c m =
     (let chans =
            (case map_of (mev_channels m) ID of
               None \<Rightarrow> mev_channels m
             | Some channels \<Rightarrow>
                 (let channels' = remove1 c channels
                  in if length channels' = 0 then AList.delete ID (mev_channels m)
                     else AList.update ID channels' (mev_channels m)))
      in case close_chan c (mev_chans m) of
           Returns h \<Rightarrow> Returns (m\<lparr>mev_channels := chans, mev_chans := h\<rparr>)
         | Panics msg \<Rightarrow> Panics msg
         | Blocks \<Rightarrow> Blocks)"

text \<open>
  Sending one event to the channels of a job. \<open>obs n\<close> is what the \<open>n\<close>th \<open>select\<close> of the call
  sees: the error of a context that is done, and which case Go picks when the send and the
  cancellation are both ready. A full channel is skipped.
\<close>

type_synonym select_obs = "nat \<Rightarrow> error option \<times> bool"

fun send_all ::
  "select_obs \<Rightarrow> BatchEvent \<Rightarrow> nat \<Rightarrow> nat list \<Rightarrow> chan list \<Rightarrow> (error option \<times> nat \<times> chan list) go_result" where
  "send_all obs ev n [] h = Returns (None, n, h)"
| "send_all obs ev n (c # cs) h =
     (let (dn, pick_send) = obs n;
          ready = chan_closed (h ! c) \<or> length (chan_buf (h ! c)) < 100
      in if ready \<and> (dn = None \<or> pick_send) then
           (if chan_closed (h ! c) then Panics ''send on closed channel''
            else send_all obs ev (Suc n) cs (h[c := (h ! c)\<lparr>chan_buf := chan_buf (h ! c) @ [ev]\<rparr>]))
         else (case dn of
             Some err \<Rightarrow> Returns (Some err, Suc n, h)
           | None \<Rightarrow> send_all obs ev (Suc n) cs h))"

fun send_events ::
  "select_obs \<Rightarrow> nat \<Rightarrow> string list \<Rightarrow> BatchEvent list \<Rightarrow> MockBatchEventChannelClient
    \<Rightarrow> ((string list \<times> error option) \<times> MockBatchEventChannelClient) go_result" where
  "send_events obs n sentIDs [] m = Returns ((sentIDs, None), m)"
| "send_events obs n sentIDs (ev # evs) m =
     (if length (channels_of m (ev_ID ev)) = 0 then send_events obs n sentIDs evs m
      else (case send_all obs ev n (channels_of m (ev_ID ev)) (mev_chans m) of
          Returns (Some err, n', h) \<Rightarrow> Returns ((sentIDs, Some err), m\<lparr>mev_chans := h\<rparr>)
        | Returns (None, n', h) \<Rightarrow> send_events obs n' (sentIDs @ [ev_ID ev]) evs (m\<lparr>mev_chans := h\<rparr>)
        | Panics msg \<Rightarrow> Panics msg
        | Blocks \<Rightarrow> Blocks))"

definition mev_ProducerSendEvents ::
  "select_obs \<Rightarrow> BatchEvent list \<Rightarrow> MockBatchEventChannelClient
    \<Rightarrow> ((string list \<times> error option) \<times> MockBatchEventChannelClient) go_result" where
  "mev_ProducerSendEvents obs events m = send_events obs 0 [] events m"

fun close_all :: "nat list \<Rightarrow> chan list \<Rightarrow> (chan list) go_result" where
  "close_all [] h = Returns h"
| "close_all (c # cs) h =
     (case close_chan c h of
        Returns h' \<Rightarrow> close_all cs h' | Panics msg \<Rightarrow> Panics msg | Blocks \<Rightarrow> Blocks)"

definition mev_Close ::
  "MockBatchEventChannelClient \<Rightarrow> (error option \<times> MockBatchEventChannelClient) go_result" where
  "mev_Close m =
     (case close_all (concat (map snd (mev_channels m))) (mev_chans m) of
        Returns h \<Rightarrow> Returns (None, m\<lparr>mev_channels := [], mev_chans := h\<rparr>)
      | Panics msg \<Rightarrow> Panics msg
      | Blocks \<Rightarrow> Blocks)"

definition mock_event :: "select_obs \<Rightarrow> MockBatchEventChannelClient event_client" where
  "mock_event obs = \<lparr>ec_ProducerSendEvents = mev_ProducerSendEvents obs\<rparr>"

section \<open>Invariant\<close>

text \<open>
  Every listed channel exists, is open and belongs to one job only, which is why sending never
  panics and a job's events reach no other job's consumers.
\<close>

definition mev_inv :: "MockBatchEventChannelClient \<Rightarrow> bool" where
  "mev_inv m \<longleftrightarrow>
     distinct (map fst (mev_channels m)) \<and>
     (\<forall>k. distinct (channels_of m k)) \<and>
     (\<forall>k c. c \<in> set (channels_of m k) \<longrightarrow> c < length (mev_chans m) \<and> \<not> chan_closed (mev_chans m ! c)) \<and>
     (\<forall>k k' c. c \<in> set (channels_of m k) \<longrightarrow> c \<in> set (channels_of m k') \<longrightarrow> k = k') \<and>
     (\<forall>ch \<in> set (mev_chans m). length (chan_buf ch) \<le> 100)"

definition mev_pending :: "MockBatchEventChannelClient \<Rightarrow> string \<Rightarrow> BatchEvent list list" where
  "mev_pending m k = map (\<lambda>c. chan_buf (mev_chans m ! c)) (channels_of m k)"

lemma channels_of_new [simp]: "channels_of NewMockBatchEventChannelClient k = []"
  by (simp add: channels_of_def NewMockBatchEventChannelClient_def)

lemma mev_inv_new [simp]: "mev_inv NewMockBatchEventChannelClient"
  by (simp add: mev_inv_def) (simp add: NewMockBatchEventChannelClient_def)

lemma channels_of_chans [simp]: "channels_of (m\<lparr>mev_chans := h\<rparr>) k = channels_of m k"
  by (simp add: channels_of_def)

lemma channels_of_put [simp]:
  "channels_of (m\<lparr>mev_channels := AList.update ID cs (mev_channels m)\<rparr>) k
     = (if k = ID then cs else channels_of m k)"
  by (simp add: channels_of_def AList.update_conv')

lemma channels_of_drop [simp]:
  "channels_of (m\<lparr>mev_channels := AList.delete ID (mev_channels m)\<rparr>) k
     = (if k = ID then [] else channels_of m k)"
  by (simp add: channels_of_def AList.delete_conv')

text \<open>A new consumer gets an empty channel of its own.\<close>

lemma ConsumerGetChannel_inv:
  assumes "mev_inv m"
  shows "mev_inv (snd (ConsumerGetChannel ID m))"
    and "mev_pending (snd (ConsumerGetChannel ID m)) k =
      (if k = ID then mev_pending m k @ [[]] else mev_pending m k)"
proof -
  let ?m = "snd (ConsumerGetChannel ID m)"
  have cs: "channels_of ?m k = (if k = ID then channels_of m k @ [length (mev_chans m)] else channels_of m k)" for k
    by (simp add: ConsumerGetChannel_def Let_def channels_of_def AList.update_conv')
  have h: "mev_chans ?m = mev_chans m @ [\<lparr>chan_buf = [], chan_closed = False\<rparr>]"
    by (simp add: ConsumerGetChannel_def Let_def)
  have "distinct (map fst (mev_channels ?m))"
    using assms by (simp add: ConsumerGetChannel_def Let_def mev_inv_def distinct_update)
  moreover have "c < length (mev_chans m)" if "c \<in> set (channels_of m k)" for c k
    using that assms by (auto simp: mev_inv_def)
  ultimately show "mev_inv ?m"
    using assms by (fastforce simp: mev_inv_def cs h nth_append split: if_splits)
  show "mev_pending ?m k = (if k = ID then mev_pending m k @ [[]] else mev_pending m k)"
    using assms by (auto simp: mev_pending_def mev_inv_def cs h nth_append)
qed

text \<open>What one event does to the channels of its job.\<close>

definition sent_to :: "nat set \<Rightarrow> BatchEvent \<Rightarrow> chan list \<Rightarrow> chan list \<Rightarrow> bool" where
  "sent_to C ev h h' \<longleftrightarrow>
     length h' = length h \<and>
     (\<forall>i < length h. chan_closed (h' ! i) = chan_closed (h ! i) \<and>
        (chan_buf (h' ! i) = chan_buf (h ! i) \<or>
         i \<in> C \<and> length (chan_buf (h ! i)) < 100 \<and> chan_buf (h' ! i) = chan_buf (h ! i) @ [ev]))"

lemma sent_to_refl [simp]: "sent_to C ev h h"
  by (simp add: sent_to_def)

lemma sent_to_mono: "sent_to C ev h h' \<Longrightarrow> C \<subseteq> D \<Longrightarrow> sent_to D ev h h'"
  by (auto simp: sent_to_def)

lemma sent_to_after_send:
  assumes "sent_to C ev (h[c := (h ! c)\<lparr>chan_buf := chan_buf (h ! c) @ [ev]\<rparr>]) h'"
    and "c \<notin> C" and "length (chan_buf (h ! c)) < 100"
  shows "sent_to (insert c C) ev h h'"
proof -
  have "chan_closed (h' ! i) = chan_closed (h ! i) \<and>
      (chan_buf (h' ! i) = chan_buf (h ! i) \<or> i \<in> insert c C \<and>
       length (chan_buf (h ! i)) < 100 \<and> chan_buf (h' ! i) = chan_buf (h ! i) @ [ev])"
    if "i < length h" for i
    using assms that by (cases "i = c") (auto simp: sent_to_def)
  then show ?thesis using assms(1) by (simp add: sent_to_def)
qed

lemma send_all_spec:
  assumes "distinct cs" and "\<forall>c \<in> set cs. c < length h \<and> \<not> chan_closed (h ! c)"
  shows "\<exists>e n' h'. send_all obs ev n cs h = Returns (e, n', h') \<and> sent_to (set cs) ev h h'"
  using assms
proof (induction cs arbitrary: n h)
  case (Cons c cs)
  obtain dn pick where o: "obs n = (dn, pick)" by fastforce
  let ?go = "length (chan_buf (h ! c)) < 100 \<and> (dn = None \<or> pick)"
  let ?h = "h[c := (h ! c)\<lparr>chan_buf := chan_buf (h ! c) @ [ev]\<rparr>]"
  have c: "c < length h" "\<not> chan_closed (h ! c)" "c \<notin> set cs" "distinct cs"
    using Cons.prems by auto
  have sent: "\<forall>i \<in> set cs. i < length ?h \<and> \<not> chan_closed (?h ! i)"
    and skip: "\<forall>i \<in> set cs. i < length h \<and> \<not> chan_closed (h ! i)"
    using Cons.prems by (auto simp: nth_list_update)
  show ?case
  proof (cases ?go)
    case True
    obtain e n' h' where r: "send_all obs ev (Suc n) cs ?h = Returns (e, n', h')"
      and s: "sent_to (set cs) ev ?h h'"
      using Cons.IH [OF c(4) sent, of "Suc n"] by blast
    have "send_all obs ev n (c # cs) h = send_all obs ev (Suc n) cs ?h"
      using True c(2) o by simp
    then show ?thesis using r sent_to_after_send [OF s c(3)] True by simp
  next
    case False
    obtain e n' h' where r: "send_all obs ev (Suc n) cs h = Returns (e, n', h')"
      and s: "sent_to (set cs) ev h h'"
      using Cons.IH [OF c(4) skip, of "Suc n"] by blast
    have "send_all obs ev n (c # cs) h =
        (case dn of Some err \<Rightarrow> Returns (Some err, Suc n, h) | None \<Rightarrow> Returns (e, n', h'))"
      using False c(2) o r by (auto split: option.split)
    then show ?thesis
      using sent_to_mono [OF s, of "set (c # cs)"] by (cases dn) auto
  qed
qed simp

lemma mev_inv_listed:
  assumes "mev_inv m"
  shows "distinct (channels_of m k)"
    and "\<forall>c \<in> set (channels_of m k). c < length (mev_chans m) \<and> \<not> chan_closed (mev_chans m ! c)"
  using assms by (auto simp: mev_inv_def)

lemma mev_inv_apart:
  "mev_inv m \<Longrightarrow> c \<in> set (channels_of m k) \<Longrightarrow> c \<in> set (channels_of m k') \<Longrightarrow> k \<noteq> k' \<Longrightarrow> False"
  by (auto simp: mev_inv_def)

lemma sent_to_small:
  assumes "sent_to C ev h h'" and "\<forall>ch \<in> set h. length (chan_buf ch) \<le> 100"
  shows "\<forall>ch \<in> set h'. length (chan_buf ch) \<le> 100"
proof
  fix ch assume "ch \<in> set h'"
  then obtain i where "i < length h'" "ch = h' ! i" by (metis in_set_conv_nth)
  moreover from this assms have "length (chan_buf (h ! i)) \<le> 100" by (simp add: sent_to_def)
  ultimately show "length (chan_buf ch) \<le> 100"
    using assms(1) by (auto simp: sent_to_def)
qed

text \<open>Sending one event keeps the invariant and writes only to the channels of its job.\<close>

lemma send_one:
  assumes inv: "mev_inv m"
  shows "\<exists>e n' h'. send_all obs ev n (channels_of m (ev_ID ev)) (mev_chans m) = Returns (e, n', h') \<and>
           mev_inv (m\<lparr>mev_chans := h'\<rparr>) \<and>
           (\<forall>k. k \<noteq> ev_ID ev \<longrightarrow> mev_pending (m\<lparr>mev_chans := h'\<rparr>) k = mev_pending m k) \<and>
           list_all2 (\<lambda>old new. new = old \<or> new = old @ [ev])
             (mev_pending m (ev_ID ev)) (mev_pending (m\<lparr>mev_chans := h'\<rparr>) (ev_ID ev))"
proof -
  obtain e n' h' where r: "send_all obs ev n (channels_of m (ev_ID ev)) (mev_chans m) = Returns (e, n', h')"
    and s: "sent_to (set (channels_of m (ev_ID ev))) ev (mev_chans m) h'"
    using send_all_spec [OF mev_inv_listed [OF inv]] by blast
  have "mev_inv (m\<lparr>mev_chans := h'\<rparr>)"
    using inv sent_to_small [OF s] s by (simp add: mev_inv_def sent_to_def)
  moreover have "mev_pending (m\<lparr>mev_chans := h'\<rparr>) k = mev_pending m k" if "k \<noteq> ev_ID ev" for k
    using mev_inv_listed(2) [OF inv, of k] mev_inv_apart [OF inv _ _ that] s
    by (auto simp: mev_pending_def sent_to_def)
  moreover have "list_all2 (\<lambda>old new. new = old \<or> new = old @ [ev])
             (mev_pending m (ev_ID ev)) (mev_pending (m\<lparr>mev_chans := h'\<rparr>) (ev_ID ev))"
    using mev_inv_listed(2) [OF inv, of "ev_ID ev"] s
    by (auto simp: mev_pending_def sent_to_def list_all2_conv_all_nth)
  ultimately show ?thesis using r by blast
qed

text \<open>With a live context every channel that has room gets the event.\<close>

definition deliver :: "BatchEvent \<Rightarrow> nat \<Rightarrow> chan list \<Rightarrow> chan list" where
  "deliver ev c h =
     (if length (chan_buf (h ! c)) < 100 then h[c := (h ! c)\<lparr>chan_buf := chan_buf (h ! c) @ [ev]\<rparr>] else h)"

lemma deliver_nth:
  "length (deliver ev c h) = length h"
  "c < length h \<Longrightarrow> deliver ev c h ! i =
     (if i = c \<and> length (chan_buf (h ! c)) < 100 then (h ! c)\<lparr>chan_buf := chan_buf (h ! c) @ [ev]\<rparr> else h ! i)"
  by (auto simp: deliver_def nth_list_update)

lemma send_all_live:
  assumes "\<forall>n. fst (obs n) = None" and "\<forall>c \<in> set cs. c < length h \<and> \<not> chan_closed (h ! c)"
  shows "\<exists>n'. send_all obs ev n cs h = Returns (None, n', fold (deliver ev) cs h)"
  using assms(2)
proof (induction cs arbitrary: n h)
  case (Cons c cs)
  obtain pick where o: "obs n = (None, pick)" using assms(1) by (metis prod.collapse)
  have "send_all obs ev n (c # cs) h = send_all obs ev (Suc n) cs (deliver ev c h)"
    using Cons.prems o by (simp add: deliver_def)
  moreover have "\<forall>i \<in> set cs. i < length (deliver ev c h) \<and> \<not> chan_closed (deliver ev c h ! i)"
    using Cons.prems by (auto simp: deliver_nth)
  ultimately show ?case using Cons.IH [of "deliver ev c h" "Suc n"] by simp
qed simp

lemma fold_deliver_nth:
  assumes "distinct cs" and "\<forall>c \<in> set cs. c < length h"
  shows "length (fold (deliver ev) cs h) = length h"
    and "chan_buf (fold (deliver ev) cs h ! i) =
      (if i \<in> set cs \<and> length (chan_buf (h ! i)) < 100 then chan_buf (h ! i) @ [ev] else chan_buf (h ! i))"
  using assms
proof (induction cs arbitrary: h)
  case (Cons c cs)
  {
    case 1
    then show ?case using Cons.IH(1) [of "deliver ev c h"] by (simp add: deliver_nth)
  next
    case 2
    then show ?case using Cons.IH(2) [of "deliver ev c h"] by (auto simp: deliver_nth)
  }
qed simp_all

definition receive :: "BatchEvent \<Rightarrow> BatchEvent list \<Rightarrow> BatchEvent list" where
  "receive ev buf = (if length buf < 100 then buf @ [ev] else buf)"

lemma send_live:
  assumes "\<forall>n. fst (obs n) = None" and inv: "mev_inv m"
  shows "\<exists>sent m'. mev_ProducerSendEvents obs [ev] m = Returns ((sent, None), m') \<and>
      mev_pending m' (ev_ID ev) = map (receive ev) (mev_pending m (ev_ID ev))"
proof (cases "channels_of m (ev_ID ev) = []")
  case True
  then show ?thesis by (simp add: mev_ProducerSendEvents_def mev_pending_def)
next
  case False
  let ?cs = "channels_of m (ev_ID ev)"
  obtain n' where r: "send_all obs ev 0 ?cs (mev_chans m) = Returns (None, n', fold (deliver ev) ?cs (mev_chans m))"
    using send_all_live [OF assms(1) mev_inv_listed(2) [OF inv]] by blast
  have "mev_pending (m\<lparr>mev_chans := fold (deliver ev) ?cs (mev_chans m)\<rparr>) (ev_ID ev)
      = map (receive ev) (mev_pending m (ev_ID ev))"
    using mev_inv_listed [OF inv, of "ev_ID ev"]
    by (auto simp: mev_pending_def receive_def fold_deliver_nth)
  then show ?thesis using r False by (simp add: mev_ProducerSendEvents_def)
qed

section \<open>The contract\<close>

interpretation mev: event_channels "mock_event obs" mev_pending mev_inv for obs
proof
  fix c ev
  assume inv: "mev_inv c"
  show "\<exists>sent e c'. ec_ProducerSendEvents (mock_event obs) [ev] c = Returns ((sent, e), c') \<and>
          mev_inv c' \<and> (\<forall>k. k \<noteq> ev_ID ev \<longrightarrow> mev_pending c' k = mev_pending c k) \<and>
          list_all2 (\<lambda>old new. new = old \<or> new = old @ [ev])
            (mev_pending c (ev_ID ev)) (mev_pending c' (ev_ID ev))"
  proof (cases "channels_of c (ev_ID ev) = []")
    case True
    then show ?thesis
      using inv by (auto simp: mock_event_def mev_ProducerSendEvents_def mev_pending_def)
  next
    case False
    obtain e n' h' where "send_all obs ev 0 (channels_of c (ev_ID ev)) (mev_chans c) = Returns (e, n', h')"
      and "mev_inv (c\<lparr>mev_chans := h'\<rparr>) \<and>
           (\<forall>k. k \<noteq> ev_ID ev \<longrightarrow> mev_pending (c\<lparr>mev_chans := h'\<rparr>) k = mev_pending c k) \<and>
           list_all2 (\<lambda>old new. new = old \<or> new = old @ [ev])
             (mev_pending c (ev_ID ev)) (mev_pending (c\<lparr>mev_chans := h'\<rparr>) (ev_ID ev))"
      using send_one [OF inv] by blast
    then show ?thesis
      using False by (cases e) (auto simp: mock_event_def mev_ProducerSendEvents_def)
  qed
qed

section \<open>Properties\<close>

lemma send_one_live:
  assumes "\<forall>n. fst (obs n) = None" and inv: "mev_inv m"
  shows "\<exists>n' h. send_all obs ev n (channels_of m (ev_ID ev)) (mev_chans m) = Returns (None, n', h) \<and>
     mev_inv (m\<lparr>mev_chans := h\<rparr>) \<and>
     (\<forall>k. mev_pending (m\<lparr>mev_chans := h\<rparr>) k =
        (if k = ev_ID ev then map (receive ev) (mev_pending m k) else mev_pending m k))"
proof -
  let ?cs = "channels_of m (ev_ID ev)"
  let ?h = "fold (deliver ev) ?cs (mev_chans m)"
  obtain n' where r: "send_all obs ev n ?cs (mev_chans m) = Returns (None, n', ?h)"
    using send_all_live [OF assms(1) mev_inv_listed(2) [OF inv]] by blast
  have own: "mev_pending (m\<lparr>mev_chans := ?h\<rparr>) (ev_ID ev) = map (receive ev) (mev_pending m (ev_ID ev))"
    using mev_inv_listed [OF inv, of "ev_ID ev"]
    by (auto simp: mev_pending_def receive_def fold_deliver_nth)
  obtain e2 n2 h2 where "send_all obs ev n ?cs (mev_chans m) = Returns (e2, n2, h2)"
    "mev_inv (m\<lparr>mev_chans := h2\<rparr>)" "\<forall>k. k \<noteq> ev_ID ev \<longrightarrow> mev_pending (m\<lparr>mev_chans := h2\<rparr>) k = mev_pending m k"
    using send_one [OF inv] by blast
  then show ?thesis using r own by auto
qed

lemma send_events_live:
  assumes "\<forall>n. fst (obs n) = None"
  shows "mev_inv m \<Longrightarrow> \<exists>sent' m'. send_events obs n sent evs m = Returns ((sent', None), m') \<and> mev_inv m' \<and>
     (\<forall>k. mev_pending m' k = map (fold receive (filter (\<lambda>ev. ev_ID ev = k) evs)) (mev_pending m k))"
proof (induction evs arbitrary: m n sent)
  case (Cons ev evs)
  show ?case
  proof (cases "channels_of m (ev_ID ev) = []")
    case True
    then have "mev_pending m (ev_ID ev) = []" by (simp add: mev_pending_def)
    then show ?thesis using Cons.IH [OF Cons.prems, of n sent] True by fastforce
  next
    case False
    obtain n' h where r: "send_all obs ev n (channels_of m (ev_ID ev)) (mev_chans m) = Returns (None, n', h)"
      and inv: "mev_inv (m\<lparr>mev_chans := h\<rparr>)"
      and p: "\<forall>k. mev_pending (m\<lparr>mev_chans := h\<rparr>) k =
        (if k = ev_ID ev then map (receive ev) (mev_pending m k) else mev_pending m k)"
      using send_one_live [OF assms Cons.prems] by blast
    obtain sent' m' where s: "send_events obs n' (sent @ [ev_ID ev]) evs (m\<lparr>mev_chans := h\<rparr>) = Returns ((sent', None), m')"
      "mev_inv m'" and q: "\<forall>k. mev_pending m' k
        = map (fold receive (filter (\<lambda>ev. ev_ID ev = k) evs)) (mev_pending (m\<lparr>mev_chans := h\<rparr>) k)"
      using Cons.IH [OF inv] by blast
    have "mev_pending m' k = map (fold receive (filter (\<lambda>ev. ev_ID ev = k) (ev # evs))) (mev_pending m k)" for k
      using p q by simp
    then show ?thesis using False r s by simp
  qed
qed simp

lemma fold_receive:
  "length buf + length evs \<le> 100 \<Longrightarrow> fold receive evs buf = buf @ evs"
  by (induction evs arbitrary: buf) (simp_all add: receive_def)

text \<open>C15: with a live context, sending any events never panics nor fails, and every consumer that
  has room for them finds after its unread events exactly the events of its own job, in the order in
  which they were sent.\<close>

theorem events_in_order:
  assumes "mev_inv m" and "\<forall>n. fst (obs n) = None"
    and "\<forall>buf \<in> set (mev_pending m k). length buf + length events \<le> 100"
  shows "\<exists>sent m'. mev_ProducerSendEvents obs events m = Returns ((sent, None), m') \<and> mev_inv m' \<and>
     mev_pending m' k = map (\<lambda>buf. buf @ filter (\<lambda>ev. ev_ID ev = k) events) (mev_pending m k)"
proof -
  let ?own = "filter (\<lambda>ev. ev_ID ev = k) events"
  obtain sent m' where s: "mev_ProducerSendEvents obs events m = Returns ((sent, None), m')" "mev_inv m'"
    and p: "mev_pending m' k = map (fold receive ?own) (mev_pending m k)"
    using send_events_live [OF assms(2,1), of 0 "[]" events] unfolding mev_ProducerSendEvents_def by blast
  have "fold receive ?own buf = buf @ ?own" if "buf \<in> set (mev_pending m k)" for buf
  proof (rule fold_receive)
    have "length buf + length ?own \<le> length buf + length events" by simp
    also have "\<dots> \<le> 100" using assms(3) that by blast
    finally show "length buf + length ?own \<le> 100" .
  qed
  then have "map (fold receive ?own) (mev_pending m k) = map (\<lambda>buf. buf @ ?own) (mev_pending m k)" by simp
  then show ?thesis using s p by auto
qed

theorem events_in_order_witness:
  "\<exists>sent m'. mev_ProducerSendEvents (\<lambda>_. (None, True))
      [\<lparr>ev_ID = ''a'', ev_Type = BatchEventPause, ev_TTL = 1\<rparr>, \<lparr>ev_ID = ''b'', ev_Type = BatchEventCancel, ev_TTL = 1\<rparr>,
       \<lparr>ev_ID = ''a'', ev_Type = BatchEventResume, ev_TTL = 1\<rparr>]
      (snd (ConsumerGetChannel ''a'' NewMockBatchEventChannelClient)) = Returns ((sent, None), m') \<and>
    map (map ev_Type) (mev_pending m' ''a'') = [[BatchEventPause, BatchEventResume]]"
proof -
  let ?m = "snd (ConsumerGetChannel ''a'' NewMockBatchEventChannelClient)"
  have p: "mev_pending ?m ''a'' = [[]]" by code_simp
  show ?thesis
    using events_in_order [OF ConsumerGetChannel_inv(1) [OF mev_inv_new], of "\<lambda>_. (None, True)" "''a''" "''a''"
        "[\<lparr>ev_ID = ''a'', ev_Type = BatchEventPause, ev_TTL = 1\<rparr>, \<lparr>ev_ID = ''b'', ev_Type = BatchEventCancel, ev_TTL = 1\<rparr>,
          \<lparr>ev_ID = ''a'', ev_Type = BatchEventResume, ev_TTL = 1\<rparr>]"] p
    by auto
qed

lemma close_all_closes:
  assumes "distinct cs" and "\<forall>c \<in> set cs. c < length h \<and> \<not> chan_closed (h ! c)"
  shows "\<exists>h'. close_all cs h = Returns h' \<and> length h' = length h \<and> (\<forall>c \<in> set cs. chan_closed (h' ! c)) \<and>
     (\<forall>i < length h. chan_closed (h ! i) \<longrightarrow> chan_closed (h' ! i))"
  using assms
proof (induction cs arbitrary: h)
  case (Cons c cs)
  let ?h = "h[c := (h ! c)\<lparr>chan_closed := True\<rparr>]"
  have "\<forall>i \<in> set cs. i < length ?h \<and> \<not> chan_closed (?h ! i)"
    using Cons.prems by (auto simp: nth_list_update)
  then obtain h' where h': "close_all cs ?h = Returns h'" "length h' = length h"
    "\<forall>i \<in> set cs. chan_closed (h' ! i)" "\<forall>i < length h. chan_closed (?h ! i) \<longrightarrow> chan_closed (h' ! i)"
    using Cons.IH [of ?h] Cons.prems by auto
  have c: "c < length h" "close_chan c h = Returns ?h" using Cons.prems by (auto simp: close_chan_def)
  have "chan_closed (h' ! c)" using h'(4) c(1) by simp
  moreover have "chan_closed (h' ! i)" if "i < length h" "chan_closed (h ! i)" for i
    using h'(4) that by (cases "i = c") auto
  ultimately show ?case using h' c by auto
qed simp

lemma listed_distinct:
  assumes "mev_inv m"
  shows "distinct (concat (map snd (mev_channels m)))"
    and "c \<in> set (concat (map snd (mev_channels m))) \<longleftrightarrow> (\<exists>k. c \<in> set (channels_of m k))"
proof -
  have d: "distinct (map fst (mev_channels m))" using assms by (simp add: mev_inv_def)
  have at: "e \<in> set (mev_channels m) \<Longrightarrow> channels_of m (fst e) = snd e" for e
    using d by (cases e) (simp add: channels_of_def)
  show "c \<in> set (concat (map snd (mev_channels m))) \<longleftrightarrow> (\<exists>k. c \<in> set (channels_of m k))"
  proof
    assume "c \<in> set (concat (map snd (mev_channels m)))"
    then obtain e where "e \<in> set (mev_channels m)" "c \<in> set (snd e)" by auto
    then show "\<exists>k. c \<in> set (channels_of m k)" using at [of e] by metis
  next
    assume "\<exists>k. c \<in> set (channels_of m k)"
    then obtain k where k: "c \<in> set (channels_of m k)" by blast
    then obtain cs where "map_of (mev_channels m) k = Some cs" "c \<in> set cs"
      by (cases "map_of (mev_channels m) k") (simp_all add: channels_of_def)
    then show "c \<in> set (concat (map snd (mev_channels m)))" by (force dest: map_of_SomeD)
  qed
  have apart: "k = k'" if "c \<in> set (channels_of m k)" "c \<in> set (channels_of m k')" for c k k'
    using assms that by (auto simp: mev_inv_def)
  have dd: "distinct (channels_of m k)" for k using assms by (simp add: mev_inv_def)
  have "distinct (concat (map snd es))" if "set es \<subseteq> set (mev_channels m)" "distinct (map fst es)" for es
    using that
  proof (induction es)
    case (Cons e es)
    have "set (snd e) \<inter> set (concat (map snd es)) = {}"
    proof (rule ccontr)
      assume "set (snd e) \<inter> set (concat (map snd es)) \<noteq> {}"
      then obtain c e' where "c \<in> set (snd e)" "e' \<in> set es" "c \<in> set (snd e')" by auto
      moreover from this have "e' \<in> set (mev_channels m)" "e \<in> set (mev_channels m)"
        using Cons.prems(1) by auto
      ultimately have "fst e = fst e'" using apart [of c "fst e" "fst e'"] at [of e] at [of e'] by simp
      then show False using \<open>e' \<in> set es\<close> Cons.prems(2) by auto
    qed
    moreover have "distinct (snd e)" using dd [of "fst e"] at [of e] Cons.prems(1) by simp
    ultimately show ?case using Cons by simp
  qed simp
  then show "distinct (concat (map snd (mev_channels m)))" using d by blast
qed

text \<open>Closing the client closes the channels of every consumer; a consumer that then calls the
  close function of its channel, as the interface says it must, panics.\<close>

theorem close_then_closeFn_panics:
  assumes "mev_inv m" and "c \<in> set (channels_of m ID)"
  shows "\<exists>m'. mev_Close m = Returns (None, m') \<and> closeFn ID c m' = Panics ''close of closed channel''"
proof -
  let ?cs = "concat (map snd (mev_channels m))"
  have "\<forall>i \<in> set ?cs. i < length (mev_chans m) \<and> \<not> chan_closed (mev_chans m ! i)"
    using listed_distinct(2) [OF assms(1)] assms(1) by (auto simp: mev_inv_def)
  then obtain h' where closed: "close_all ?cs (mev_chans m) = Returns h'" "\<forall>i \<in> set ?cs. chan_closed (h' ! i)"
    using close_all_closes [OF listed_distinct(1) [OF assms(1)]] by blast
  have "c \<in> set ?cs" using listed_distinct(2) [OF assms(1)] assms(2) by blast
  then have "close_all ?cs (mev_chans m) = Returns h'" "chan_closed (h' ! c)" using closed by blast+
  then show ?thesis by (simp add: mev_Close_def closeFn_def close_chan_def)
qed

theorem close_then_closeFn_panics_witness:
  "\<exists>m'. mev_Close (snd (ConsumerGetChannel ''a'' NewMockBatchEventChannelClient)) = Returns (None, m') \<and>
     closeFn ''a'' 0 m' = Panics ''close of closed channel''"
proof -
  have "0 \<in> set (channels_of (snd (ConsumerGetChannel ''a'' NewMockBatchEventChannelClient)) ''a'')" by code_simp
  from close_then_closeFn_panics [OF ConsumerGetChannel_inv(1) [OF mev_inv_new] this] show ?thesis .
qed

end
