(* ===== verification/BatchService.thy ===== *)
theory BatchService
  imports BatchHandler MockDB MockQueue MockEvent
begin

text \<open>
  The Batch API on clients that keep their contracts. \<open>service_ok\<close> is the invariant of the
  service: every stored job decodes to a batch, and every queued entry belongs to a stored job
  that is still \<open>validating\<close>. The locale \<open>batch_service\<close> shows what each handler does to the
  stored jobs, the queue and the events; \<open>api_step\<close> is one call of a handler or one dequeue by
  a worker. \<open>svc\<close> interprets the locale on the in-memory clients.
\<close>

lemma handler_simps [simp]:
  "bh_dbClient (NewBatchApiHandler cfg d q e) = d"
  "bh_queueClient (NewBatchApiHandler cfg d q e) = q"
  "bh_eventClient (NewBatchApiHandler cfg d q e) = e"
  "bh_config (NewBatchApiHandler cfg d q e) = cfg"
  by (simp_all add: NewBatchApiHandler_def)

section \<open>Jobs that carry a batch\<close>

definition carries :: "BatchJob \<Rightarrow> Batch \<Rightarrow> bool" where
  "carries j b \<longleftrightarrow>
     b_ID b = job_ID j \<and> BatchSpec_ok (b_Spec b) \<and> BatchStatusInfo_ok (b_Status b) \<and>
     job_Spec j = jprint (enc_BatchSpec (b_Spec b)) \<and>
     job_Status j = jprint (enc_BatchStatusInfo (b_Status b))"

lemma Unmarshal_Spec:
  "BatchSpec_ok sp \<Longrightarrow> Unmarshal BatchSpec_fields (jprint (enc_BatchSpec sp)) zero_BatchSpec = Some sp"
proof -
  assume ok: "BatchSpec_ok sp"
  have "json_ok (enc_BatchSpec sp)"
    using BatchSpec_json_ok [OF ok] by (auto simp: enc_BatchSpec_def)
  then show ?thesis using dec_BatchSpec_enc [OF ok] by (simp add: Unmarshal_def json_parse_jprint)
qed

lemma Unmarshal_Status:
  "BatchStatusInfo_ok st \<Longrightarrow>
     Unmarshal BatchStatusInfo_fields (jprint (enc_BatchStatusInfo st)) zero_BatchStatusInfo = Some st"
proof -
  assume ok: "BatchStatusInfo_ok st"
  have "json_ok (enc_BatchStatusInfo st)"
    using BatchStatusInfo_json_ok [OF ok] by (auto simp: enc_BatchStatusInfo_def)
  then show ?thesis
    using dec_BatchStatusInfo_enc [OF ok] by (simp add: Unmarshal_def json_parse_jprint)
qed

lemma jobToBatch_carries: "carries j b \<Longrightarrow> jobToBatch j = Inr b"
  by (cases b) (simp add: carries_def jobToBatch_def Unmarshal_Spec Unmarshal_Status)

lemma carries_unique: "carries j b \<Longrightarrow> carries j b' \<Longrightarrow> b = b'"
  by (metis jobToBatch_carries sum.inject(2))

lemma carries_same: "same_job i j \<Longrightarrow> carries i b = carries j b"
  by (auto simp: same_job_def carries_def)

lemma jobToBatch_same: "same_job i j \<Longrightarrow> jobToBatch i = jobToBatch j"
  unfolding same_job_def jobToBatch_def by metis

text \<open>The batch a request creates, and the job that carries it.\<close>

definition created_batch :: "string \<Rightarrow> gotime \<Rightarrow> CreateBatchRequest \<Rightarrow> Batch" where
  "created_batch uuid now r =
     \<lparr>b_ID = batch_id uuid, b_Spec = create_spec r now, b_Status = create_status\<rparr>"

definition created_job ::
  "ServerConfig \<Rightarrow> string \<Rightarrow> gotime \<Rightarrow> gotime \<Rightarrow> CreateBatchRequest \<Rightarrow> duration \<Rightarrow> BatchJob" where
  "created_job config uuid now1 now2 r d =
     \<lparr>job_ID = batch_id uuid, job_SLO = now2 + d, job_TTL = create_ttl config r d, job_Tags = [],
      job_Spec = jprint (enc_BatchSpec (create_spec r now1)),
      job_Status = jprint (enc_BatchStatusInfo create_status)\<rparr>"

lemma created_job_simps [simp]:
  "job_ID (created_job config uuid now1 now2 r d) = batch_id uuid"
  "job_SLO (created_job config uuid now1 now2 r d) = now2 + d"
  by (simp_all add: created_job_def)

lemma int64_ok_0 [simp]: "int64_ok 0"
  by (simp add: int64_ok_def)

lemma utf8_valid_ascii_batch: "utf8_valid ''batch''" "utf8_valid ''validating''"
  "utf8_valid ''cancelled''" "utf8_valid ''cancelling''"
  by code_simp+

lemma create_status_ok: "BatchStatusInfo_ok create_status"
  by (simp add: create_status_def BatchStatusInfo_ok_def zero_BatchStatusInfo_def
      BatchRequestCounts_ok_def zero_BatchRequestCounts_def BatchStatusValidating_def
      utf8_valid_ascii_batch)

lemma carries_created:
  assumes "request_strings_ok r" and "int64_ok (Unix now1)"
  shows "carries (created_job config uuid now1 now2 r d) (created_batch uuid now1 r)"
  using assms create_status_ok
  by (simp add: carries_def created_job_def created_batch_def create_spec_def BatchSpec_ok_def
      request_strings_ok_def utf8_valid_ascii_batch)

lemma mark_ok:
  assumes "BatchStatusInfo_ok (b_Status b)" and "int64_ok (Unix now)"
  shows "BatchStatusInfo_ok (b_Status (mark_cancelled now b))"
    and "BatchStatusInfo_ok (b_Status (mark_cancelling now b))"
  using assms
  by (simp_all add: BatchStatusInfo_ok_def mark_cancelled_def mark_cancelling_def
      BatchStatusCancelled_def BatchStatusCancelling_def utf8_valid_ascii_batch)

lemma mark_simps [simp]:
  "b_ID (mark_cancelled now b) = b_ID b" "b_ID (mark_cancelling now b) = b_ID b"
  "b_Spec (mark_cancelled now b) = b_Spec b" "b_Spec (mark_cancelling now b) = b_Spec b"
  "st_Status (b_Status (mark_cancelled now b)) = BatchStatusCancelled"
  "st_Status (b_Status (mark_cancelling now b)) = BatchStatusCancelling"
  by (simp_all add: mark_cancelled_def mark_cancelling_def)

lemma carries_mark:
  assumes "carries j b" and "b_ID b' = b_ID b" and "b_Spec b' = b_Spec b"
    and "BatchStatusInfo_ok (b_Status b')"
  shows "carries (j\<lparr>job_Status := jprint (enc_BatchStatusInfo (b_Status b'))\<rparr>) b'"
  using assms by (simp add: carries_def)

section \<open>The handlers without their early returns\<close>

lemma Marshal_Inr [simp]: "Marshal j = Inr (jprint j)"
  by (simp add: Marshal_def)

text \<open>Every way a valid request can go.\<close>

lemma CreateBatch_valid:
  assumes "decode_request (rq_Body rq) = Some (Some r)" and "valid_request r"
    and "ParseDuration (cr_CompletionWindow r) = Some d" and "w_store s = (h, db)"
    and "db_Store (bh_dbClient c) (length h) (h @ [created_job (bh_config c) uuid now1 now2 r d], db)
           = ((i, e), st)"
    and "pq_Enqueue (bh_queueClient c) \<lparr>jp_ID = batch_id uuid, jp_SLO = now2 + d\<rparr> (w_queue s)
           = (e2, q)"
    and "db_Delete (bh_dbClient c) [batch_id uuid] st = ((ids, e3), st2)"
  shows "CreateBatch c uuid now1 now2 rq w s =
     (if e \<noteq> None then (Returns (WriteInternalServerError w), s\<lparr>w_store := st\<rparr>)
      else if e2 \<noteq> None then
        (Returns (WriteInternalServerError w), s\<lparr>w_store := st2, w_queue := q\<rparr>)
      else (Returns (WriteJSONResponse 200 (Inr (jprint (enc_Batch (created_batch uuid now1 r)))) w),
            s\<lparr>w_store := st, w_queue := q\<rparr>))"
proof -
  have v: "CreateBatchRequest_Validate (Some r) = Returns None"
    using assms(2) by (simp add: Validate_accepts)
  show ?thesis
    using assms(1,3-) unfolding created_job_def created_batch_def
    by (simp add: CreateBatch_def v Let_def)
qed

lemma CreateBatch_rejects:
  "decode_request (rq_Body rq) = None \<Longrightarrow>
     CreateBatch c uuid now1 now2 rq w s = (Returns (bad_request ''invalid request body'' w), s)"
  "decode_request (rq_Body rq) = Some b \<Longrightarrow> CreateBatchRequest_Validate b = Returns (Some err) \<Longrightarrow>
     CreateBatch c uuid now1 now2 rq w s = (Returns (bad_request err w), s)"
  "decode_request (rq_Body rq) = Some None \<Longrightarrow>
     CreateBatch c uuid now1 now2 rq w s = (Panics nil_dereference, s)"
  by (simp_all add: CreateBatch_def CreateBatchRequest_Validate_def)

text \<open>A request is rejected without any effect, or valid.\<close>

lemma CreateBatch_total:
  obtains "snd (CreateBatch c uuid now1 now2 rq w s) = s"
  | r d where "decode_request (rq_Body rq) = Some (Some r)" "valid_request r"
      "ParseDuration (cr_CompletionWindow r) = Some d"
proof (cases "decode_request (rq_Body rq)")
  case None
  then show ?thesis using that(1) CreateBatch_rejects(1) by (metis snd_conv)
next
  case (Some b)
  show ?thesis
  proof (cases b)
    case None
    then show ?thesis using that(1) CreateBatch_rejects(3) Some by (metis snd_conv)
  next
    case (Some r)
    note b = this
    obtain e where e: "CreateBatchRequest_Validate (Some r) = Returns e"
      using Validate_Some_returns by blast
    show ?thesis
    proof (cases e)
      case None
      then have v: "valid_request r" using e Validate_accepts by simp
      then obtain d where "ParseDuration (cr_CompletionWindow r) = Some d"
        by (auto simp: valid_request_def)
      then show ?thesis using that(2) v \<open>decode_request (rq_Body rq) = Some b\<close> b by simp
    next
      case (Some err)
      then show ?thesis
        using that(1) CreateBatch_rejects(2) \<open>decode_request (rq_Body rq) = Some b\<close> b e
        by (metis snd_conv)
    qed
  qed
qed

lemma CancelBatch_found:
  assumes "PathValue rq ''batch_id'' = k" and "k \<noteq> []"
    and "db_Get (bh_dbClient c) [k] [] TagsLogicalCondNa True 0 1 (w_store s) = (([p], cur, None), st)"
    and "jobToBatch (fst st ! p) = Inr b" and "\<not> IsFinal (st_Status (b_Status b))"
    and "pq_Remove (bh_queueClient c) \<lparr>jp_ID = k, jp_SLO = 0\<rparr> (w_queue s) = ((n, e), q)"
  defines "s1 \<equiv> s\<lparr>w_store := st, w_queue := q\<rparr>"
  shows "CancelBatch c now rq w s =
     (if e \<noteq> None then (Returns (WriteInternalServerError w), s1)
      else if 0 < n then update_status c p (mark_cancelled now b) w s1
      else (case ec_ProducerSendEvents (bh_eventClient c)
             [\<lparr>ev_ID = k, ev_Type = BatchEventCancel, ev_TTL = sv_BatchTTLSeconds (bh_config c)\<rparr>]
             (w_events s) of
        Panics msg \<Rightarrow> (Panics msg, s1)
      | Blocks \<Rightarrow> (Blocks, s1)
      | Returns ((_, e), events) \<Rightarrow>
          (if e \<noteq> None then (Returns (WriteInternalServerError w), s1\<lparr>w_events := events\<rparr>)
           else update_status c p (mark_cancelling now b) w (s1\<lparr>w_events := events\<rparr>))))"
  using assms by (auto simp: CancelBatch_def Let_def split: go_result.split)

lemma CancelBatch_early:
  assumes "PathValue rq ''batch_id'' = k" and "k \<noteq> []"
    and "db_Get (bh_dbClient c) [k] [] TagsLogicalCondNa True 0 1 (w_store s) = ((ps, cur, e), st)"
  shows "e \<noteq> None \<Longrightarrow>
      CancelBatch c now rq w s = (Returns (WriteInternalServerError w), s\<lparr>w_store := st\<rparr>)"
    and "e = None \<Longrightarrow> ps = [] \<Longrightarrow>
      CancelBatch c now rq w s = (Returns (not_found k w), s\<lparr>w_store := st\<rparr>)"
    and "e = None \<Longrightarrow> ps = [p] \<Longrightarrow> jobToBatch (fst st ! p) = Inr b \<Longrightarrow> IsFinal (st_Status (b_Status b)) \<Longrightarrow>
      CancelBatch c now rq w s =
        (Returns (bad_request (''Batch with status '' @ st_Status (b_Status b) @ '' cannot be cancelled'') w),
         s\<lparr>w_store := st\<rparr>)"
  using assms by (simp_all add: CancelBatch_def Let_def)

lemma RetrieveBatch_result:
  assumes "PathValue rq ''batch_id'' = k" and "k \<noteq> []"
    and "db_Get (bh_dbClient c) [k] [] TagsLogicalCondNa True 0 1 (w_store s) = ((ps, cur, e), st)"
  shows "RetrieveBatch c rq w s =
     (Returns (if e \<noteq> None then WriteInternalServerError w
       else if ps = [] then not_found k w
       else (case jobToBatch (fst st ! (ps ! 0)) of
           Inl _ \<Rightarrow> WriteInternalServerError w
         | Inr b \<Rightarrow> WriteJSONResponse 200 (Inr (jprint (enc_Batch b))) w)),
      s\<lparr>w_store := st\<rparr>)"
  using assms by (simp add: RetrieveBatch_def Let_def split: sum.split)

lemma ListBatches_page:
  assumes "parse_limit rq = Inr limit" and "parse_after rq = Inr after"
    and "db_Get (bh_dbClient c) [] [] TagsLogicalCondNa True after (limit + 1) (w_store s)
           = ((ps, cur, e), st)"
  shows "ListBatches c rq w s =
     (Returns (if e \<noteq> None then WriteInternalServerError w
       else WriteJSONResponse 200
         (Inr (jprint (enc_ListBatchResponse (list_response limit (map (\<lambda>p. fst st ! p) ps))))) w),
      s\<lparr>w_store := st\<rparr>)"
  using assms by (simp add: ListBatches_def Let_def)

lemma ListBatches_rejects:
  "parse_limit rq = Inl msg \<Longrightarrow> ListBatches c rq w s = (Returns (bad_request msg w), s)"
  "parse_limit rq = Inr limit \<Longrightarrow> parse_after rq = Inl msg \<Longrightarrow>
     ListBatches c rq w s = (Returns (bad_request msg w), s)"
  by (simp_all add: ListBatches_def)

lemma parse_limit_range: "parse_limit rq = Inr limit \<Longrightarrow> 1 \<le> limit \<and> limit \<le> 100"
  by (auto simp: parse_limit_def Let_def split: if_splits option.splits)

lemma parse_after_range: "parse_after rq = Inr after \<Longrightarrow> 0 \<le> after"
  by (auto simp: parse_after_def Let_def split: if_splits option.splits)

lemma jobs_to_batches_length: "length (jobs_to_batches jobs) \<le> length jobs"
  by (induction jobs) (auto split: sum.split)

lemma jobs_to_batches_carries:
  "list_all2 carries jobs bs \<Longrightarrow> jobs_to_batches jobs = bs"
  by (induction rule: list_all2_induct) (simp_all add: jobToBatch_carries)

lemma list_response_simps [simp]:
  "lb_HasMore (list_response limit jobs) \<longleftrightarrow> int (length jobs) > limit"
  "lb_Data (list_response limit jobs) =
     jobs_to_batches (if int (length jobs) > limit then take (nat limit) jobs else jobs)"
  by (simp_all add: list_response_def Let_def)

lemma list_response_bound:
  "0 \<le> limit \<Longrightarrow> int (length (lb_Data (list_response limit jobs))) \<le> limit"
  using jobs_to_batches_length [of "take (nat limit) jobs"] jobs_to_batches_length [of jobs] by auto

section \<open>The invariant of the service\<close>

definition jobs_ok :: "(string \<Rightarrow> BatchJob option) \<Rightarrow> bool" where
  "jobs_ok L \<longleftrightarrow> (\<forall>k j. L k = Some j \<longrightarrow> (\<exists>b. carries j b))"

definition entry_ok :: "(string \<Rightarrow> BatchJob option) \<Rightarrow> BatchJobPriority \<Rightarrow> bool" where
  "entry_ok L x \<longleftrightarrow>
     (\<exists>j b. L (jp_ID x) = Some j \<and> carries j b \<and> st_Status (b_Status b) = BatchStatusValidating \<and>
        job_SLO j = jp_SLO x)"

definition service_ok ::
  "(heap \<times> 'd \<Rightarrow> string \<Rightarrow> BatchJob option) \<Rightarrow> (heap \<times> 'd \<Rightarrow> bool) \<Rightarrow> ('q \<Rightarrow> BatchJobPriority list)
    \<Rightarrow> ('q \<Rightarrow> bool) \<Rightarrow> ('e \<Rightarrow> bool) \<Rightarrow> ('d, 'q, 'e) world \<Rightarrow> bool" where
  "service_ok look sinv items qinv einv s \<longleftrightarrow>
     sinv (w_store s) \<and> qinv (w_queue s) \<and> einv (w_events s) \<and> jobs_ok (look (w_store s)) \<and>
     (\<forall>x \<in> set (items (w_queue s)). entry_ok (look (w_store s)) x) \<and>
     distinct (map jp_ID (items (w_queue s)))"

lemma jobs_ok_put: "jobs_ok L \<Longrightarrow> carries j b \<Longrightarrow> jobs_ok (L(k \<mapsto> j))"
  by (auto simp: jobs_ok_def)

lemma jobs_ok_drop: "jobs_ok L \<Longrightarrow> jobs_ok (L(k := None))"
  by (auto simp: jobs_ok_def)

lemma jobs_ok_carries: "jobs_ok L \<Longrightarrow> L k = Some j \<Longrightarrow> \<exists>b. carries j b"
  by (simp add: jobs_ok_def)

lemma entry_ok_upd: "entry_ok L x \<Longrightarrow> jp_ID x \<noteq> k \<Longrightarrow> entry_ok (L(k := v)) x"
  by (simp add: entry_ok_def)

lemma entry_ok_stored: "entry_ok L x \<Longrightarrow> L (jp_ID x) \<noteq> None"
  by (auto simp: entry_ok_def)

text \<open>A successful cancellation: the batch is answered, and it is what the store now holds.\<close>

definition cancelled_as ::
  "(heap \<times> 'd \<Rightarrow> string \<Rightarrow> BatchJob option) \<Rightarrow> string \<Rightarrow> Batch \<Rightarrow> response_writer
    \<Rightarrow> response_writer go_result \<Rightarrow> ('d, 'q, 'e) world \<Rightarrow> bool" where
  "cancelled_as look k b w res s' \<longleftrightarrow>
     res = Returns (WriteJSONResponse 200 (Inr (jprint (enc_Batch b))) w) \<and>
     (\<exists>j'. look (w_store s') k = Some j' \<and> carries j' b)"

text \<open>One call of a handler, or a worker taking a job; new identifiers are fresh.\<close>

inductive api_step ::
  "('d, 'q, 'e) BatchApiHandler \<Rightarrow> (heap \<times> 'd \<Rightarrow> string \<Rightarrow> BatchJob option)
    \<Rightarrow> ('d, 'q, 'e) world \<Rightarrow> ('d, 'q, 'e) world \<Rightarrow> bool"
  for c look where
  create: "look (w_store s) (batch_id uuid) = None \<Longrightarrow> int64_ok (Unix now1) \<Longrightarrow>
     CreateBatch c uuid now1 now2 rq w s = (res, s') \<Longrightarrow> api_step c look s s'"
| list: "ListBatches c rq w s = (res, s') \<Longrightarrow> api_step c look s s'"
| retrieve: "RetrieveBatch c rq w s = (res, s') \<Longrightarrow> api_step c look s s'"
| cancel: "int64_ok (Unix now) \<Longrightarrow> CancelBatch c now rq w s = (res, s') \<Longrightarrow> api_step c look s s'"
| dequeue: "pq_Dequeue (bh_queueClient c) timeout 1 (w_queue s) = Returns ((js, e), q) \<Longrightarrow>
     api_step c look s (s\<lparr>w_queue := q\<rparr>)"

section \<open>The service over any clients that keep their contracts\<close>

locale batch_service =
  job_store dbc look inv + job_queue pqc items qinv + event_channels ecl pending einv
  for dbc :: "'d db_client" and look :: "heap \<times> 'd \<Rightarrow> string \<Rightarrow> BatchJob option"
    and inv :: "heap \<times> 'd \<Rightarrow> bool" and pqc :: "'q queue_client"
    and items :: "'q \<Rightarrow> BatchJobPriority list" and qinv :: "'q \<Rightarrow> bool"
    and ecl :: "'e event_client" and pending :: "'e \<Rightarrow> string \<Rightarrow> BatchEvent list list"
    and einv :: "'e \<Rightarrow> bool" +
  fixes c :: "('d, 'q, 'e) BatchApiHandler"
  assumes clients: "bh_dbClient c = dbc" "bh_queueClient c = pqc" "bh_eventClient c = ecl"
begin

abbreviation "ok \<equiv> service_ok look inv items qinv einv"

text \<open>Storing the job of a valid request.\<close>

lemma create_cases:
  assumes s: "ok s" and fresh: "look (w_store s) (batch_id uuid) = None"
    and r: "decode_request (rq_Body rq) = Some (Some r)" "valid_request r"
      "ParseDuration (cr_CompletionWindow r) = Some d"
    and call: "CreateBatch c uuid now1 now2 rq w s = (res, s')"
  defines "job \<equiv> created_job (bh_config c) uuid now1 now2 r d"
    and "entry \<equiv> \<lparr>jp_ID = batch_id uuid, jp_SLO = now2 + d\<rparr>"
  shows "inv (w_store s') \<and> qinv (w_queue s') \<and> w_events s' = w_events s \<and>
     (res = Returns (WriteJSONResponse 200 (Inr (jprint (enc_Batch (created_batch uuid now1 r)))) w) \<and>
        look (w_store s') = (look (w_store s))(batch_id uuid \<mapsto> job) \<and>
        mset (items (w_queue s')) = add_mset entry (mset (items (w_queue s))) \<or>
      res = Returns (WriteInternalServerError w) \<and> items (w_queue s') = items (w_queue s) \<and>
        (look (w_store s') = look (w_store s) \<or>
         look (w_store s') = (look (w_store s))(batch_id uuid \<mapsto> job)))"
proof -
  obtain h db where hd: "w_store s = (h, db)" by fastforce
  obtain i e st where st: "db_Store dbc (length h) (h @ [job], db) = ((i, e), st)" by (metis prod.exhaust)
  obtain e2 q where q: "pq_Enqueue pqc entry (w_queue s) = (e2, q)" by fastforce
  obtain ids e3 st2 where del: "db_Delete dbc [batch_id uuid] st = ((ids, e3), st2)" by (metis prod.exhaust)
  have inv: "inv (h, db)" "qinv (w_queue s)" using s hd by (auto simp: service_ok_def)
  have new: "(h @ [job]) ! length h = job" by simp
  have st': "inv st" "look st = (if e = None then (look (h, db))(batch_id uuid \<mapsto> job) else look (h, db))"
    using store [OF alloc [OF inv(1), THEN conjunct1] _ st] alloc [OF inv(1), of job] new
    by (auto simp: job_def)
  have q': "qinv q" "if e2 = None then mset (items q) = add_mset entry (mset (items (w_queue s)))
      else items q = items (w_queue s)"
    using enqueue [OF inv(2) q] by auto
  have st2': "inv st2" "look st2 = (look st)(batch_id uuid := None) \<or> look st2 = look st"
    using delete [OF st'(1) del] by auto
  have gone: "(look (h, db))(batch_id uuid := None) = look (h, db)"
    using fresh hd by (simp add: fun_upd_idem_iff)
  have "(res, s') =
     (if e \<noteq> None then (Returns (WriteInternalServerError w), s\<lparr>w_store := st\<rparr>)
      else if e2 \<noteq> None then
        (Returns (WriteInternalServerError w), s\<lparr>w_store := st2, w_queue := q\<rparr>)
      else (Returns (WriteJSONResponse 200 (Inr (jprint (enc_Batch (created_batch uuid now1 r)))) w),
            s\<lparr>w_store := st, w_queue := q\<rparr>))"
    using CreateBatch_valid [OF r hd, of c uuid now1 now2 i e st e2 q ids e3 st2 w] call st q del
    by (simp add: clients job_def entry_def)
  then show ?thesis
    using st' q' st2' inv hd gone by (cases e; cases e2) auto
qed

lemma create_ok:
  assumes s: "ok s" and fresh: "look (w_store s) (batch_id uuid) = None" and now: "int64_ok (Unix now1)"
    and call: "CreateBatch c uuid now1 now2 rq w s = (res, s')"
  shows "ok s'"
proof (rule CreateBatch_total [of c uuid now1 now2 rq w s])
  assume "snd (CreateBatch c uuid now1 now2 rq w s) = s"
  then show ?thesis using s call by simp
next
  fix r d
  assume r: "decode_request (rq_Body rq) = Some (Some r)" "valid_request r"
    "ParseDuration (cr_CompletionWindow r) = Some d"
  define job where "job = created_job (bh_config c) uuid now1 now2 r d"
  define entry where "entry = \<lparr>jp_ID = batch_id uuid, jp_SLO = now2 + d\<rparr>"
  define L where "L = look (w_store s)"
  note cases = create_cases [OF s fresh r call, folded job_def entry_def L_def]
  have job: "carries job (created_batch uuid now1 r)"
    unfolding job_def by (rule carries_created [OF decode_request_strings_ok [OF r(1)] now])
  have inL: "jobs_ok L" "\<forall>x \<in> set (items (w_queue s)). entry_ok L x"
    "distinct (map jp_ID (items (w_queue s)))" "einv (w_events s)"
    using s by (auto simp: service_ok_def L_def)
  have notin: "\<forall>x \<in> set (items (w_queue s)). jp_ID x \<noteq> batch_id uuid"
    using inL(2) fresh entry_ok_stored by (fastforce simp: L_def)
  have old: "\<forall>x \<in> set (items (w_queue s)). entry_ok (L(batch_id uuid \<mapsto> job)) x"
    using inL(2) notin entry_ok_upd by blast
  have new: "entry_ok (L(batch_id uuid \<mapsto> job)) entry"
    using job
    by (auto simp: entry_ok_def entry_def job_def created_batch_def create_status_def)
  have L': "jobs_ok (L(batch_id uuid \<mapsto> job))" using inL(1) job by (rule jobs_ok_put)
  have grown: "set q = insert entry (set (items (w_queue s))) \<and> distinct (map jp_ID q)"
    if m: "mset q = add_mset entry (mset (items (w_queue s)))" for q
  proof -
    have "mset q = mset (entry # items (w_queue s))" using m by simp
    then have "set q = set (entry # items (w_queue s))"
      "mset (map jp_ID q) = mset (map jp_ID (entry # items (w_queue s)))"
      by (metis set_mset_mset) (use m in simp)
    then show ?thesis
      using inL(3) notin mset_eq_imp_distinct_iff [of "map jp_ID q" "map jp_ID (entry # items (w_queue s))"]
      by (auto simp: entry_def image_iff)
  qed
  from cases have base: "inv (w_store s')" "qinv (w_queue s')" "einv (w_events s')"
    using inL(4) by auto
  from cases consider
      "look (w_store s') = L(batch_id uuid \<mapsto> job)"
      "mset (items (w_queue s')) = add_mset entry (mset (items (w_queue s)))"
    | "look (w_store s') = L \<or> look (w_store s') = L(batch_id uuid \<mapsto> job)"
      "items (w_queue s') = items (w_queue s)"
    by blast
  then show ?thesis
  proof cases
    case 1
    then show ?thesis using base L' old new grown [OF 1(2)] by (simp add: service_ok_def)
  next
    case 2
    then show ?thesis using base L' old inL by (auto simp: service_ok_def)
  qed
qed

text \<open>Writing a new status.\<close>

lemma update_status_cases:
  assumes inv: "inv (h, d)" and p: "p < length h" and l: "look (h, d) k = Some j"
    and same: "same_job (h ! p) j" and old: "carries j b0"
    and new: "b_ID b = b_ID b0" "b_Spec b = b_Spec b0" "BatchStatusInfo_ok (b_Status b)"
    and call: "update_status c p b w s = (res, s')" and s: "w_store s = (h, d)"
  shows "inv (w_store s') \<and> w_queue s' = w_queue s \<and> w_events s' = w_events s \<and>
     (\<exists>j'. job_SLO j' = job_SLO j \<and> look (w_store s') = (look (h, d))(k \<mapsto> j') \<and>
        (carries j' b \<and> res = Returns (WriteJSONResponse 200 (Inr (jprint (enc_Batch b))) w) \<or>
         (carries j' b \<or> carries j' b0) \<and> res = Returns (WriteInternalServerError w)))"
proof -
  define v where "v = jprint (enc_BatchStatusInfo (b_Status b))"
  define h1 where "h1 = h[p := (h ! p)\<lparr>job_Status := v\<rparr>]"
  obtain e st where st: "db_Update dbc p (h1, d) = (e, st)" by (metis prod.exhaust)
  have k: "job_ID (h ! p) = k" "job_ID j = k"
    using look_ID [OF inv l] same by (simp_all add: same_job_def)
  have h1p: "h1 ! p = (h ! p)\<lparr>job_Status := v\<rparr>" "p < length h1" using p by (simp_all add: h1_def)
  have inv1: "inv (h1, d)" and look1: "look (h1, d) = look (h, d) \<or>
      look (h1, d) = (look (h, d))(k \<mapsto> j\<lparr>job_Status := v\<rparr>)"
    using put_status [OF inv p, of v] l k by (auto simp: h1_def)
  from look1 obtain j1 where j1: "look (h1, d) = (look (h, d))(k \<mapsto> j1)" "j1 = j \<or> j1 = j\<lparr>job_Status := v\<rparr>"
    using l by (metis map_upd_triv)
  have carry1: "carries (j\<lparr>job_Status := v\<rparr>) b"
    using carries_mark [OF old new] by (simp add: v_def)
  have same1: "same_job (j1\<lparr>job_Status := job_Status (h1 ! p)\<rparr>) (h1 ! p)"
    using same j1(2) h1p by (auto simp: same_job_def)
  have id1: "job_ID (h1 ! p) = k" and l1: "look (h1, d) (job_ID (h1 ! p)) = Some j1"
    using j1(1) k(1) h1p(1) by simp_all
  have upd: "inv st \<and> (if e = None then (\<exists>j'. same_job j' (h1 ! p) \<and> look st = (look (h1, d))(k \<mapsto> j'))
      else look st = look (h1, d))"
    using update [OF inv1 h1p(2) l1 same1 st] unfolding id1 .
  have r: "(res, s') = (Returns (if e \<noteq> None then WriteInternalServerError w
      else WriteJSONResponse 200 (Inr (jprint (enc_Batch b))) w), s\<lparr>w_store := st\<rparr>)"
    using call s st clients(1) by (simp add: update_status_def Let_def h1_def v_def split: if_splits)
  show ?thesis
  proof (cases e)
    case None
    with upd obtain j' where j': "same_job j' (h1 ! p)" "look st = (look (h1, d))(k \<mapsto> j')" by auto
    have "same_job j' (j\<lparr>job_Status := v\<rparr>)"
      using j'(1) same h1p(1) by (simp add: same_job_def)
    then have "carries j' b" "job_SLO j' = job_SLO j"
      using carry1 carries_same [of j' "j\<lparr>job_Status := v\<rparr>" b] by (auto simp: same_job_def)
    then show ?thesis using r None upd j' j1 by auto
  next
    case (Some err)
    have "carries j1 b \<or> carries j1 b0" "job_SLO j1 = job_SLO j"
      using j1(2) carry1 old by auto
    then show ?thesis using r Some upd j1 by auto
  qed
qed

text \<open>The last part of a cancellation, from a state in which the job is out of the queue.\<close>

lemma cancel_update:
  assumes s: "ok s" and st: "inv st" "look st = look (w_store s)" "look (w_store s) k = Some j"
    and p: "p < length (fst st)" "same_job (fst st ! p) j" and b0: "carries j b0"
    and b: "b_ID b = b_ID b0" "b_Spec b = b_Spec b0" "BatchStatusInfo_ok (b_Status b)"
    and q: "qinv q" "items q = filter (\<lambda>x. jp_ID x \<noteq> k) (items (w_queue s))" and ev: "einv ev"
    and call: "update_status c p b w (s\<lparr>w_store := st, w_queue := q, w_events := ev\<rparr>) = (res, s')"
  shows "ok s' \<and> w_queue s' = q \<and> w_events s' = ev \<and>
     (\<exists>j'. look (w_store s') = (look (w_store s))(k \<mapsto> j') \<and>
        (carries j' b \<and> res = Returns (WriteJSONResponse 200 (Inr (jprint (enc_Batch b))) w) \<or>
         res = Returns (WriteInternalServerError w)))"
proof -
  obtain h d where hd: "st = (h, d)" by fastforce
  have h: "inv (h, d)" "p < length h" "look (h, d) k = Some j" "same_job (h ! p) j"
    using st p hd by auto
  have s1: "w_store (s\<lparr>w_store := st, w_queue := q, w_events := ev\<rparr>) = (h, d)" using hd by simp
  from update_status_cases [OF h b0 b call s1] obtain j' where
    base: "inv (w_store s')" "w_queue s' = q" "w_events s' = ev"
    and L': "look (w_store s') = (look (w_store s))(k \<mapsto> j')"
    and res: "carries j' b \<and> res = Returns (WriteJSONResponse 200 (Inr (jprint (enc_Batch b))) w) \<or>
         (carries j' b \<or> carries j' b0) \<and> res = Returns (WriteInternalServerError w)"
    using st(2) hd by auto
  have inL: "jobs_ok (look (w_store s))" "\<forall>x \<in> set (items (w_queue s)). entry_ok (look (w_store s)) x"
    "distinct (map jp_ID (items (w_queue s)))"
    using s by (auto simp: service_ok_def)
  have "jobs_ok (look (w_store s'))" using jobs_ok_put [OF inL(1)] res L' by auto
  moreover have "\<forall>x \<in> set (items q). entry_ok (look (w_store s')) x"
    using inL(2) q(2) by (auto simp: L' entry_ok_upd)
  moreover have "distinct (map jp_ID (items q))" using inL(3) q(2) by (simp add: distinct_map_filter)
  ultimately have "ok s'" using base q ev by (simp add: service_ok_def)
  then show ?thesis using base L' res by blast
qed

lemma ok_store: "ok s \<Longrightarrow> inv st \<Longrightarrow> look st = look (w_store s) \<Longrightarrow> ok (s\<lparr>w_store := st\<rparr>)"
  by (simp add: service_ok_def)

text \<open>What \<open>Get\<close> finds for an identifier, in a state of the service.\<close>

lemma get_found:
  assumes s: "ok s"
    and found: "db_Get dbc [k] [] TagsLogicalCondNa True 0 1 (w_store s) = ((ps, cur, None), st)"
  obtains "look (w_store s) k = None" "ps = []"
  | j b p where "look (w_store s) k = Some j" "ps = [p]" "p < length (fst st)"
      "same_job (fst st ! p) j" "carries j b" "jobToBatch (fst st ! p) = Inr b"
proof -
  have inv: "inv (w_store s)" "jobs_ok (look (w_store s))" using s by (auto simp: service_ok_def)
  show ?thesis
  proof (cases "look (w_store s) k")
    case None
    then show ?thesis using that(1) get [OF inv(1) found] by simp
  next
    case (Some j)
    then obtain b where b: "carries j b" using inv(2) by (auto simp: jobs_ok_def)
    obtain p where p: "ps = [p]" "p < length (fst st)" "same_job (fst st ! p) j"
      using get [OF inv(1) found] Some by auto
    have "jobToBatch (fst st ! p) = Inr b"
      using jobToBatch_same [OF p(3)] jobToBatch_carries [OF b] by simp
    then show ?thesis by (rule that(2) [OF Some p b])
  qed
qed

text \<open>Identifiers in the queue are distinct, so \<open>Remove\<close> takes the job out.\<close>

lemma removed_items:
  assumes s: "ok s" and rem: "pq_Remove pqc \<lparr>jp_ID = k, jp_SLO = 0\<rparr> (w_queue s) = ((n, e), q)"
  shows "qinv q \<and>
     (if e = None then (0 < n \<longleftrightarrow> k \<in> jp_ID ` set (items (w_queue s))) \<and>
        items q = filter (\<lambda>x. jp_ID x \<noteq> k) (items (w_queue s))
      else items q = items (w_queue s))"
proof -
  have inv: "qinv (w_queue s)" "distinct (map jp_ID (items (w_queue s)))"
    using s by (auto simp: service_ok_def)
  note r = remove [OF inv(1) rem]
  have "items q = filter (\<lambda>x. jp_ID x \<noteq> k) (items (w_queue s))" if "e = None"
  proof -
    have "\<forall>x \<in> set (items q). jp_ID x \<noteq> k" using r that inv(2) by simp
    then have "filter (\<lambda>x. jp_ID x \<noteq> k) (items q) = items q" by (rule filter_True)
    then have "items q = filter (\<lambda>x. jp_ID x \<noteq> k) (items q)" by (rule sym)
    also have "\<dots> = filter (\<lambda>x. jp_ID x \<noteq> k) (items (w_queue s))" using r that by simp
    finally show ?thesis .
  qed
  moreover have "(\<exists>x \<in> set (items (w_queue s)). jp_ID x = k) \<longleftrightarrow> k \<in> jp_ID ` set (items (w_queue s))"
    by auto
  ultimately show ?thesis using r by (cases e) simp_all
qed

lemma cancel_cases:
  assumes s: "ok s" and k: "PathValue rq ''batch_id'' = k" "k \<noteq> []" and now: "int64_ok (Unix now)"
    and call: "CancelBatch c now rq w s = (res, s')"
  shows "ok s' \<and> (\<forall>x. x \<noteq> k \<longrightarrow> look (w_store s') x = look (w_store s) x) \<and>
     (\<forall>x. x \<noteq> k \<longrightarrow> pending (w_events s') x = pending (w_events s) x) \<and>
     filter (\<lambda>x. jp_ID x \<noteq> k) (items (w_queue s')) = filter (\<lambda>x. jp_ID x \<noteq> k) (items (w_queue s)) \<and>
     (res = Returns (WriteInternalServerError w) \<or>
      (case look (w_store s) k of
         None \<Rightarrow> res = Returns (not_found k w) \<and> look (w_store s') = look (w_store s) \<and>
           w_queue s' = w_queue s \<and> w_events s' = w_events s
       | Some j \<Rightarrow> \<exists>b. carries j b \<and>
           (if IsFinal (st_Status (b_Status b)) then
              res = Returns (bad_request (''Batch with status '' @ st_Status (b_Status b) @ '' cannot be cancelled'') w) \<and>
              look (w_store s') = look (w_store s) \<and> w_queue s' = w_queue s \<and> w_events s' = w_events s
            else if k \<in> jp_ID ` set (items (w_queue s)) then
              cancelled_as look k (mark_cancelled now b) w res s' \<and> w_events s' = w_events s
            else cancelled_as look k (mark_cancelling now b) w res s' \<and>
              (\<exists>sent e. ec_ProducerSendEvents ecl
                  [\<lparr>ev_ID = k, ev_Type = BatchEventCancel, ev_TTL = sv_BatchTTLSeconds (bh_config c)\<rparr>]
                  (w_events s) = Returns ((sent, e), w_events s')) \<and>
              list_all2 (\<lambda>old new. new = old \<or> new = old @
                  [\<lparr>ev_ID = k, ev_Type = BatchEventCancel, ev_TTL = sv_BatchTTLSeconds (bh_config c)\<rparr>])
                (pending (w_events s) k) (pending (w_events s') k))))"
proof -
  let ?ev = "\<lparr>ev_ID = k, ev_Type = BatchEventCancel, ev_TTL = sv_BatchTTLSeconds (bh_config c)\<rparr>"
  obtain ps cur e st where get0: "db_Get dbc [k] [] TagsLogicalCondNa True 0 1 (w_store s) = ((ps, cur, e), st)"
    by (metis prod.exhaust)
  then have get1: "db_Get (bh_dbClient c) [k] [] TagsLogicalCondNa True 0 1 (w_store s) = ((ps, cur, e), st)"
    using clients by simp
  have inv: "inv (w_store s)" "qinv (w_queue s)" "einv (w_events s)"
    "distinct (map jp_ID (items (w_queue s)))"
    using s by (auto simp: service_ok_def)
  have st: "inv st" "look st = look (w_store s)" using get_frame [OF inv(1) get0] by auto
  show ?thesis
  proof (cases e)
    case (Some err)
    then show ?thesis
      using CancelBatch_early(1) [OF k get1, of now w] call ok_store [OF s st] st by auto
  next
    case None
    note e = this
    show ?thesis
    proof (rule get_found [OF s get0 [unfolded e]])
      assume "look (w_store s) k = None" "ps = []"
      then show ?thesis
        using CancelBatch_early(2) [OF k get1 e, of now w] call ok_store [OF s st] st by auto
    next
      fix j b p
      assume j: "look (w_store s) k = Some j" and p: "ps = [p]" "p < length (fst st)" "same_job (fst st ! p) j"
        and b: "carries j b" "jobToBatch (fst st ! p) = Inr b"
      show ?thesis
      proof (cases "IsFinal (st_Status (b_Status b))")
        case True
        then show ?thesis
          using CancelBatch_early(3) [OF k get1 e p(1) b(2), of now w] call ok_store [OF s st] st j b(1)
          by auto
      next
        case False
        obtain n er q where rem: "pq_Remove pqc \<lparr>jp_ID = k, jp_SLO = 0\<rparr> (w_queue s) = ((n, er), q)"
          by (metis prod.exhaust)
        let ?s1 = "s\<lparr>w_store := st, w_queue := q\<rparr>"
        have call': "(res, s') = (if er \<noteq> None then (Returns (WriteInternalServerError w), ?s1)
            else if 0 < n then update_status c p (mark_cancelled now b) w ?s1
            else (case ec_ProducerSendEvents ecl [?ev] (w_events s) of
              Panics msg \<Rightarrow> (Panics msg, ?s1)
            | Blocks \<Rightarrow> (Blocks, ?s1)
            | Returns ((_, e), events) \<Rightarrow>
                (if e \<noteq> None then (Returns (WriteInternalServerError w), ?s1\<lparr>w_events := events\<rparr>)
                 else update_status c p (mark_cancelling now b) w (?s1\<lparr>w_events := events\<rparr>))))"
          using CancelBatch_found [OF k get1 [unfolded e p(1)] b(2) False, of n er q now w] rem call
          by (simp add: clients)
        have q: "qinv q" "er \<noteq> None \<Longrightarrow> items q = items (w_queue s)"
          "er = None \<Longrightarrow> 0 < n \<longleftrightarrow> k \<in> jp_ID ` set (items (w_queue s))"
          "er = None \<Longrightarrow> items q = filter (\<lambda>x. jp_ID x \<noteq> k) (items (w_queue s))"
          using removed_items [OF s rem] by auto
        have mk: "BatchStatusInfo_ok (b_Status (mark_cancelled now b))"
          "BatchStatusInfo_ok (b_Status (mark_cancelling now b))"
          using mark_ok [OF _ now] b(1) by (auto simp: carries_def)
        note finish = cancel_update [OF s st j p(2,3) b(1) _ _ _ q(1) q(4)]
        consider (err) "er \<noteq> None" | (queued) "er = None" "0 < n" | (running) "er = None" "\<not> 0 < n"
          by blast
        then show ?thesis
        proof cases
          case err
          then have "ok s'" "res = Returns (WriteInternalServerError w)" "s' = ?s1"
            using call' s st q by (auto simp: service_ok_def)
          then show ?thesis using st q(2) err by simp
        next
          case queued
          have "update_status c p (mark_cancelled now b) w (?s1\<lparr>w_events := w_events s\<rparr>) = (res, s')"
            using call' queued by simp
          from finish [OF _ _ mk(1) queued(1) inv(3) this] show ?thesis
            using queued q(3,4) j b(1) False by (auto simp: cancelled_as_def)
        next
          case running
          obtain sent e3 ev where snd: "ec_ProducerSendEvents ecl [?ev] (w_events s) = Returns ((sent, e3), ev)"
            and ev: "einv ev" "\<forall>x. x \<noteq> k \<longrightarrow> pending ev x = pending (w_events s) x"
              "list_all2 (\<lambda>old new. new = old \<or> new = old @ [?ev]) (pending (w_events s) k) (pending ev k)"
            using send [OF inv(3), of ?ev] by auto
          show ?thesis
          proof (cases e3)
            case None
            then have "update_status c p (mark_cancelling now b) w (?s1\<lparr>w_events := ev\<rparr>) = (res, s')"
              using call' running snd by simp
            from finish [OF _ _ mk(2) running(1) ev(1) this] show ?thesis
              using running q(3,4) j b(1) False ev snd by (auto simp: cancelled_as_def)
          next
            case (Some x)
            then have r: "res = Returns (WriteInternalServerError w)" "s' = ?s1\<lparr>w_events := ev\<rparr>"
              using call' running snd by simp_all
            have "ok s'"
              using r s st q(1) q(4) [OF running(1)] ev(1)
              by (auto simp: service_ok_def distinct_map_filter)
            then show ?thesis using r st q(4) [OF running(1)] ev by simp
          qed
        qed
      qed
    qed
  qed
qed

text \<open>Reading changes nothing a client can see.\<close>

lemma list_frame:
  assumes s: "ok s" and call: "ListBatches c rq w s = (res, s')"
  shows "ok s' \<and> look (w_store s') = look (w_store s) \<and> w_queue s' = w_queue s \<and> w_events s' = w_events s"
proof -
  have inv: "inv (w_store s)" using s by (simp add: service_ok_def)
  show ?thesis
  proof (cases "parse_limit rq")
    case (Inl msg)
    then show ?thesis using ListBatches_rejects(1) [of rq msg c w s] call s by simp
  next
    case (Inr limit)
    show ?thesis
    proof (cases "parse_after rq")
      case (Inl msg)
      then show ?thesis using ListBatches_rejects(2) [OF Inr, of msg c w s] call s by simp
    next
      case (Inr after)
      obtain ps cur e st where g:
        "db_Get dbc [] [] TagsLogicalCondNa True after (limit + 1) (w_store s) = ((ps, cur, e), st)"
        by (metis prod.exhaust)
      then have "s' = s\<lparr>w_store := st\<rparr>"
        using ListBatches_page [OF \<open>parse_limit rq = Inr limit\<close> Inr, of c s ps cur e st w] call clients
        by simp
      then show ?thesis using get_frame [OF inv g] ok_store [OF s] by auto
    qed
  qed
qed

lemma retrieve_cases:
  assumes s: "ok s" and k: "PathValue rq ''batch_id'' = k" "k \<noteq> []"
    and call: "RetrieveBatch c rq w s = (res, s')"
  shows "ok s' \<and> look (w_store s') = look (w_store s) \<and> w_queue s' = w_queue s \<and> w_events s' = w_events s \<and>
     (res = Returns (WriteInternalServerError w) \<or>
      (case look (w_store s) k of
         None \<Rightarrow> res = Returns (not_found k w)
       | Some j \<Rightarrow> \<exists>b. carries j b \<and> res = Returns (WriteJSONResponse 200 (Inr (jprint (enc_Batch b))) w)))"
proof -
  obtain ps cur e st where g: "db_Get dbc [k] [] TagsLogicalCondNa True 0 1 (w_store s) = ((ps, cur, e), st)"
    by (metis prod.exhaust)
  have inv: "inv (w_store s)" using s by (simp add: service_ok_def)
  have r: "(res, s') = (Returns (if e \<noteq> None then WriteInternalServerError w
       else if ps = [] then not_found k w
       else (case jobToBatch (fst st ! (ps ! 0)) of
           Inl _ \<Rightarrow> WriteInternalServerError w
         | Inr b \<Rightarrow> WriteJSONResponse 200 (Inr (jprint (enc_Batch b))) w)), s\<lparr>w_store := st\<rparr>)"
    using RetrieveBatch_result [OF k, of c s ps cur e st w] g call clients by simp
  have frame: "ok s'" "look (w_store s') = look (w_store s)" "w_queue s' = w_queue s" "w_events s' = w_events s"
    using get_frame [OF inv g] ok_store [OF s] r by auto
  show ?thesis
  proof (cases e)
    case None
    show ?thesis
    proof (rule get_found [OF s g [unfolded None]])
      assume "look (w_store s) k = None" "ps = []"
      then show ?thesis using r None frame by simp
    next
      fix j b p
      assume "look (w_store s) k = Some j" "ps = [p]" "carries j b" "jobToBatch (fst st ! p) = Inr b"
      then show ?thesis using r None frame by auto
    qed
  next
    case (Some err)
    then show ?thesis using r frame by simp
  qed
qed

lemma retrieve_ok: "ok s \<Longrightarrow> RetrieveBatch c rq w s = (res, s') \<Longrightarrow> ok s'"
  using retrieve_cases [of s rq "PathValue rq ''batch_id''" w res s']
  by (cases "PathValue rq ''batch_id'' = []") (auto simp: RetrieveBatch_def Let_def)

lemma cancel_ok: "ok s \<Longrightarrow> int64_ok (Unix now) \<Longrightarrow> CancelBatch c now rq w s = (res, s') \<Longrightarrow> ok s'"
  using cancel_cases [of s rq "PathValue rq ''batch_id''" now w res s']
  by (cases "PathValue rq ''batch_id'' = []") (auto simp: CancelBatch_def Let_def)

lemma dequeue_ok:
  assumes s: "ok s" and call: "pq_Dequeue pqc timeout 1 (w_queue s) = Returns ((js, e), q)"
  shows "ok (s\<lparr>w_queue := q\<rparr>)"
proof -
  have "qinv (w_queue s)" using s by (simp add: service_ok_def)
  from dequeue [OF this call] have "qinv q" "items (w_queue s) = items q \<or> items (w_queue s) = js @ items q"
    by (auto split: if_splits)
  then show ?thesis using s by (auto simp: service_ok_def)
qed

lemma step_ok: "api_step c look s s' \<Longrightarrow> ok s \<Longrightarrow> ok s'"
proof (induction rule: api_step.induct)
  case (dequeue timeout s js e q)
  then show ?case using dequeue_ok clients by simp
qed (blast intro: create_ok retrieve_ok cancel_ok dest: list_frame)+

lemma run_ok: "(api_step c look)\<^sup>*\<^sup>* s s' \<Longrightarrow> ok s \<Longrightarrow> ok s'"
  by (induction rule: rtranclp_induct) (auto intro: step_ok)

end

section \<open>The service on the in-memory clients\<close>

abbreviation mock_handler ::
  "ServerConfig \<Rightarrow> range_order \<Rightarrow> (duration \<Rightarrow> (bool \<times> error option) list) \<Rightarrow> select_obs
    \<Rightarrow> (MockBatchDBClient, MockBatchPriorityQueueClient, MockBatchEventChannelClient) BatchApiHandler" where
  "mock_handler cfg ord clock obs \<equiv>
     NewBatchApiHandler cfg (mock_db ord) (mock_queue clock) (mock_event obs)"

type_synonym mock_world =
  "(MockBatchDBClient, MockBatchPriorityQueueClient, MockBatchEventChannelClient) world"

definition mock_world :: mock_world where
  "mock_world = \<lparr>w_store = ([], NewMockBatchDBClient), w_queue = NewMockBatchPriorityQueueClient,
     w_events = NewMockBatchEventChannelClient\<rparr>"

abbreviation mock_ok :: "mock_world \<Rightarrow> bool" where
  "mock_ok \<equiv> service_ok mdb_look mdb_inv mpq_queue mpq_inv mev_inv"

interpretation svc: batch_service "mock_db ord" mdb_look mdb_inv "mock_queue clock" mpq_queue mpq_inv
  "mock_event obs" mev_pending mev_inv "mock_handler cfg ord clock obs"
  for ord clock obs cfg
  by unfold_locales (simp_all add: NewBatchApiHandler_def)

lemma mock_world_ok: "mock_ok mock_world"
  by (simp add: service_ok_def mock_world_def jobs_ok_def)
    (simp add: mdb_look_def NewMockBatchDBClient_def NewMockBatchPriorityQueueClient_def mpq_inv_def)

end
