(* ===== verification/ApiContract.thy ===== *)
theory ApiContract
  imports BatchService
begin

text \<open>
  The properties of the Batch API as a client of the server sees them, on the in-memory clients:
  what create, retrieve, list and cancel answer and what they leave in the database, the queue
  and the event channels. Each one is followed by a run of the handlers on a concrete request.
\<close>

section \<open>The handlers on the in-memory clients\<close>

lemma mock_store_ok: "db_Store (mock_db ord) p s = ((i, e), st) \<Longrightarrow> e = None"
  by (auto simp: store_simps Let_def split: prod.splits)

lemma mock_get_ok: "db_Get (mock_db ord) ks ts cond b start limit s = ((ps, cur, e), st) \<Longrightarrow> e = None \<and> st = s"
  by (auto simp: store_simps Let_def)

lemma mock_enqueue_ok: "pq_Enqueue (mock_queue clock) x q = (e, q') \<Longrightarrow> e = None \<and> q' = snd (mpq_Enqueue x q)"
  by (auto simp: mock_queue_def mpq_Enqueue_def)

lemma mock_get_id:
  "db_Get (mock_db ord) [k] [] TagsLogicalCondNa True 0 1 s =
     ((case map_of (mdb_jobs (snd s)) k of None \<Rightarrow> [] | Some p \<Rightarrow> [p], 0, None), s)"
  by (auto simp: store_simps Let_def split: option.splits)

text \<open>A valid request is stored, queued and answered with its batch.\<close>

lemma mock_create:
  assumes s: "mock_ok s" and fresh: "mdb_look (w_store s) (batch_id uuid) = None"
    and r: "decode_request (rq_Body rq) = Some (Some r)" "valid_request r"
      "ParseDuration (cr_CompletionWindow r) = Some d"
    and call: "CreateBatch (mock_handler cfg ord clock obs) uuid now1 now2 rq w s = (res, s')"
  defines "entry \<equiv> \<lparr>jp_ID = batch_id uuid, jp_SLO = now2 + d\<rparr>"
  shows "res = Returns (WriteJSONResponse 200 (Inr (jprint (enc_Batch (created_batch uuid now1 r)))) w)"
    and "mdb_look (w_store s') =
        (mdb_look (w_store s))(batch_id uuid \<mapsto> created_job cfg uuid now1 now2 r d)"
    and "w_queue s' = snd (mpq_Enqueue entry (w_queue s))" and "w_events s' = w_events s"
proof -
  obtain h db where hd: "w_store s = (h, db)" by fastforce
  let ?job = "created_job cfg uuid now1 now2 r d"
  let ?H = "mock_handler cfg ord clock obs"
  obtain i e st where st: "db_Store (mock_db ord) (length h) (h @ [?job], db) = ((i, e), st)"
    by (metis prod.exhaust)
  obtain e2 q where q: "pq_Enqueue (mock_queue clock) entry (w_queue s) = (e2, q)" by fastforce
  obtain ids e3 st2 where del: "db_Delete (mock_db ord) [batch_id uuid] st = ((ids, e3), st2)"
    by (metis prod.exhaust)
  have "e = None" "e2 = None" "q = snd (mpq_Enqueue entry (w_queue s))"
    using mock_store_ok [OF st] mock_enqueue_ok [OF q] by auto
  then have run: "(res, s') =
      (Returns (WriteJSONResponse 200 (Inr (jprint (enc_Batch (created_batch uuid now1 r)))) w),
       s\<lparr>w_store := st, w_queue := q\<rparr>)"
    using CreateBatch_valid [OF r hd, of ?H uuid now1 now2 i e st e2 q ids e3 st2 w] call st q del
    by (simp add: entry_def)
  then show "res = Returns (WriteJSONResponse 200 (Inr (jprint (enc_Batch (created_batch uuid now1 r)))) w)"
    by simp
  show "w_queue s' = snd (mpq_Enqueue entry (w_queue s))" "w_events s' = w_events s"
    using run \<open>q = _\<close> by simp_all
  have inv: "mdb_inv (h, db)" using s hd by (simp add: service_ok_def)
  have "mdb_look st = (mdb_look (h, db))(batch_id uuid \<mapsto> ?job)"
    using mdb.store [OF mdb.alloc [OF inv, THEN conjunct1] _ st] mdb.alloc [OF inv, of ?job] \<open>e = None\<close>
    by simp
  then show "mdb_look (w_store s') =
        (mdb_look (w_store s))(batch_id uuid \<mapsto> ?job)"
    using run hd by simp
qed

lemma mock_retrieve:
  assumes k: "PathValue rq ''batch_id'' = k" "k \<noteq> []"
  shows "RetrieveBatch (mock_handler cfg ord clock obs) rq w s =
     (Returns (case mdb_look (w_store s) k of
         None \<Rightarrow> not_found k w
       | Some j \<Rightarrow> (case jobToBatch j of
             Inl _ \<Rightarrow> WriteInternalServerError w
           | Inr b \<Rightarrow> WriteJSONResponse 200 (Inr (jprint (enc_Batch b))) w)), s)"
  using RetrieveBatch_result [OF k, of "mock_handler cfg ord clock obs" s, unfolded handler_simps,
      OF mock_get_id]
  by (cases "map_of (mdb_jobs (snd (w_store s))) k") (simp_all add: mdb_look_def)

lemma status_500_only: "rw_status w \<noteq> Some 500 \<Longrightarrow> w \<noteq> WriteInternalServerError new_writer"
  by (auto simp: rest_simps)

lemma mock_ok_carries: "mock_ok s \<Longrightarrow> mdb_look (w_store s) k = Some j \<Longrightarrow> \<exists>b. carries j b"
  by (auto simp: service_ok_def intro: jobs_ok_carries)

text \<open>A queued job is \<open>validating\<close>: one that carries another status is not in the queue.\<close>

lemma entry_not_status:
  assumes "entry_ok L x" and "L k = Some j" and "carries j b"
    and "st_Status (b_Status b) \<noteq> BatchStatusValidating"
  shows "jp_ID x \<noteq> k"
  using assms carries_unique by (fastforce simp: entry_ok_def)

text \<open>The write of a cancellation succeeds: the job is stored under the pointer \<open>Get\<close> returned.\<close>

lemma mock_update_status:
  assumes "mdb_inv (w_store s)" and "map_of (mdb_jobs (snd (w_store s))) k = Some p"
  shows "fst (update_status (mock_handler cfg ord clock obs) p b w s)
       = Returns (WriteJSONResponse 200 (Inr (jprint (enc_Batch b))) w)"
  using mdb_inv_entry [OF assms] assms(2)
  by (auto simp: update_status_def store_simps Let_def split: prod.splits)

text \<open>The only error the in-memory clients can report during a cancellation is a dead context.\<close>

lemma mock_cancel_no_500:
  assumes s: "mock_ok s" and k: "PathValue rq ''batch_id'' = k" "k \<noteq> []"
    and live: "k \<in> jp_ID ` set (mpq_queue (w_queue s)) \<or> (\<forall>n. fst (obs n) = None)"
  shows "fst (CancelBatch (mock_handler cfg ord clock obs) now rq new_writer s)
       \<noteq> Returns (WriteInternalServerError new_writer)"
proof -
  let ?H = "mock_handler cfg ord clock obs"
  note early = CancelBatch_early [OF k, of ?H s, unfolded handler_simps, OF mock_get_id]
  have inv: "mdb_inv (w_store s)" "mev_inv (w_events s)" using s by (auto simp: service_ok_def)
  show ?thesis
  proof (cases "map_of (mdb_jobs (snd (w_store s))) k")
    case None
    then show ?thesis
      using early(2) by (simp add: not_found_def) (rule status_500_only, simp add: rest_simps)
  next
    case (Some p)
    let ?j = "fst (w_store s) ! p"
    obtain b where b: "carries ?j b" using mock_ok_carries [OF s] Some by (auto simp: mdb_look_def)
    note jb = jobToBatch_carries [OF b]
    show ?thesis
    proof (cases "IsFinal (st_Status (b_Status b))")
      case True
      then show ?thesis
        using early(3) [OF refl _ jb] Some
        by (simp add: bad_request_def) (rule status_500_only, simp add: rest_simps)
    next
      case False
      obtain n e q where rem: "pq_Remove (mock_queue clock) \<lparr>jp_ID = k, jp_SLO = 0\<rparr> (w_queue s) = ((n, e), q)"
        by (metis prod.exhaust)
      have n: "e = None" "0 < n \<longleftrightarrow> k \<in> jp_ID ` set (mpq_queue (w_queue s))"
        using rem svc.removed_items [OF s rem] by (auto simp: mock_queue_def mpq_Remove_def split: prod.splits)
      let ?s1 = "s\<lparr>w_store := w_store s, w_queue := q\<rparr>"
      let ?ev = "\<lparr>ev_ID = k, ev_Type = BatchEventCancel, ev_TTL = sv_BatchTTLSeconds cfg\<rparr>"
      have wrote: "fst (update_status ?H p b' new_writer s') \<noteq> Returns (WriteInternalServerError new_writer)"
        if "w_store s' = w_store s" for b' s'
        using mock_update_status [of s' k p cfg ord clock obs b' new_writer] inv(1) Some that
        by simp (rule status_500_only, simp add: rest_simps)
      show ?thesis
      proof (cases "0 < n")
        case True
        then show ?thesis
          using CancelBatch_found [OF k, of ?H s p 0 "w_store s" b n e q now new_writer] jb False n rem
            mock_get_id [of ord k "w_store s"] Some wrote [of ?s1]
          by simp
      next
        case no: False
        then have "\<forall>n. fst (obs n) = None" using live n by simp
        from send_live [OF this inv(2), of ?ev] obtain sent ev' where
          "mev_ProducerSendEvents obs [?ev] (w_events s) = Returns ((sent, None), ev')" by blast
        then show ?thesis
          using CancelBatch_found [OF k, of ?H s p 0 "w_store s" b n e q now new_writer] jb False n rem
            mock_get_id [of ord k "w_store s"] Some wrote [of "?s1\<lparr>w_events := ev'\<rparr>"] no
          by (simp add: mock_event_def)
      qed
    qed
  qed
qed

text \<open>The concrete requests of the witnesses.\<close>

definition sample_body :: bytes where
  "sample_body =
     ''{ \"input_file_id\":\"file-1\",\"endpoint\":\"/v1/chat/completions\",\"completion_window\":\"24h\"}''"

definition sample_request :: "bytes \<Rightarrow> (string \<times> string) list \<Rightarrow> string \<Rightarrow> http_request" where
  "sample_request body query ID =
     \<lparr>rq_Method = [], rq_Path = [], rq_Body = body, rq_Query = query,
      rq_PathValues = [(''batch_id'', ID)]\<rparr>"

definition sample_r :: CreateBatchRequest where
  "sample_r = \<lparr>cr_InputFileID = ''file-1'', cr_Endpoint = ''/v1/chat/completions'',
     cr_CompletionWindow = ''24h'', cr_Metadata = [], cr_OutputExpiresAfter = None\<rparr>"

definition sample_handler ::
  "(MockBatchDBClient, MockBatchPriorityQueueClient, MockBatchEventChannelClient) BatchApiHandler" where
  "sample_handler = mock_handler NewConfig id (\<lambda>_. []) (\<lambda>_. (None, True))"

text \<open>10 February 2026, in nanoseconds since year 1; a batch is created then.\<close>

definition sample_now :: gotime where "sample_now = 63906300000000000000"

definition sample_created :: mock_world where
  "sample_created =
     snd (CreateBatch sample_handler ''u1'' sample_now sample_now (sample_request sample_body [] []) new_writer mock_world)"

text \<open>The batch was taken by a worker, which listens for events.\<close>

definition sample_taken :: mock_world where
  "sample_taken =
     sample_created\<lparr>w_queue := NewMockBatchPriorityQueueClient,
       w_events := snd (ConsumerGetChannel ''batch_u1'' NewMockBatchEventChannelClient)\<rparr>"

definition sample_batch :: Batch where
  "sample_batch = \<lparr>b_ID = ''batch_u1'', b_Spec = create_spec sample_r sample_now, b_Status = create_status\<rparr>"

lemma sample_decodes:
  "decode_request (rq_Body (sample_request sample_body q k)) = Some (Some sample_r)"
  by (simp add: sample_request_def) code_simp

lemma sample_valid: "valid_request sample_r" "ParseDuration (cr_CompletionWindow sample_r) = Some 86400000000000"
  by code_simp+

lemma sample_now_ok: "int64_ok (Unix sample_now)"
  by code_simp

lemma sample_fresh: "mdb_look (w_store mock_world) (batch_id uuid) = None"
  by (simp add: mock_world_def mdb_look_def NewMockBatchDBClient_def)

lemma sample_created_ok: "mock_ok sample_created"
  unfolding sample_created_def sample_handler_def
  by (rule svc.create_ok [OF mock_world_ok sample_fresh sample_now_ok prod.collapse [symmetric]])

lemma sample_taken_ok: "mock_ok sample_taken"
  using sample_created_ok ConsumerGetChannel_inv(1) [OF mev_inv_new]
  by (simp add: service_ok_def sample_taken_def)
    (simp add: NewMockBatchPriorityQueueClient_def mpq_inv_def)

lemma sample_stored:
  "mdb_look (w_store sample_created) ''batch_u1'' = Some (fst (w_store sample_created) ! 0)"
  "jobToBatch (fst (w_store sample_created) ! 0) = Inr sample_batch"
  "\<not> IsFinal (st_Status (b_Status sample_batch))"
  by code_simp+

lemma sample_taken_store: "w_store sample_taken = w_store sample_created"
  by (simp add: sample_taken_def)

section \<open>Decoded requests\<close>

text \<open>C40: whatever bytes a client sends, a create request that can be decoded has the types its struct
  says: its strings and metadata are UTF-8, no metadata key occurs twice, and the seconds of its
  expiry fit 64 bits; the specification made of it at a time of 64 bits is therefore one whose text
  reads back.\<close>

theorem decoded_request_typed:
  assumes "decode_request body = Some (Some r)" and "int64_ok (Unix now)"
  shows "utf8_valid (cr_InputFileID r) \<and> utf8_valid (cr_Endpoint r) \<and> utf8_valid (cr_CompletionWindow r) \<and>
    distinct (map fst (cr_Metadata r)) \<and> (\<forall>(k, v) \<in> set (cr_Metadata r). utf8_valid k \<and> utf8_valid v) \<and>
    (\<forall>e. cr_OutputExpiresAfter r = Some e \<longrightarrow> int64_ok (oea_Seconds e) \<and> utf8_valid (oea_Anchor e)) \<and>
    BatchSpec_ok (create_spec r now) \<and>
    Unmarshal BatchSpec_fields (jprint (enc_BatchSpec (create_spec r now))) zero_BatchSpec = Some (create_spec r now)"
proof -
  have r: "request_strings_ok r" by (rule decode_request_strings_ok [OF assms(1)])
  have "sorted_wrt str_less ks \<Longrightarrow> distinct ks" for ks by (induction ks) auto
  then have keys: "distinct (map fst (cr_Metadata r))" using r by (simp add: request_strings_ok_def map_ok_def)
  have spec: "BatchSpec_ok (create_spec r now)"
    using r assms(2) by (simp add: create_spec_def BatchSpec_ok_def request_strings_ok_def utf8_valid_ascii_batch)
  show ?thesis
    using r keys spec Unmarshal_Spec [OF spec] decode_request_expiry_ok [OF assms(1)]
    by (auto simp: request_strings_ok_def map_strings_ok_def expiry_ok_def)
qed

theorem decoded_request_typed_witness:
  "distinct (map fst (cr_Metadata sample_r)) \<and>
   Unmarshal BatchSpec_fields (jprint (enc_BatchSpec (create_spec sample_r sample_now))) zero_BatchSpec
     = Some (create_spec sample_r sample_now)"
proof -
  have "decode_request sample_body = Some (Some sample_r)"
    using sample_decodes [of "[]" "[]"] by (simp add: sample_request_def)
  from decoded_request_typed [OF this sample_now_ok] show ?thesis by blast
qed

section \<open>Create\<close>

text \<open>C6: a valid create request is answered with 200, and retrieving the new batch from the state
  it leaves gives the very same response: identifier, specification and status survive the trip
  through their JSON texts in the database.\<close>

theorem create_then_retrieve:
  assumes "mock_ok s" and "mdb_look (w_store s) (batch_id uuid) = None"
    and "decode_request (rq_Body rq) = Some (Some r)" and "valid_request r"
    and "int64_ok (Unix now1)" and "PathValue rq2 ''batch_id'' = batch_id uuid"
  shows "\<exists>w1 s1. CreateBatch (mock_handler cfg ord clock obs) uuid now1 now2 rq new_writer s = (Returns w1, s1) \<and>
     rw_status w1 = Some 200 \<and>
     RetrieveBatch (mock_handler cfg ord clock obs) rq2 new_writer s1 = (Returns w1, s1)"
proof -
  let ?H = "mock_handler cfg ord clock obs"
  obtain d where d: "ParseDuration (cr_CompletionWindow r) = Some d"
    using assms(4) by (auto simp: valid_request_def)
  obtain res s1 where call: "CreateBatch ?H uuid now1 now2 rq new_writer s = (res, s1)" by fastforce
  note made = mock_create [OF assms(1-4) d call]
  have "carries (created_job cfg uuid now1 now2 r d) (created_batch uuid now1 r)"
    by (rule carries_created [OF decode_request_strings_ok [OF assms(3)] assms(5)])
  then have "RetrieveBatch ?H rq2 new_writer s1
      = (Returns (WriteJSONResponse 200 (Inr (jprint (enc_Batch (created_batch uuid now1 r)))) new_writer), s1)"
    using mock_retrieve [OF assms(6)] made(2) by (simp add: jobToBatch_carries batch_id_def)
  then show ?thesis using call made(1) by (auto simp: rest_simps)
qed

theorem create_then_retrieve_witness:
  "\<exists>w1 s1. CreateBatch (mock_handler NewConfig id (\<lambda>_. []) (\<lambda>_. (None, True))) ''u1'' sample_now sample_now
       (sample_request sample_body [] []) new_writer mock_world = (Returns w1, s1) \<and>
     rw_status w1 = Some 200 \<and>
     RetrieveBatch (mock_handler NewConfig id (\<lambda>_. []) (\<lambda>_. (None, True)))
       (sample_request [] [] (batch_id ''u1'')) new_writer s1 = (Returns w1, s1)"
  by (rule create_then_retrieve [OF mock_world_ok sample_fresh sample_decodes sample_valid(1) sample_now_ok])
    (simp add: sample_request_def lookup_param_def)

text \<open>C7: a valid create request stores exactly one job, with the deadline \<open>now + completion_window\<close>
  and the computed time to live, puts one entry with that deadline into the queue, behind every
  entry whose deadline is not later, and touches no other job and no event channel.\<close>

theorem create_effect:
  assumes "mock_ok s" and "mdb_look (w_store s) (batch_id uuid) = None"
    and "decode_request (rq_Body rq) = Some (Some r)" and "valid_request r"
    and "ParseDuration (cr_CompletionWindow r) = Some d"
  shows "\<exists>w1 s1. CreateBatch (mock_handler cfg ord clock obs) uuid now1 now2 rq new_writer s = (Returns w1, s1) \<and>
     rw_body w1 = jprint (enc_Batch \<lparr>b_ID = batch_id uuid, b_Spec = create_spec r now1, b_Status = create_status\<rparr>) \<and>
     mdb_look (w_store s1) = (mdb_look (w_store s))(batch_id uuid \<mapsto>
       \<lparr>job_ID = batch_id uuid, job_SLO = now2 + d, job_TTL = create_ttl cfg r d, job_Tags = [],
        job_Spec = jprint (enc_BatchSpec (create_spec r now1)),
        job_Status = jprint (enc_BatchStatusInfo create_status)\<rparr>) \<and>
     mpq_queue (w_queue s1) = takeWhile (\<lambda>x. jp_SLO x \<le> now2 + d) (mpq_queue (w_queue s))
       @ \<lparr>jp_ID = batch_id uuid, jp_SLO = now2 + d\<rparr>
       # dropWhile (\<lambda>x. jp_SLO x \<le> now2 + d) (mpq_queue (w_queue s)) \<and>
     w_events s1 = w_events s"
proof -
  obtain res s1 where call: "CreateBatch (mock_handler cfg ord clock obs) uuid now1 now2 rq new_writer s = (res, s1)"
    by fastforce
  show ?thesis
    using mock_create [OF assms call] call
    by (simp add: rest_simps Enqueue_split created_job_def created_batch_def)
qed

theorem create_effect_witness:
  "\<exists>w1 s1. CreateBatch (mock_handler NewConfig id (\<lambda>_. []) (\<lambda>_. (None, True))) ''u1'' sample_now sample_now
       (sample_request sample_body [] []) new_writer mock_world = (Returns w1, s1) \<and>
     mpq_queue (w_queue s1) = [\<lparr>jp_ID = batch_id ''u1'', jp_SLO = 63906386400000000000\<rparr>]"
  using create_effect [OF mock_world_ok sample_fresh sample_decodes sample_valid, of NewConfig id "\<lambda>_. []"
      "\<lambda>_. (None, True)" "''u1''" sample_now sample_now "[]" "[]"]
  by (auto simp: mock_world_def NewMockBatchPriorityQueueClient_def sample_now_def)

text \<open>C8: whatever the clients are, a create request whose body does not decode or does not
  validate is answered with 400, no other request is, and the state changes only for a valid
  request; the body \<open>null\<close>, which decodes to a nil request, makes the handler panic.\<close>

theorem create_outcomes:
  "((\<exists>w1. fst (CreateBatch c uuid now1 now2 rq new_writer s) = Returns w1 \<and> rw_status w1 = Some 400)
     \<longleftrightarrow> decode_request (rq_Body rq) = None \<or>
         (\<exists>r. decode_request (rq_Body rq) = Some (Some r) \<and> \<not> valid_request r)) \<and>
   (snd (CreateBatch c uuid now1 now2 rq new_writer s) = s \<or>
      (\<exists>r. decode_request (rq_Body rq) = Some (Some r) \<and> valid_request r)) \<and>
   (fst (CreateBatch c uuid now1 now2 rq new_writer s) = Panics nil_dereference
     \<longleftrightarrow> decode_request (rq_Body rq) = Some None)"
proof (cases "\<exists>r. decode_request (rq_Body rq) = Some (Some r) \<and> valid_request r")
  case True
  then obtain r d where r: "decode_request (rq_Body rq) = Some (Some r)" "valid_request r"
    "ParseDuration (cr_CompletionWindow r) = Some d"
    by (auto simp: valid_request_def)
  obtain h db where hd: "w_store s = (h, db)" by fastforce
  obtain i e st where st: "db_Store (bh_dbClient c) (length h) (h @ [created_job (bh_config c) uuid now1 now2 r d], db)
    = ((i, e), st)" by (metis prod.exhaust)
  obtain e2 q where q: "pq_Enqueue (bh_queueClient c) \<lparr>jp_ID = batch_id uuid, jp_SLO = now2 + d\<rparr> (w_queue s)
    = (e2, q)" by fastforce
  obtain ids e3 st2 where del: "db_Delete (bh_dbClient c) [batch_id uuid] st = ((ids, e3), st2)"
    by (metis prod.exhaust)
  show ?thesis
    using CreateBatch_valid [OF r hd st q del, of new_writer] r by (simp add: rest_simps)
next
  case False
  show ?thesis
  proof (cases "decode_request (rq_Body rq)")
    case None
    then show ?thesis
      using CreateBatch_rejects(1) [OF None, of c uuid now1 now2 new_writer s]
      by (simp add: bad_request_def rest_simps)
  next
    case (Some b)
    show ?thesis
    proof (cases b)
      case None
      then show ?thesis
        using CreateBatch_rejects(3) [of rq c uuid now1 now2 new_writer s] Some by simp
    next
      case r: (Some r)
      then have "\<not> valid_request r" using False Some by simp
      then obtain err where "CreateBatchRequest_Validate (Some r) = Returns (Some err)"
        using Validate_Some_returns [of r] Validate_accepts [of r] by (metis option.exhaust)
      then show ?thesis
        using CreateBatch_rejects(2) [OF Some, of err c uuid now1 now2 new_writer s] Some r
          \<open>\<not> valid_request r\<close>
        by (simp add: bad_request_def rest_simps)
    qed
  qed
qed

text \<open>C24: for a completion window of \<open>n\<close> whole hours and an expiry that counts from the creation,
  a valid request gets the deadline \<open>n\<close> hours ahead and the time to live of \<open>n\<close> hours and the
  requested seconds, exactly, although the code computes it in floating point.\<close>

theorem ttl_exact:
  assumes "cr_CompletionWindow r = show_nat n @ ''h''" and "0 \<le> n" and "n \<le> 2562047"
    and "cr_OutputExpiresAfter r = Some \<lparr>oea_Seconds = sec, oea_Anchor = ''created_at''\<rparr>" and "valid_request r"
  shows "ParseDuration (cr_CompletionWindow r) = Some (n * 3600000000000) \<and>
     create_ttl cfg r (n * 3600000000000) = n * 3600 + sec \<and>
     n * 3600 + 3600 \<le> create_ttl cfg r (n * 3600000000000) \<and>
     create_ttl cfg r (n * 3600000000000) \<le> n * 3600 + 2592000"
proof -
  have "ParseDuration (cr_CompletionWindow r) = Some (n * 3600000000000)"
    using ParseDuration_hours [OF assms(2)] assms(1,3) by simp
  moreover have "seconds_int (n * 3600000000000) = n * 3600"
    using seconds_int_whole [of "n * 3600"] assms(2,3) by (simp add: mult.commute)
  then have "create_ttl cfg r (n * 3600000000000) = n * 3600 + sec"
    using assms(4) by (simp add: create_ttl_def)
  moreover have "3600 \<le> sec" "sec \<le> 2592000" using assms(4,5) by (auto simp: valid_request_def)
  ultimately show ?thesis by simp
qed

theorem ttl_exact_witness:
  "create_ttl NewConfig (sample_r\<lparr>cr_OutputExpiresAfter := Some \<lparr>oea_Seconds = 3600, oea_Anchor = ''created_at''\<rparr>\<rparr>)
     (24 * 3600000000000) = 90000"
proof -
  let ?r = "sample_r\<lparr>cr_OutputExpiresAfter := Some \<lparr>oea_Seconds = 3600, oea_Anchor = ''created_at''\<rparr>\<rparr>"
  have "cr_CompletionWindow ?r = show_nat 24 @ ''h''" "valid_request ?r" by code_simp+
  from ttl_exact [OF this(1) _ _ _ this(2), of 3600 NewConfig] show ?thesis by simp
qed

text \<open>C9: when the queue refuses the new entry, whatever the queue client is, the stored job is
  taken back: the request ends in a 500 and the database holds the same jobs as before.\<close>

theorem create_rollback:
  assumes "mdb_inv (w_store s)" and "mdb_look (w_store s) (batch_id uuid) = None"
    and "decode_request (rq_Body rq) = Some (Some r)" and "valid_request r"
    and "ParseDuration (cr_CompletionWindow r) = Some d"
    and "fst (pq_Enqueue qc \<lparr>jp_ID = batch_id uuid, jp_SLO = now2 + d\<rparr> (w_queue s)) \<noteq> None"
  shows "\<exists>w1 s1. CreateBatch (NewBatchApiHandler cfg (mock_db ord) qc ec) uuid now1 now2 rq new_writer s
       = (Returns w1, s1) \<and>
     rw_status w1 = Some 500 \<and> mdb_inv (w_store s1) \<and> mdb_look (w_store s1) = mdb_look (w_store s)"
proof -
  let ?H = "NewBatchApiHandler cfg (mock_db ord) qc ec"
  let ?job = "created_job cfg uuid now1 now2 r d"
  obtain h db where hd: "w_store s = (h, db)" by fastforce
  obtain i e st where st: "db_Store (mock_db ord) (length h) (h @ [?job], db) = ((i, e), st)"
    by (metis prod.exhaust)
  obtain e2 q where q: "pq_Enqueue qc \<lparr>jp_ID = batch_id uuid, jp_SLO = now2 + d\<rparr> (w_queue s) = (e2, q)"
    by fastforce
  obtain ids e3 st2 where del: "db_Delete (mock_db ord) [batch_id uuid] st = ((ids, e3), st2)"
    by (metis prod.exhaust)
  have "e = None" using mock_store_ok [OF st] .
  have "e2 \<noteq> None" using assms(6) q by simp
  have inv: "mdb_inv (h, db)" using assms(1) hd by simp
  have L: "mdb_inv st" "mdb_look st = (mdb_look (h, db))(batch_id uuid \<mapsto> ?job)"
    using mdb.store [OF mdb.alloc [OF inv, THEN conjunct1] _ st] mdb.alloc [OF inv, of ?job] \<open>e = None\<close>
    by simp_all
  have "e3 = None" using del by (auto simp: store_simps Let_def split: prod.splits)
  then have "mdb_inv st2" "mdb_look st2 = mdb_look (h, db)"
    using mdb.delete [OF L(1) del] L(2) assms(2) hd by (auto simp: fun_upd_idem)
  then show ?thesis
    using CreateBatch_valid [OF assms(3-5) hd, of ?H uuid now1 now2 i e st e2 q ids e3 st2 new_writer]
      st q del \<open>e = None\<close> \<open>e2 \<noteq> None\<close> hd
    by (simp add: rest_simps)
qed

theorem create_rollback_witness:
  "\<exists>w1 s1. CreateBatch (NewBatchApiHandler NewConfig (mock_db id)
        \<lparr>pq_Enqueue = \<lambda>_ q. (Some ''queue is full'', q), pq_Dequeue = \<lambda>_ _ _. Blocks,
         pq_Remove = \<lambda>_ q. ((0, None), q)\<rparr> (mock_event (\<lambda>_. (None, True)))) ''u1'' sample_now sample_now
       (sample_request sample_body [] []) new_writer mock_world = (Returns w1, s1) \<and>
     rw_status w1 = Some 500 \<and> mdb_inv (w_store s1) \<and> mdb_look (w_store s1) = mdb_look (w_store mock_world)"
  by (rule create_rollback [OF _ sample_fresh sample_decodes sample_valid]) (simp_all add: mock_world_def)

section \<open>Cancel\<close>

text \<open>C10: cancelling a batch that still waits in the queue takes it out of the queue and answers
  200 with the status \<open>cancelled\<close>; the stored batch now is the answered one, no event is sent, and
  the other entries of the queue and the other jobs are as before.\<close>

theorem cancel_queued:
  assumes "mock_ok s" and "PathValue rq ''batch_id'' = k" and "k \<noteq> []" and "int64_ok (Unix now)"
    and "mdb_look (w_store s) k = Some j" and "jobToBatch j = Inr b" and "\<not> IsFinal (st_Status (b_Status b))"
    and "k \<in> jp_ID ` set (mpq_queue (w_queue s))"
  shows "\<exists>w1 s1. CancelBatch (mock_handler cfg ord clock obs) now rq new_writer s = (Returns w1, s1) \<and>
     rw_status w1 = Some 200 \<and> rw_body w1 = jprint (enc_Batch (mark_cancelled now b)) \<and>
     RetrieveBatch (mock_handler cfg ord clock obs) rq new_writer s1 = (Returns w1, s1) \<and>
     mpq_queue (w_queue s1) = filter (\<lambda>x. jp_ID x \<noteq> k) (mpq_queue (w_queue s)) \<and>
     w_events s1 = w_events s \<and>
     (\<forall>x. x = k \<or> mdb_look (w_store s1) x = mdb_look (w_store s) x)"
proof -
  obtain res s1 where call: "CancelBatch (mock_handler cfg ord clock obs) now rq new_writer s = (res, s1)" by fastforce
  obtain b' where "carries j b'" using mock_ok_carries [OF assms(1,5)] by blast
  moreover from this have "b' = b" using assms(6) jobToBatch_carries by fastforce
  ultimately have b: "carries j b" by simp
  note cases = svc.cancel_cases [OF assms(1-4) call]
  have "res \<noteq> Returns (WriteInternalServerError new_writer)"
    using mock_cancel_no_500 [OF assms(1-3), of obs cfg ord clock now] assms(8) call by simp
  then have res: "cancelled_as mdb_look k (mark_cancelled now b) new_writer res s1" "w_events s1 = w_events s"
    using cases assms(5,7,8) carries_unique [OF b] by auto
  then obtain j' where j': "mdb_look (w_store s1) k = Some j'" "carries j' (mark_cancelled now b)"
    by (auto simp: cancelled_as_def)
  have out: "\<forall>x \<in> set (mpq_queue (w_queue s1)). jp_ID x \<noteq> k"
  proof
    fix x assume "x \<in> set (mpq_queue (w_queue s1))"
    then have "entry_ok (mdb_look (w_store s1)) x" using cases by (auto simp: service_ok_def)
    then show "jp_ID x \<noteq> k"
      using entry_not_status [of "mdb_look (w_store s1)" x, OF _ j']
      by (simp add: BatchStatusCancelled_def BatchStatusValidating_def)
  qed
  have "mpq_queue (w_queue s1) = filter (\<lambda>x. jp_ID x \<noteq> k) (mpq_queue (w_queue s1))"
    using out by (simp add: filter_True)
  also have "\<dots> = filter (\<lambda>x. jp_ID x \<noteq> k) (mpq_queue (w_queue s))" using cases by simp
  finally have q: "mpq_queue (w_queue s1) = filter (\<lambda>x. jp_ID x \<noteq> k) (mpq_queue (w_queue s))" .
  show ?thesis
    using call res q cases j' mock_retrieve [OF assms(2,3), of cfg ord clock obs new_writer s1]
    by (auto simp: cancelled_as_def jobToBatch_carries rest_simps)
qed

theorem cancel_queued_witness:
  "\<exists>w1 s1. CancelBatch (mock_handler NewConfig id (\<lambda>_. []) (\<lambda>_. (None, True))) sample_now
       (sample_request [] [] ''batch_u1'') new_writer sample_created = (Returns w1, s1) \<and>
     rw_status w1 = Some 200 \<and> mpq_queue (w_queue s1) = []"
proof -
  have q: "map jp_ID (mpq_queue (w_queue sample_created)) = [''batch_u1'']" by code_simp
  then have "''batch_u1'' \<in> jp_ID ` set (mpq_queue (w_queue sample_created))"
    by (metis list.set_intros(1) set_map)
  from cancel_queued [OF sample_created_ok _ _ sample_now_ok sample_stored this, of "sample_request [] [] ''batch_u1''"]
  show ?thesis using q by (fastforce simp: sample_request_def lookup_param_def)
qed

text \<open>C11: cancelling a batch that is not in the queue, while the request's context is alive, answers
  200 with the status \<open>cancelling\<close>, stores it, and delivers one cancel event to every consumer of
  the job whose buffer has room; the consumers of other jobs get nothing.\<close>

theorem cancel_running:
  assumes "mock_ok s" and "PathValue rq ''batch_id'' = k" and "k \<noteq> []" and "int64_ok (Unix now)"
    and "mdb_look (w_store s) k = Some j" and "jobToBatch j = Inr b" and "\<not> IsFinal (st_Status (b_Status b))"
    and "k \<notin> jp_ID ` set (mpq_queue (w_queue s))" and "\<forall>n. fst (obs n) = None"
  shows "\<exists>w1 s1. CancelBatch (mock_handler cfg ord clock obs) now rq new_writer s = (Returns w1, s1) \<and>
     rw_status w1 = Some 200 \<and> rw_body w1 = jprint (enc_Batch (mark_cancelling now b)) \<and>
     RetrieveBatch (mock_handler cfg ord clock obs) rq new_writer s1 = (Returns w1, s1) \<and>
     mev_pending (w_events s1) k =
       map (receive \<lparr>ev_ID = k, ev_Type = BatchEventCancel, ev_TTL = sv_BatchTTLSeconds cfg\<rparr>)
         (mev_pending (w_events s) k) \<and>
     (\<forall>x. x = k \<or> mev_pending (w_events s1) x = mev_pending (w_events s) x \<and>
        mdb_look (w_store s1) x = mdb_look (w_store s) x)"
proof -
  obtain res s1 where call: "CancelBatch (mock_handler cfg ord clock obs) now rq new_writer s = (res, s1)" by fastforce
  obtain b' where "carries j b'" using mock_ok_carries [OF assms(1,5)] by blast
  moreover from this have "b' = b" using assms(6) jobToBatch_carries by fastforce
  ultimately have b: "carries j b" by simp
  note cases = svc.cancel_cases [OF assms(1-4) call]
  have "res \<noteq> Returns (WriteInternalServerError new_writer)"
    using mock_cancel_no_500 [OF assms(1-3), of obs cfg ord clock now] assms(9) call by simp
  then obtain sent e where res: "cancelled_as mdb_look k (mark_cancelling now b) new_writer res s1"
    and sent: "mev_ProducerSendEvents obs
      [\<lparr>ev_ID = k, ev_Type = BatchEventCancel, ev_TTL = sv_BatchTTLSeconds cfg\<rparr>] (w_events s)
        = Returns ((sent, e), w_events s1)"
    using cases assms(5,7,8) carries_unique [OF b] by (auto simp: mock_event_def)
  have "mev_inv (w_events s)" using assms(1) by (simp add: service_ok_def)
  from send_live [OF assms(9) this, of "\<lparr>ev_ID = k, ev_Type = BatchEventCancel, ev_TTL = sv_BatchTTLSeconds cfg\<rparr>"]
  have events: "mev_pending (w_events s1) k =
      map (receive \<lparr>ev_ID = k, ev_Type = BatchEventCancel, ev_TTL = sv_BatchTTLSeconds cfg\<rparr>)
        (mev_pending (w_events s) k)"
    using sent by simp
  from res obtain j' where j': "mdb_look (w_store s1) k = Some j'" "carries j' (mark_cancelling now b)"
    by (auto simp: cancelled_as_def)
  show ?thesis
    using call res events cases j' mock_retrieve [OF assms(2,3), of cfg ord clock obs new_writer s1]
    by (auto simp: cancelled_as_def jobToBatch_carries rest_simps)
qed

theorem cancel_running_witness:
  "\<exists>w1 s1. CancelBatch (mock_handler NewConfig id (\<lambda>_. []) (\<lambda>_. (None, True))) sample_now
       (sample_request [] [] ''batch_u1'') new_writer sample_taken = (Returns w1, s1) \<and>
     rw_status w1 = Some 200 \<and>
     mev_pending (w_events s1) ''batch_u1'' = [[\<lparr>ev_ID = ''batch_u1'', ev_Type = BatchEventCancel, ev_TTL = 0\<rparr>]]"
proof -
  have "''batch_u1'' \<notin> jp_ID ` set (mpq_queue (w_queue sample_taken))"
    by (simp add: sample_taken_def NewMockBatchPriorityQueueClient_def)
  moreover have "mev_pending (w_events sample_taken) ''batch_u1'' = [[]]" by code_simp
  ultimately show ?thesis
    using cancel_running [OF sample_taken_ok _ _ sample_now_ok sample_stored [folded sample_taken_store],
        of "sample_request [] [] ''batch_u1''" "\<lambda>_. (None, True)" NewConfig id "\<lambda>_. []"]
    by (auto simp: sample_request_def lookup_param_def receive_def NewConfig_def)
qed

text \<open>C12: a batch that is final is not cancelled again: 400, and the state is untouched; an
  identifier that is not stored is answered with 404, and the state is untouched.\<close>

theorem cancel_refused:
  assumes "PathValue rq ''batch_id'' = k" and "k \<noteq> []"
    and "case mdb_look (w_store s) k of
           None \<Rightarrow> status = 404
         | Some j \<Rightarrow> \<exists>b. jobToBatch j = Inr b \<and> IsFinal (st_Status (b_Status b)) \<and> status = 400"
  shows "\<exists>w1. CancelBatch (mock_handler cfg ord clock obs) now rq new_writer s = (Returns w1, s) \<and>
     rw_status w1 = Some status"
proof -
  note early = CancelBatch_early [OF assms(1,2), of "mock_handler cfg ord clock obs" s, unfolded handler_simps,
      OF mock_get_id]
  show ?thesis
  proof (cases "map_of (mdb_jobs (snd (w_store s))) k")
    case None
    then show ?thesis
      using early(2) [of now new_writer] assms(3) by (simp add: mdb_look_def not_found_def rest_simps)
  next
    case (Some p)
    then obtain b where b: "jobToBatch (fst (w_store s) ! p) = Inr b" "IsFinal (st_Status (b_Status b))" "status = 400"
      using assms(3) by (auto simp: mdb_look_def)
    then show ?thesis
      using early(3) [OF refl _ b(1,2), of now new_writer] Some by (simp add: bad_request_def rest_simps)
  qed
qed

theorem cancel_refused_witness:
  "\<exists>w1. CancelBatch (mock_handler NewConfig id (\<lambda>_. []) (\<lambda>_. (None, True))) sample_now
      (sample_request [] [] ''no-such-batch'') new_writer sample_created = (Returns w1, sample_created) \<and>
     rw_status w1 = Some 404"
proof -
  have "mdb_look (w_store sample_created) ''no-such-batch'' = None" by code_simp
  then show ?thesis
    using cancel_refused [of "sample_request [] [] ''no-such-batch''" "''no-such-batch''" 404 sample_created]
    by (simp add: sample_request_def lookup_param_def)
qed

section \<open>List\<close>

lemma mock_list_jobs:
  fixes ord :: range_order
  assumes s: "mock_ok s" and limit: "0 < limit"
  defines "es \<equiv> take (nat limit) (range_visit ord (mdb_jobs (snd (w_store s))))"
  defines "jobs \<equiv> map (\<lambda>p. fst (w_store s) ! p) (map snd es)"
  obtains bs where "list_all2 carries jobs bs" "distinct (map b_ID bs)"
    "\<forall>b \<in> set bs. \<exists>j. mdb_look (w_store s) (b_ID b) = Some j \<and> carries j b"
    "length jobs = min (nat limit) (card (dom (mdb_look (w_store s))))"
proof -
  have inv: "mdb_inv (w_store s)" using s by (simp add: service_ok_def)
  note listed = mdb_listed [OF inv, where n = "nat limit" and ord = ord, folded es_def]
  have stored: "\<forall>j \<in> set jobs. mdb_look (w_store s) (job_ID j) = Some j"
    using listed(2) by (auto simp: jobs_def mdb_look_def)
  then have "\<forall>j \<in> set jobs. \<exists>b. carries j b" using mock_ok_carries [OF s] by blast
  then obtain f where f: "\<forall>j \<in> set jobs. carries j (f j)" by metis
  have ids: "map b_ID (map f jobs) = map job_ID jobs" using f by (simp add: carries_def)
  have "dom (mdb_look (w_store s)) = fst ` set (mdb_jobs (snd (w_store s)))"
    by (auto simp: mdb_look_def dom_def map_of_eq_None_iff image_iff)
  then have "card (dom (mdb_look (w_store s))) = length (mdb_jobs (snd (w_store s)))"
    using inv distinct_card [of "map fst (mdb_jobs (snd (w_store s)))"] by (simp add: mdb_inv_def)
  then have "length jobs = min (nat limit) (card (dom (mdb_look (w_store s))))"
    by (simp add: jobs_def es_def)
  moreover have "list_all2 carries jobs (map f jobs)"
    using f by (simp add: list_all2_map2 list.rel_refl_strong)
  moreover have "distinct (map b_ID (map f jobs))"
    unfolding ids using listed(1) by (simp add: jobs_def comp_def)
  moreover have "\<forall>b \<in> set (map f jobs). \<exists>j. mdb_look (w_store s) (b_ID b) = Some j \<and> carries j b"
    using f stored by (auto simp: carries_def)
  ultimately show ?thesis by (rule that [rotated, rotated, rotated])
qed

lemma mock_list_page:
  assumes "mock_ok s" and "parse_limit rq = Inr limit" and "parse_after rq = Inr after"
  defines "stored \<equiv> int (card (dom (mdb_look (w_store s))))"
  shows "\<exists>resp. ListBatches (mock_handler cfg ord clock obs) rq new_writer s
       = (Returns (WriteJSONResponse 200 (Marshal (enc_ListBatchResponse resp)) new_writer), s) \<and>
     int (length (lb_Data resp)) = min limit stored \<and> (lb_HasMore resp \<longleftrightarrow> limit < stored) \<and>
     distinct (map b_ID (lb_Data resp)) \<and>
     (\<forall>b \<in> set (lb_Data resp). \<exists>j. mdb_look (w_store s) (b_ID b) = Some j \<and> jobToBatch j = Inr b) \<and>
     (stored = 0 \<or> lb_FirstID resp = b_ID (hd (lb_Data resp)) \<and> lb_LastID resp = b_ID (last (lb_Data resp)))"
proof -
  note limit = parse_limit_range [OF assms(2)]
  define es where "es = take (nat (limit + 1)) (range_visit ord (mdb_jobs (snd (w_store s))))"
  define jobs where "jobs = map (\<lambda>p. fst (w_store s) ! p) (map snd es)"
  obtain bs where bs: "list_all2 carries jobs bs" "distinct (map b_ID bs)"
    "\<forall>b \<in> set bs. \<exists>j. mdb_look (w_store s) (b_ID b) = Some j \<and> carries j b"
    and len: "length jobs = min (nat (limit + 1)) (nat stored)"
    using mock_list_jobs [OF assms(1), of "limit + 1" ord] limit
    unfolding jobs_def es_def stored_def by auto
  let ?resp = "list_response limit jobs"
  have get: "db_Get (mock_db ord) [] [] TagsLogicalCondNa True after (limit + 1) (w_store s)
      = ((map snd es, 0, None), w_store s)"
    using limit by (simp add: store_simps Let_def range_collect_take es_def)
  have run: "ListBatches (mock_handler cfg ord clock obs) rq new_writer s
       = (Returns (WriteJSONResponse 200 (Marshal (enc_ListBatchResponse ?resp)) new_writer), s)"
    using ListBatches_page [OF assms(2,3), of "mock_handler cfg ord clock obs" s] get by (simp add: jobs_def)
  let ?n = "if int (length jobs) > limit then nat limit else length jobs"
  have data: "lb_Data ?resp = take ?n bs"
  proof -
    have "list_all2 carries (take ?n jobs) (take ?n bs)" using bs(1) by (rule list_all2_takeI)
    then show ?thesis
      using jobs_to_batches_carries list_all2_lengthD [OF bs(1)] by fastforce
  qed
  have lenb: "length bs = length jobs" using list_all2_lengthD [OF bs(1)] by simp
  have "0 \<le> stored" by (simp add: stored_def)
  have "int (length (lb_Data ?resp)) = min limit stored" "lb_HasMore ?resp \<longleftrightarrow> limit < stored"
    using len lenb limit \<open>0 \<le> stored\<close> unfolding data by (auto simp: min_def)
  moreover have "distinct (map b_ID (lb_Data ?resp))"
    unfolding data using bs(2) by (simp add: take_map [symmetric])
  moreover have "\<forall>b \<in> set (lb_Data ?resp). \<exists>j. mdb_look (w_store s) (b_ID b) = Some j \<and> jobToBatch j = Inr b"
    unfolding data using bs(3) jobToBatch_carries by (meson in_set_takeD)
  moreover have "lb_FirstID ?resp = b_ID (hd (lb_Data ?resp)) \<and> lb_LastID ?resp = b_ID (last (lb_Data ?resp))"
    if "lb_Data ?resp \<noteq> []"
    using that by (auto simp: list_response_def Let_def hd_conv_nth last_conv_nth)
  moreover have "stored = 0 \<or> lb_Data ?resp \<noteq> []"
    using calculation(1) limit \<open>0 \<le> stored\<close> by (auto simp: min_def split: if_splits)
  ultimately show ?thesis using run by blast
qed

text \<open>C13: a listing answers 200 with at most \<open>limit\<close> batches, all different and all stored as
  listed; it holds as many as the database has up to the limit, \<open>has_more\<close> says whether more
  are stored, and \<open>first_id\<close> and \<open>last_id\<close> are the ends of the page. Nothing changes.\<close>

theorem list_page:
  assumes "mock_ok s" and "parse_limit rq = Inr limit" and "parse_after rq = Inr after"
  defines "stored \<equiv> int (card (dom (mdb_look (w_store s))))"
  shows "\<exists>resp. ListBatches (mock_handler cfg ord clock obs) rq new_writer s
       = (Returns (WriteJSONResponse 200 (Marshal (enc_ListBatchResponse resp)) new_writer), s) \<and>
     int (length (lb_Data resp)) = min limit stored \<and> (lb_HasMore resp \<longleftrightarrow> limit < stored) \<and>
     distinct (map b_ID (lb_Data resp)) \<and>
     (\<forall>b \<in> set (lb_Data resp). \<exists>j. mdb_look (w_store s) (b_ID b) = Some j \<and> jobToBatch j = Inr b) \<and>
     (stored = 0 \<or> lb_FirstID resp = b_ID (hd (lb_Data resp)) \<and> lb_LastID resp = b_ID (last (lb_Data resp)))"
  unfolding assms(4) by (rule mock_list_page [OF assms(1-3)])

theorem list_page_witness:
  "\<exists>resp. ListBatches (mock_handler NewConfig id (\<lambda>_. []) (\<lambda>_. (None, True)))
      (sample_request [] [(''limit'', ''5'')] []) new_writer sample_created
       = (Returns (WriteJSONResponse 200 (Marshal (enc_ListBatchResponse resp)) new_writer), sample_created) \<and>
     int (length (lb_Data resp)) = min 5 (int (card (dom (mdb_look (w_store sample_created)))))"
proof -
  have "parse_limit (sample_request [] [(''limit'', ''5'')] []) = Inr 5"
    "parse_after (sample_request [] [(''limit'', ''5'')] []) = Inr 0" by code_simp+
  from list_page [OF sample_created_ok this] show ?thesis by blast
qed

text \<open>The \<open>after\<close> parameter of a listing has no effect on the in-memory database: two listings
  that differ in it only give the same page, so a client cannot get past the first page.\<close>

theorem list_after_ignored:
  assumes "parse_limit rq1 = parse_limit rq2" and "parse_after rq1 = Inr a1" and "parse_after rq2 = Inr a2"
  shows "ListBatches (mock_handler cfg ord clock obs) rq1 w s = ListBatches (mock_handler cfg ord clock obs) rq2 w s"
  using assms by (simp add: ListBatches_def mock_db_def mdb_Get_def split: sum.split)

theorem list_after_ignored_witness:
  "ListBatches (mock_handler NewConfig id (\<lambda>_. []) (\<lambda>_. (None, True)))
     (sample_request [] [(''after'', ''20'')] []) new_writer sample_created =
   ListBatches (mock_handler NewConfig id (\<lambda>_. []) (\<lambda>_. (None, True)))
     (sample_request [] [] []) new_writer sample_created"
proof -
  have "parse_limit (sample_request [] [(''after'', ''20'')] []) = parse_limit (sample_request [] [] [])"
    "parse_after (sample_request [] [(''after'', ''20'')] []) = Inr 20"
    "parse_after (sample_request [] [] []) = Inr 0" by code_simp+
  then show ?thesis by (rule list_after_ignored)
qed

text \<open>A \<open>limit\<close> outside 1 to 100, an \<open>after\<close> below 0 and a parameter that does not start
  with an integer are answered with 400, whatever the clients are, and change nothing.\<close>

theorem list_rejects:
  assumes "Query_Get rq ''limit'' \<noteq> [] \<and> pred_option (\<lambda>n. n < 1 \<or> 100 < n) (Sscanf_d (Query_Get rq ''limit'')) \<or>
     Query_Get rq ''after'' \<noteq> [] \<and> pred_option (\<lambda>n. n < 0) (Sscanf_d (Query_Get rq ''after''))"
  shows "\<exists>w1. ListBatches c rq new_writer s = (Returns w1, s) \<and> rw_status w1 = Some 400"
  using assms
  by (auto simp: ListBatches_def parse_limit_def parse_after_def Let_def bad_request_def rest_simps
      split: option.splits)

theorem list_rejects_witness:
  "\<exists>w1. ListBatches sample_handler (sample_request [] [(''limit'', ''101'')] []) new_writer mock_world
      = (Returns w1, mock_world) \<and> rw_status w1 = Some 400"
proof -
  have "Query_Get (sample_request [] [(''limit'', ''101'')] []) ''limit'' = ''101''" "Sscanf_d ''101'' = Some 101"
    by code_simp+
  then show ?thesis by (intro list_rejects) simp
qed

text \<open>The parameters of a listing are read up to the first character that is not a digit: a
  number in range followed by any other text is accepted as that number.\<close>

theorem limit_ignores_rest:
  assumes "1 \<le> n" and "n \<le> 100" and "Query_Get rq ''limit'' = show_nat n @ rest"
    and "rest = [] \<or> \<not> is_digit (hd rest)"
  shows "parse_limit rq = Inr n"
  using Sscanf_d_show_nat [of n rest] assms by (simp add: parse_limit_def Let_def)

theorem limit_ignores_rest_witness:
  "parse_limit (sample_request [] [(''limit'', ''5 apples'')] []) = Inr 5"
proof -
  have "Query_Get (sample_request [] [(''limit'', ''5 apples'')] []) ''limit'' = show_nat 5 @ '' apples''" by code_simp
  then show ?thesis by (rule limit_ignores_rest [rotated 2]) (simp_all add: is_digit_def)
qed

section \<open>Any sequence of calls\<close>

text \<open>A step with the in-memory clients: any order of the map, clock and context.\<close>

inductive mock_step :: "ServerConfig \<Rightarrow> mock_world \<Rightarrow> mock_world \<Rightarrow> bool" for cfg where
  "api_step (mock_handler cfg ord clock obs) mdb_look s s' \<Longrightarrow> mock_step cfg s s'"

lemma sample_reachable: "(mock_step NewConfig)\<^sup>*\<^sup>* mock_world sample_created"
  unfolding sample_created_def sample_handler_def
  by (rule r_into_rtranclp, rule mock_step.intros, rule api_step.create)
    (rule sample_fresh sample_now_ok prod.collapse [symmetric])+

lemma mock_run_ok: "(mock_step cfg)\<^sup>*\<^sup>* mock_world s \<Longrightarrow> mock_ok s"
  by (induction rule: rtranclp_induct) (auto simp: mock_world_ok elim!: mock_step.cases intro: svc.step_ok)

text \<open>After any sequence of requests and dequeues, the queue is ordered by deadline, holds no
  job twice, and every entry belongs to a stored job that is still \<open>validating\<close> and has the
  entry's deadline: a cancelled batch is never handed to a worker.\<close>

theorem reachable_queue:
  assumes "(mock_step cfg)\<^sup>*\<^sup>* mock_world s"
  shows "sorted (map jp_SLO (mpq_queue (w_queue s))) \<and> distinct (map jp_ID (mpq_queue (w_queue s))) \<and>
     (\<forall>x \<in> set (mpq_queue (w_queue s)). \<exists>j b. mdb_look (w_store s) (jp_ID x) = Some j \<and>
        jobToBatch j = Inr b \<and> st_Status (b_Status b) = BatchStatusValidating \<and> job_SLO j = jp_SLO x)"
  using mock_run_ok [OF assms] jobToBatch_carries
  by (fastforce simp: service_ok_def mpq_inv_def entry_ok_def)

theorem reachable_queue_witness:
  "sorted (map jp_SLO (mpq_queue (w_queue mock_world))) \<and>
   (\<exists>s x. (mock_step NewConfig)\<^sup>*\<^sup>* mock_world s \<and> mpq_queue (w_queue s) = [x] \<and>
      (\<exists>j b. mdb_look (w_store s) (jp_ID x) = Some j \<and> jobToBatch j = Inr b \<and>
         st_Status (b_Status b) = BatchStatusValidating))"
proof -
  have q: "mpq_queue (w_queue sample_created) = [\<lparr>jp_ID = ''batch_u1'', jp_SLO = 63906386400000000000\<rparr>]"
    by code_simp
  show ?thesis
    using reachable_queue [OF sample_reachable] reachable_queue [OF rtranclp.rtrancl_refl [of "mock_step NewConfig" mock_world]]
      sample_reachable q
    by auto
qed

text \<open>After any sequence of requests and dequeues, retrieving a batch never fails inside the
  server: it answers 200 when the batch is stored and 404 when it is not, and changes nothing.\<close>

theorem reachable_retrieve:
  assumes "(mock_step cfg)\<^sup>*\<^sup>* mock_world s" and "PathValue rq ''batch_id'' \<noteq> []"
  shows "\<exists>w1. RetrieveBatch (mock_handler cfg ord clock obs) rq new_writer s = (Returns w1, s) \<and>
     rw_status w1 = Some (if mdb_look (w_store s) (PathValue rq ''batch_id'') = None then 404 else 200)"
proof (cases "mdb_look (w_store s) (PathValue rq ''batch_id'')")
  case None
  then show ?thesis
    using mock_retrieve [OF refl assms(2)] by (simp add: not_found_def rest_simps)
next
  case (Some j)
  then obtain b where "carries j b" using mock_ok_carries [OF mock_run_ok [OF assms(1)]] by blast
  then show ?thesis
    using mock_retrieve [OF refl assms(2)] Some jobToBatch_carries by (simp add: rest_simps)
qed

theorem reachable_retrieve_witness:
  "\<exists>w1. RetrieveBatch sample_handler (sample_request [] [] ''batch_u1'') new_writer sample_created
      = (Returns w1, sample_created) \<and> rw_status w1 = Some 200"
  using reachable_retrieve [OF sample_reachable, of "sample_request [] [] ''batch_u1''"] sample_stored(1)
  by (simp add: sample_handler_def sample_request_def lookup_param_def)

end
