(* ===== verification/ApiSpec.thy ===== *)
theory ApiSpec
  imports ApiContract
begin

text \<open>
  What the batch service promises, without its database, queue and event channels: a
  service keeps the batches it was given, in the order of their creation, and the entries that wait
  for a worker, in the order of their deadlines. The handlers on the in-memory clients refine this
  service: any sequence of requests and dequeues gets the answers it gives.
\<close>

section \<open>The abstract service\<close>

record batch_service_spec =
  sp_batches :: "(string \<times> Batch) list"
  sp_waiting :: "BatchJobPriority list"

definition spec_init :: batch_service_spec where
  "spec_init = \<lparr>sp_batches = [], sp_waiting = []\<rparr>"

text \<open>The calls: a request with what the handler reads of it, the clock and the generator of
  identifiers, or a worker that takes the next job without waiting.\<close>

datatype api_call =
    Creates string gotime gotime bytes
  | Retrieves string
  | Cancels gotime string
  | Lists string string
  | Takes

text \<open>The answers: a batch; a status of refusal; a page of at most so many of these batches; the
  jobs handed to a worker; a panic of the handler.\<close>

datatype api_answer =
    Shows Batch
  | Refuses int
  | Page int "(string \<times> Batch) list"
  | Hands "BatchJobPriority list"
  | Crashes

definition page_of :: "string \<Rightarrow> string \<Rightarrow> http_request" where
  "page_of limit after =
     \<lparr>rq_Method = [], rq_Path = [], rq_Body = [], rq_Query = [(''limit'', limit), (''after'', after)],
      rq_PathValues = []\<rparr>"

fun spec_call :: "api_call \<Rightarrow> batch_service_spec \<Rightarrow> api_answer \<times> batch_service_spec" where
  "spec_call (Creates uuid now1 now2 body) sp =
     (case decode_request body of
        None \<Rightarrow> (Refuses 400, sp)
      | Some None \<Rightarrow> (Crashes, sp)
      | Some (Some r) \<Rightarrow>
          (case (valid_request r, ParseDuration (cr_CompletionWindow r)) of
             (True, Some d) \<Rightarrow>
               (let b = \<lparr>b_ID = batch_id uuid, b_Spec = create_spec r now1, b_Status = create_status\<rparr>
                in (Shows b,
                    \<lparr>sp_batches = sp_batches sp @ [(batch_id uuid, b)],
                     sp_waiting = sort_key jp_SLO
                       (sp_waiting sp @ [\<lparr>jp_ID = batch_id uuid, jp_SLO = now2 + d\<rparr>])\<rparr>))
           | _ \<Rightarrow> (Refuses 400, sp)))"
| "spec_call (Retrieves k) sp =
     (if k = [] then (Refuses 400, sp)
      else (case map_of (sp_batches sp) k of None \<Rightarrow> (Refuses 404, sp) | Some b \<Rightarrow> (Shows b, sp)))"
| "spec_call (Cancels now k) sp =
     (if k = [] then (Refuses 400, sp)
      else (case map_of (sp_batches sp) k of
          None \<Rightarrow> (Refuses 404, sp)
        | Some b \<Rightarrow>
            if IsFinal (st_Status (b_Status b)) then (Refuses 400, sp)
            else (let waits = (k \<in> set (map jp_ID (sp_waiting sp)));
                      b' = (if waits then mark_cancelled now b else mark_cancelling now b)
                  in (Shows b',
                      \<lparr>sp_batches = AList.update k b' (sp_batches sp),
                       sp_waiting = filter (\<lambda>x. jp_ID x \<noteq> k) (sp_waiting sp)\<rparr>))))"
| "spec_call (Lists limit after) sp =
     (case (parse_limit (page_of limit after), parse_after (page_of limit after)) of
        (Inr n, Inr _) \<Rightarrow> (Page n (sp_batches sp), sp)
      | _ \<Rightarrow> (Refuses 400, sp))"
| "spec_call Takes sp =
     (Hands (take 1 (sp_waiting sp)), sp\<lparr>sp_waiting := drop 1 (sp_waiting sp)\<rparr>)"

fun spec_run :: "api_call list \<Rightarrow> batch_service_spec \<Rightarrow> api_answer list \<times> batch_service_spec" where
  "spec_run [] sp = ([], sp)"
| "spec_run (call # calls) sp =
     (let (a, sp1) = spec_call call sp; (as, sp2) = spec_run calls sp1 in (a # as, sp2))"

section \<open>The calls of the handlers\<close>

text \<open>What the environment decides during one call: the order of the map, the ticks of the
  clock and what the request's context and the channels report.\<close>

record call_env =
  ce_order :: range_order
  ce_clock :: "duration \<Rightarrow> (bool \<times> error option) list"
  ce_obs :: select_obs

datatype api_reply = Response "response_writer go_result" | Jobs "BatchJobPriority list"

definition batch_request :: "bytes \<Rightarrow> string \<Rightarrow> http_request" where
  "batch_request body k =
     \<lparr>rq_Method = [], rq_Path = [], rq_Body = body, rq_Query = [], rq_PathValues = [(''batch_id'', k)]\<rparr>"

abbreviation env_handler ::
  "ServerConfig \<Rightarrow> call_env
    \<Rightarrow> (MockBatchDBClient, MockBatchPriorityQueueClient, MockBatchEventChannelClient) BatchApiHandler" where
  "env_handler cfg env \<equiv> mock_handler cfg (ce_order env) (ce_clock env) (ce_obs env)"

fun service_call :: "ServerConfig \<Rightarrow> call_env \<Rightarrow> api_call \<Rightarrow> mock_world \<Rightarrow> api_reply \<times> mock_world" where
  "service_call cfg env (Creates uuid now1 now2 body) s =
     apfst Response (CreateBatch (env_handler cfg env) uuid now1 now2 (batch_request body []) new_writer s)"
| "service_call cfg env (Retrieves k) s =
     apfst Response (RetrieveBatch (env_handler cfg env) (batch_request [] k) new_writer s)"
| "service_call cfg env (Cancels now k) s =
     apfst Response (CancelBatch (env_handler cfg env) now (batch_request [] k) new_writer s)"
| "service_call cfg env (Lists limit after) s =
     apfst Response (ListBatches (env_handler cfg env) (page_of limit after) new_writer s)"
| "service_call cfg env Takes s =
     (case pq_Dequeue (mock_queue (ce_clock env)) 0 1 (w_queue s) of
        Returns ((js, _), q) \<Rightarrow> (Jobs js, s\<lparr>w_queue := q\<rparr>)
      | Panics msg \<Rightarrow> (Response (Panics msg), s)
      | Blocks \<Rightarrow> (Response Blocks, s))"

fun service_run ::
  "ServerConfig \<Rightarrow> (call_env \<times> api_call) list \<Rightarrow> mock_world \<Rightarrow> api_reply list \<times> mock_world" where
  "service_run cfg [] s = ([], s)"
| "service_run cfg ((env, call) # calls) s =
     (let (a, s1) = service_call cfg env call s; (as, s2) = service_run cfg calls s1 in (a # as, s2))"

text \<open>A reply of the handlers says an answer of the specification.\<close>

fun says :: "api_answer \<Rightarrow> api_reply \<Rightarrow> bool" where
  "says (Shows b) (Response (Returns w)) \<longleftrightarrow> rw_status w = Some 200 \<and> rw_body w = jprint (enc_Batch b)"
| "says (Refuses n) (Response (Returns w)) \<longleftrightarrow> rw_status w = Some n"
| "says (Page n bs) (Response (Returns w)) \<longleftrightarrow> rw_status w = Some 200 \<and>
     (\<exists>resp. rw_body w = jprint (enc_ListBatchResponse resp) \<and>
        int (length (lb_Data resp)) = min n (int (length bs)) \<and> (lb_HasMore resp \<longleftrightarrow> n < int (length bs)) \<and>
        distinct (map b_ID (lb_Data resp)) \<and> (\<forall>b \<in> set (lb_Data resp). (b_ID b, b) \<in> set bs))"
| "says (Hands js) (Jobs js') \<longleftrightarrow> js' = js"
| "says Crashes (Response (Panics msg)) \<longleftrightarrow> msg = nil_dereference"
| "says _ _ \<longleftrightarrow> False"

definition refines :: "mock_world \<Rightarrow> batch_service_spec \<Rightarrow> bool" where
  "refines s sp \<longleftrightarrow> distinct (map fst (sp_batches sp)) \<and>
     (\<forall>k. rel_option carries (mdb_look (w_store s) k) (map_of (sp_batches sp) k)) \<and>
     sp_waiting sp = mpq_queue (w_queue s)"

section \<open>Every call refines its specification\<close>

lemma refinesI:
  "distinct (map fst (sp_batches sp)) \<Longrightarrow>
   (\<And>k. rel_option carries (mdb_look (w_store s) k) (map_of (sp_batches sp) k)) \<Longrightarrow>
   sp_waiting sp = mpq_queue (w_queue s) \<Longrightarrow> refines s sp"
  by (simp add: refines_def)

lemma refines_look:
  assumes "refines s sp"
  shows "map_of (sp_batches sp) k = None \<longleftrightarrow> mdb_look (w_store s) k = None"
    and "map_of (sp_batches sp) k = Some b \<Longrightarrow> \<exists>j. mdb_look (w_store s) k = Some j \<and> carries j b"
proof -
  have "rel_option carries (mdb_look (w_store s) k) (map_of (sp_batches sp) k)"
    using assms by (simp add: refines_def)
  then show "map_of (sp_batches sp) k = None \<longleftrightarrow> mdb_look (w_store s) k = None"
    "map_of (sp_batches sp) k = Some b \<Longrightarrow> \<exists>j. mdb_look (w_store s) k = Some j \<and> carries j b"
    by (auto simp: option_rel_Some2)
qed

lemma refines_length:
  assumes "refines s sp"
  shows "length (sp_batches sp) = card (dom (mdb_look (w_store s)))"
proof -
  have "dom (mdb_look (w_store s)) = dom (map_of (sp_batches sp))"
    by (simp add: dom_def refines_look(1) [OF assms])
  then have "dom (mdb_look (w_store s)) = set (map fst (sp_batches sp))"
    by (simp add: dom_map_of_conv_image_fst)
  moreover have "distinct (map fst (sp_batches sp))" using assms by (simp add: refines_def)
  ultimately show ?thesis using distinct_card [of "map fst (sp_batches sp)"] by (metis length_map)
qed

lemma map_of_append_fresh:
  "map_of xs k = None \<Longrightarrow> map_of (xs @ [(k, v)]) x = (if x = k then Some v else map_of xs x)"
  by (cases "map_of xs x") (auto simp: map_add_def)

text \<open>An entry goes where a stable sort by deadline puts it.\<close>

lemma Enqueue_sort_key:
  assumes "mpq_inv m"
  shows "mpq_queue (snd (mpq_Enqueue x m)) = sort_key jp_SLO (mpq_queue m @ [x])"
proof -
  have "sort_key jp_SLO (mpq_queue m @ [x]) = mpq_queue (snd (mpq_Enqueue x m))"
  proof (rule properties_for_sort_key)
    show "mset (mpq_queue (snd (mpq_Enqueue x m))) = mset (mpq_queue m @ [x])" by (simp add: Enqueue_mset)
    show "sorted (map jp_SLO (mpq_queue (snd (mpq_Enqueue x m))))"
      using Enqueue_inv [OF assms] by (simp add: mpq_inv_def)
    show "filter (\<lambda>y. jp_SLO k = jp_SLO y) (mpq_queue (snd (mpq_Enqueue x m)))
        = filter (\<lambda>y. jp_SLO k = jp_SLO y) (mpq_queue m @ [x])" for k
      using Enqueue_class [OF assms, of "jp_SLO k" x] by (simp add: eq_commute)
  qed
  then show ?thesis by simp
qed

lemma create_refines:
  assumes s: "mock_ok s" "refines s sp" and fresh: "map_of (sp_batches sp) (batch_id uuid) = None"
    and now: "int64_ok (Unix now1)"
    and call: "service_call cfg env (Creates uuid now1 now2 body) s = (a, s')"
      "spec_call (Creates uuid now1 now2 body) sp = (b, sp')"
  shows "says b a \<and> refines s' sp'"
proof -
  let ?H = "env_handler cfg env" and ?rq = "batch_request body []"
  obtain res where a: "a = Response res" "CreateBatch ?H uuid now1 now2 ?rq new_writer s = (res, s')"
    using call(1) by (cases "CreateBatch ?H uuid now1 now2 ?rq new_writer s") simp
  have body: "rq_Body ?rq = body" by (simp add: batch_request_def)
  show ?thesis
  proof (cases "decode_request body")
    case None
    then show ?thesis
      using CreateBatch_rejects(1) [of ?rq ?H uuid now1 now2 new_writer s] a call(2) body s(2)
      by (auto simp: bad_request_def rest_simps)
  next
    case (Some r')
    note dec = this
    show ?thesis
    proof (cases r')
      case None
      then show ?thesis
        using CreateBatch_rejects(3) [of ?rq ?H uuid now1 now2 new_writer s] dec a call(2) body s(2) by auto
    next
      case (Some r)
      note dec = dec [unfolded Some]
      show ?thesis
      proof (cases "valid_request r")
        case False
        then obtain err where "CreateBatchRequest_Validate (Some r) = Returns (Some err)"
          using Validate_Some_returns [of r] Validate_accepts [of r] by (metis option.exhaust)
        then show ?thesis
          using CreateBatch_rejects(2) [of ?rq "Some r" err ?H uuid now1 now2 new_writer s] dec a call(2) body s(2) False
          by (auto simp: bad_request_def rest_simps)
      next
        case True
        then obtain d where d: "ParseDuration (cr_CompletionWindow r) = Some d" by (auto simp: valid_request_def)
        have new: "mdb_look (w_store s) (batch_id uuid) = None" using refines_look(1) [OF s(2)] fresh by simp
        have dec': "decode_request (rq_Body ?rq) = Some (Some r)" using dec body by simp
        note made = mock_create [OF s(1) new dec' True d a(2)]
        have car: "carries (created_job cfg uuid now1 now2 r d) (created_batch uuid now1 r)"
          by (rule carries_created [OF decode_request_strings_ok [OF dec] now])
        have b: "b = Shows (created_batch uuid now1 r)"
          "sp' = \<lparr>sp_batches = sp_batches sp @ [(batch_id uuid, created_batch uuid now1 r)],
             sp_waiting = sort_key jp_SLO (sp_waiting sp @ [\<lparr>jp_ID = batch_id uuid, jp_SLO = now2 + d\<rparr>])\<rparr>"
          using call(2) dec True d by (auto simp: Let_def created_batch_def)
        have "refines s' sp'"
        proof (rule refinesI)
          show "distinct (map fst (sp_batches sp'))"
            using s(2) fresh by (auto simp: b(2) refines_def map_of_eq_None_iff)
          show "sp_waiting sp' = mpq_queue (w_queue s')"
            using s Enqueue_sort_key [of "w_queue s" "\<lparr>jp_ID = batch_id uuid, jp_SLO = now2 + d\<rparr>"]
            by (simp add: b(2) made(3) refines_def service_ok_def)
          have "rel_option carries (mdb_look (w_store s) k) (map_of (sp_batches sp) k)" for k
            using s(2) by (simp add: refines_def)
          then show "rel_option carries (mdb_look (w_store s') k) (map_of (sp_batches sp') k)" for k
            using fresh car by (simp add: b(2) made(2) map_of_append_fresh del: map_of_append)
        qed
        then show ?thesis by (simp add: a(1) b(1) made(1) rest_simps)
      qed
    qed
  qed
qed

lemma retrieve_refines:
  assumes s: "refines s sp"
    and call: "service_call cfg env (Retrieves k) s = (a, s')" "spec_call (Retrieves k) sp = (b, sp')"
  shows "says b a \<and> refines s' sp'"
proof (cases "k = []")
  case True
  then show ?thesis
    using call s by (auto simp: RetrieveBatch_def batch_request_def lookup_param_def bad_request_def rest_simps)
next
  case False
  have k: "PathValue (batch_request [] k) ''batch_id'' = k" by (simp add: batch_request_def lookup_param_def)
  note run = mock_retrieve [OF k False, of cfg "ce_order env" "ce_clock env" "ce_obs env" new_writer s]
  show ?thesis
  proof (cases "map_of (sp_batches sp) k")
    case None
    then show ?thesis
      using call False s run refines_look(1) [OF s, of k] by (auto simp: not_found_def rest_simps)
  next
    case (Some x)
    then obtain j where "mdb_look (w_store s) k = Some j" "carries j x" using refines_look(2) [OF s] by blast
    then show ?thesis
      using call False s run Some by (auto simp: jobToBatch_carries rest_simps)
  qed
qed

lemma cancel_refines:
  assumes s: "mock_ok s" "refines s sp" and now: "int64_ok (Unix now)" and live: "\<forall>n. fst (ce_obs env n) = None"
    and call: "service_call cfg env (Cancels now k) s = (a, s')" "spec_call (Cancels now k) sp = (b, sp')"
  shows "says b a \<and> refines s' sp'"
proof (cases "k = []")
  case True
  then show ?thesis
    using call s(2) by (auto simp: CancelBatch_def batch_request_def lookup_param_def bad_request_def rest_simps)
next
  case False
  let ?H = "env_handler cfg env" and ?rq = "batch_request [] k"
  have k: "PathValue ?rq ''batch_id'' = k" by (simp add: batch_request_def lookup_param_def)
  obtain res where a: "a = Response res" "CancelBatch ?H now ?rq new_writer s = (res, s')"
    using call(1) by (cases "CancelBatch ?H now ?rq new_writer s") simp
  have "res \<noteq> Returns (WriteInternalServerError new_writer)"
    using mock_cancel_no_500 [OF s(1) k False, of "ce_obs env"] live a(2) by (metis fst_conv)
  note cases = svc.cancel_cases [OF s(1) k False now a(2)]
  show ?thesis
  proof (cases "map_of (sp_batches sp) k")
    case None
    then have "mdb_look (w_store s) k = None" using refines_look(1) [OF s(2)] by simp
    then show ?thesis
      using cases \<open>res \<noteq> _\<close> call(2) None False s(2)
      by (auto simp: a(1) not_found_def rest_simps refines_def)
  next
    case (Some x)
    then obtain j where j: "mdb_look (w_store s) k = Some j" "carries j x" using refines_look(2) [OF s(2)] by blast
    have "(\<exists>b. carries j b \<and> P b) \<longleftrightarrow> P x" for P using carries_unique [OF j(2)] j(2) by blast
    note cases = cases [unfolded j(1) option.case this]
    have w: "sp_waiting sp = mpq_queue (w_queue s)" using s(2) by (simp add: refines_def)
    show ?thesis
    proof (cases "IsFinal (st_Status (b_Status x))")
      case True
      then show ?thesis
        using cases \<open>res \<noteq> _\<close> call(2) Some False s(2)
        by (auto simp: a(1) bad_request_def rest_simps refines_def)
    next
      case open_batch: False
      define y where "y = (if k \<in> jp_ID ` set (mpq_queue (w_queue s)) then mark_cancelled now x else mark_cancelling now x)"
      have b: "b = Shows y" "sp' = \<lparr>sp_batches = AList.update k y (sp_batches sp),
          sp_waiting = filter (\<lambda>x. jp_ID x \<noteq> k) (sp_waiting sp)\<rparr>"
        using call(2) Some False open_batch by (auto simp: Let_def y_def w)
      have wrote: "cancelled_as mdb_look k y new_writer res s'"
        using cases \<open>res \<noteq> _\<close> open_batch by (auto simp: y_def)
      then obtain j' where j': "mdb_look (w_store s') k = Some j'" "carries j' y"
        and res: "res = Returns (WriteJSONResponse 200 (Inr (jprint (enc_Batch y))) new_writer)"
        by (auto simp: cancelled_as_def)
      have "st_Status (b_Status y) \<noteq> BatchStatusValidating"
        by (simp add: y_def BatchStatusCancelled_def BatchStatusCancelling_def BatchStatusValidating_def)
      then have "\<forall>z \<in> set (mpq_queue (w_queue s')). jp_ID z \<noteq> k"
        using cases entry_not_status [of "mdb_look (w_store s')" _ k j' y] j' by (auto simp: service_ok_def)
      then have "mpq_queue (w_queue s') = filter (\<lambda>z. jp_ID z \<noteq> k) (mpq_queue (w_queue s'))"
        by (simp add: filter_True)
      also have "\<dots> = filter (\<lambda>z. jp_ID z \<noteq> k) (mpq_queue (w_queue s))" using cases by simp
      finally have q: "mpq_queue (w_queue s') = filter (\<lambda>z. jp_ID z \<noteq> k) (mpq_queue (w_queue s))" .
      have "refines s' sp'"
      proof (rule refinesI)
        show "distinct (map fst (sp_batches sp'))" using s(2) by (simp add: b(2) refines_def distinct_update)
        show "sp_waiting sp' = mpq_queue (w_queue s')" by (simp add: b(2) q w)
        show "rel_option carries (mdb_look (w_store s') k') (map_of (sp_batches sp') k')" for k'
          using s(2) j' cases by (auto simp: b(2) refines_def AList.update_conv')
      qed
      then show ?thesis by (simp add: a(1) b(1) res rest_simps)
    qed
  qed
qed

lemma list_refines:
  assumes s: "mock_ok s" "refines s sp"
    and call: "service_call cfg env (Lists l aft) s = (a, s')" "spec_call (Lists l aft) sp = (b, sp')"
  shows "says b a \<and> refines s' sp'"
proof (cases "\<exists>n m. parse_limit (page_of l aft) = Inr n \<and> parse_after (page_of l aft) = Inr m")
  case True
  then obtain n m where p: "parse_limit (page_of l aft) = Inr n" "parse_after (page_of l aft) = Inr m" by blast
  have len: "int (length (sp_batches sp)) = int (card (dom (mdb_look (w_store s))))"
    using refines_length [OF s(2)] by simp
  have stored: "(k, x) \<in> set (sp_batches sp)" if "mdb_look (w_store s) k = Some j" "jobToBatch j = Inr x" for k j x
  proof -
    have "map_of (sp_batches sp) k \<noteq> None" using refines_look(1) [OF s(2), of k] that(1) by simp
    then obtain x' where x': "map_of (sp_batches sp) k = Some x'" by blast
    then have "carries j x'" using refines_look(2) [OF s(2)] that(1) by force
    then have "x' = x" using that(2) jobToBatch_carries by fastforce
    then show ?thesis using x' by (simp add: map_of_SomeD)
  qed
  obtain resp where resp: "ListBatches (env_handler cfg env) (page_of l aft) new_writer s
       = (Returns (WriteJSONResponse 200 (Marshal (enc_ListBatchResponse resp)) new_writer), s)"
    "int (length (lb_Data resp)) = min n (int (length (sp_batches sp)))"
    "lb_HasMore resp \<longleftrightarrow> n < int (length (sp_batches sp))" "distinct (map b_ID (lb_Data resp))"
    "\<forall>b \<in> set (lb_Data resp). \<exists>j. mdb_look (w_store s) (b_ID b) = Some j \<and> jobToBatch j = Inr b"
    using mock_list_page [OF s(1) p, of cfg "ce_order env" "ce_clock env" "ce_obs env"] unfolding len by blast
  have "\<forall>x \<in> set (lb_Data resp). (b_ID x, x) \<in> set (sp_batches sp)" using resp(5) stored by blast
  then have "says (Page n (sp_batches sp))
      (Response (Returns (WriteJSONResponse 200 (Marshal (enc_ListBatchResponse resp)) new_writer)))"
    using resp(2-4) by (auto simp: rest_simps)
  then show ?thesis using call resp(1) p s(2) by auto
next
  case False
  then show ?thesis
    using call s(2) by (auto simp: ListBatches_def bad_request_def rest_simps split: sum.splits)
qed

lemma takes_refines:
  assumes s: "refines s sp"
    and call: "service_call cfg env Takes s = (a, s')" "spec_call Takes sp = (b, sp')"
  shows "says b a \<and> refines s' sp'"
proof (cases "mpq_queue (w_queue s)")
  case Nil
  then have "w_queue s = NewMockBatchPriorityQueueClient"
    by (cases "w_queue s") (simp add: NewMockBatchPriorityQueueClient_def)
  then show ?thesis
    using call s by (auto simp: mock_queue_def Dequeue_empty_step NewMockBatchPriorityQueueClient_def refines_def)
next
  case (Cons x xs)
  then show ?thesis
    using call s by (auto simp: mock_queue_def Dequeue_nonempty refines_def)
qed

section \<open>Any sequence of calls\<close>

fun created :: "api_call \<Rightarrow> string list" where
  "created (Creates uuid _ _ _) = [uuid]"
| "created _ = []"

text \<open>The times are those of a 64-bit clock and the request's context stays alive.\<close>

fun call_ok :: "call_env \<times> api_call \<Rightarrow> bool" where
  "call_ok (env, Creates _ now1 _ _) \<longleftrightarrow> int64_ok (Unix now1)"
| "call_ok (env, Cancels now _) \<longleftrightarrow> int64_ok (Unix now) \<and> (\<forall>n. fst (ce_obs env n) = None)"
| "call_ok _ \<longleftrightarrow> True"

lemma call_refines:
  assumes "mock_ok s" "refines s sp" and "call_ok (env, call)"
    and "\<forall>uuid \<in> set (created call). map_of (sp_batches sp) (batch_id uuid) = None"
    and "service_call cfg env call s = (a, s')" "spec_call call sp = (b, sp')"
  shows "says b a \<and> refines s' sp'"
proof (cases call)
  case (Creates uuid now1 now2 body)
  show ?thesis
    using create_refines [OF assms(1,2) _ _ assms(5,6) [unfolded Creates]] assms(3,4) Creates by simp
next
  case (Retrieves k)
  show ?thesis by (rule retrieve_refines [OF assms(2) assms(5,6) [unfolded Retrieves]])
next
  case (Cancels now k)
  show ?thesis
    using cancel_refines [OF assms(1,2) _ _ assms(5,6) [unfolded Cancels]] assms(3) Cancels by simp
next
  case (Lists l aft)
  show ?thesis by (rule list_refines [OF assms(1,2) assms(5,6) [unfolded Lists]])
next
  case Takes
  show ?thesis by (rule takes_refines [OF assms(2) assms(5,6) [unfolded Takes]])
qed

lemma call_keeps_ok:
  assumes "mock_ok s" and "call_ok (env, call)"
    and "\<forall>uuid \<in> set (created call). mdb_look (w_store s) (batch_id uuid) = None"
    and "service_call cfg env call s = (a, s')"
  shows "mock_ok s'"
proof (cases call)
  case (Creates uuid now1 now2 body)
  then obtain res where
    "CreateBatch (env_handler cfg env) uuid now1 now2 (batch_request body []) new_writer s = (res, s')"
    using assms(4) by (auto simp: apfst_def map_prod_def split: prod.splits)
  from svc.create_ok [OF assms(1) _ _ this] show ?thesis using assms(2,3) Creates by simp
next
  case (Retrieves k)
  then obtain res where "RetrieveBatch (env_handler cfg env) (batch_request [] k) new_writer s = (res, s')"
    using assms(4) by (auto simp: apfst_def map_prod_def split: prod.splits)
  from svc.retrieve_ok [OF assms(1) this] show ?thesis .
next
  case (Cancels now k)
  then obtain res where "CancelBatch (env_handler cfg env) now (batch_request [] k) new_writer s = (res, s')"
    using assms(4) by (auto simp: apfst_def map_prod_def split: prod.splits)
  from svc.cancel_ok [OF assms(1) _ this] show ?thesis using assms(2) Cancels by simp
next
  case (Lists l aft)
  then obtain res where "ListBatches (env_handler cfg env) (page_of l aft) new_writer s = (res, s')"
    using assms(4) by (auto simp: apfst_def map_prod_def split: prod.splits)
  from svc.list_frame [OF assms(1) this] show ?thesis by simp
next
  case Takes
  then show ?thesis
    using svc.dequeue_ok [OF assms(1)] assms(1,4) by (auto split: go_result.splits)
qed

lemma update_stored:
  assumes "map_of xs k = Some v" and "(a, x) \<in> set (AList.update k w xs)"
  shows "a \<in> fst ` set xs"
proof -
  have "k \<in> fst ` set xs" using map_of_SomeD [OF assms(1)] by force
  moreover have "a \<in> fst ` set (AList.update k w xs)" using assms(2) by force
  ultimately show ?thesis by (simp only: dom_update) blast
qed

lemma spec_call_keys:
  assumes "spec_call call sp = (b, sp')"
  shows "fst ` set (sp_batches sp') \<subseteq> fst ` set (sp_batches sp) \<union> batch_id ` set (created call)"
  using assms
  by (cases call) (auto simp: Let_def dest: update_stored
      split: option.splits prod.splits if_splits bool.splits sum.splits)

lemma run_refines:
  assumes "mock_ok s" "refines s sp" and "\<forall>x \<in> set calls. call_ok x"
    and "distinct (concat (map (created \<circ> snd) calls))"
    and "\<forall>uuid \<in> set (concat (map (created \<circ> snd) calls)). batch_id uuid \<notin> fst ` set (sp_batches sp)"
  shows "list_all2 says (fst (spec_run (map snd calls) sp)) (fst (service_run cfg calls s)) \<and>
     refines (snd (service_run cfg calls s)) (snd (spec_run (map snd calls) sp))"
  using assms
proof (induction calls arbitrary: s sp)
  case Nil
  then show ?case by simp
next
  case (Cons x calls)
  obtain env call where x: "x = (env, call)" by fastforce
  obtain a s' where a: "service_call cfg env call s = (a, s')" by fastforce
  obtain b sp' where b: "spec_call call sp = (b, sp')" by fastforce
  have ok: "call_ok (env, call)" using Cons.prems(3) x by simp
  have free: "\<forall>uuid \<in> set (created call). map_of (sp_batches sp) (batch_id uuid) = None"
    using Cons.prems(5) x by (simp add: map_of_eq_None_iff)
  then have "\<forall>uuid \<in> set (created call). mdb_look (w_store s) (batch_id uuid) = None"
    using refines_look(1) [OF Cons.prems(2)] by simp
  then have ok': "mock_ok s'" by (rule call_keeps_ok [OF Cons.prems(1) ok _ a])
  have ab: "says b a" "refines s' sp'" using call_refines [OF Cons.prems(1,2) ok free a b] by auto
  have "batch_id uuid \<notin> fst ` set (sp_batches sp')" if "uuid \<in> set (concat (map (created \<circ> snd) calls))" for uuid
  proof -
    have "uuid \<notin> set (created call)" "batch_id uuid \<notin> fst ` set (sp_batches sp)"
      using Cons.prems(4,5) x that by auto
    then show ?thesis using spec_call_keys [OF b] by (auto simp del: set_concat simp: batch_id_def)
  qed
  then have "\<forall>uuid \<in> set (concat (map (created \<circ> snd) calls)). batch_id uuid \<notin> fst ` set (sp_batches sp')"
    by blast
  then show ?case
    using Cons.IH [OF ok' ab(2)] Cons.prems(3,4) ab(1) a b x by (auto split: prod.split)
qed

lemma refines_init: "refines mock_world spec_init"
  by (simp add: refines_def spec_init_def mock_world_def mdb_look_def NewMockBatchDBClient_def
      NewMockBatchPriorityQueueClient_def)

section \<open>The refinement\<close>

text \<open>C1: the handlers on the in-memory clients refine the abstract service. For every sequence of
  create, retrieve, cancel and list requests and of workers taking the next job, in any order, with
  different identifiers for the batches created, request contexts that stay alive and any order of
  the map, each reply is the answer of the abstract service: the same status and the very JSON text
  of its batch, a page of its batches, or its next job; and the states agree at the end.\<close>

theorem service_refines_spec:
  assumes "\<forall>x \<in> set calls. call_ok x" and "distinct (concat (map (created \<circ> snd) calls))"
  shows "list_all2 says (fst (spec_run (map snd calls) spec_init)) (fst (service_run cfg calls mock_world)) \<and>
     refines (snd (service_run cfg calls mock_world)) (snd (spec_run (map snd calls) spec_init))"
  by (rule run_refines [OF mock_world_ok refines_init assms]) (simp add: spec_init_def)

definition sample_env :: call_env where
  "sample_env = \<lparr>ce_order = id, ce_clock = \<lambda>_. [], ce_obs = \<lambda>_. (None, True)\<rparr>"

definition sample_calls :: "(call_env \<times> api_call) list" where
  "sample_calls = map (Pair sample_env)
     [Creates ''u1'' sample_now sample_now sample_body, Creates ''u2'' sample_now (sample_now - 1) sample_body,
      Takes, Cancels sample_now ''batch_u1'', Cancels sample_now ''batch_u2'', Takes,
      Retrieves ''batch_u1'', Cancels sample_now ''batch_u1'', Lists ''1'' []]"

text \<open>The later batch has the earlier deadline: it is handed out, and then only asked to stop.\<close>

lemma sample_spec_run:
  "case fst (spec_run (map snd sample_calls) spec_init) of
     [Shows b1, Shows b2, Hands [x], Shows b1', Shows b2', Hands [], Shows b1'', Refuses n, Page m bs] \<Rightarrow>
       n = 400 \<and> m = 1 \<and> jp_ID x = ''batch_u2'' \<and> b1' = mark_cancelled sample_now b1 \<and> b2' = mark_cancelling sample_now b2 \<and>
       b1'' = b1' \<and> length bs = 2
   | _ \<Rightarrow> False"
  by code_simp

theorem service_refines_spec_witness:
  "list_all2 says (fst (spec_run (map snd sample_calls) spec_init))
     (fst (service_run NewConfig sample_calls mock_world))"
proof -
  have "\<forall>x \<in> set sample_calls. call_ok x"
    using sample_now_ok by (simp add: sample_calls_def sample_env_def)
  moreover have "distinct (concat (map (created \<circ> snd) sample_calls))" by code_simp
  ultimately show ?thesis using service_refines_spec by blast
qed

end
