(* ===== verification/GoPath.thy ===== *)
theory GoPath
  imports GoJson
begin

text \<open>
  The functions on paths the gateway takes from Go's standard library: \<open>path.Clean\<close> (which is
  \<open>filepath.Clean\<close> on a system whose separator is a slash), \<open>filepath.Join\<close>, and the escaping of
  URL paths. The main facts: a cleaned path is in normal form (\<open>Clean_normal\<close>) and cleaning it
  again changes nothing (\<open>Clean_idem\<close>).
\<close>

section \<open>Splitting and joining\<close>

fun split_on :: "char \<Rightarrow> string \<Rightarrow> string list" where
  "split_on d [] = [[]]"
| "split_on d (c # s) =
     (if c = d then [] # split_on d s
      else (case split_on d s of [] \<Rightarrow> [[c]] | x # xs \<Rightarrow> (c # x) # xs))"

fun join_on :: "string \<Rightarrow> string list \<Rightarrow> string" where
  "join_on d [] = []"
| "join_on d [x] = x"
| "join_on d (x # y # xs) = x @ d @ join_on d (y # xs)"

lemma split_on_nonempty [simp]: "split_on d s \<noteq> []"
  by (induction s) (auto split: list.split)

lemma split_on_free: "d \<notin> set s \<Longrightarrow> split_on d s = [s]"
  by (induction s) auto

lemma split_on_app: "d \<notin> set s \<Longrightarrow> split_on d (s @ d # t) = s # split_on d t"
  by (induction s) auto

lemma split_on_parts: "x \<in> set (split_on d s) \<Longrightarrow> d \<notin> set x"
  by (induction s arbitrary: x) (auto split: list.splits if_splits)

lemma split_join: "xs \<noteq> [] \<Longrightarrow> \<forall>x \<in> set xs. d \<notin> set x \<Longrightarrow> split_on d (join_on [d] xs) = xs"
  by (induction "[d]" xs rule: join_on.induct) (auto simp: split_on_free split_on_app)

lemma join_on_empty: "join_on d xs = [] \<Longrightarrow> \<forall>x \<in> set xs. x \<noteq> [] \<Longrightarrow> xs = []"
  by (induction d xs rule: join_on.induct) auto

lemma hd_join_on: "xs \<noteq> [] \<Longrightarrow> hd xs \<noteq> [] \<Longrightarrow> hd (join_on d xs) = hd (hd xs)"
  by (induction d xs rule: join_on.induct) auto

section \<open>Clean\<close>

abbreviation slash :: char where "slash \<equiv> CHR ''/''"

text \<open>One element of the path, on the reversed list of the elements kept so far.\<close>

definition clean_elem :: "bool \<Rightarrow> string \<Rightarrow> string list \<Rightarrow> string list" where
  "clean_elem rooted e st =
     (if e = [] \<or> e = ''.'' then st
      else if e = ''..'' then
        (case st of
           [] \<Rightarrow> if rooted then [] else [''..'']
         | x # xs \<Rightarrow> if x = ''..'' then ''..'' # st else xs)
      else e # st)"

definition Clean :: "string \<Rightarrow> string" where
  "Clean p =
     (if p = [] then ''.''
      else
       (let rooted = (hd p = slash);
            elems = rev (fold (clean_elem rooted) (split_on slash p) []);
            out = (if rooted then [slash] else []) @ join_on [slash] elems
        in if out = [] then ''.'' else out))"

text \<open>\<open>filepath.Join\<close>: empty elements are left out, the result is clean, or empty.\<close>

definition Join :: "string list \<Rightarrow> string" where
  "Join elems =
     (let es = filter (\<lambda>e. e \<noteq> []) elems in if es = [] then [] else Clean (join_on [slash] es))"

text \<open>
  Normal forms: no empty element and no dot; a double dot only in front, and nowhere in a rooted path.
\<close>

fun normal :: "bool \<Rightarrow> string list \<Rightarrow> bool" where
  "normal rooted [] \<longleftrightarrow> True"
| "normal rooted (e # es) \<longleftrightarrow>
     e \<noteq> [] \<and> e \<noteq> ''.'' \<and> slash \<notin> set e \<and>
     (if e = ''..'' then \<not> rooted else ''..'' \<notin> set es) \<and> normal rooted es"

lemma normal_append:
  "normal r (xs @ ys) \<longleftrightarrow>
     normal r xs \<and> normal r ys \<and> (''..'' \<in> set ys \<longrightarrow> set xs \<subseteq> {''..''})"
  by (induction xs) auto

lemma normal_rooted: "normal True es \<Longrightarrow> ''..'' \<notin> set es"
  by (induction es) (auto split: if_splits)

lemma normal_parts: "normal r es \<Longrightarrow> e \<in> set es \<Longrightarrow> e \<noteq> [] \<and> e \<noteq> ''.'' \<and> slash \<notin> set e"
  by (induction es) auto

lemma normal_head: "normal r es \<Longrightarrow> es \<noteq> [] \<Longrightarrow> hd es \<noteq> [] \<and> slash \<notin> set (hd es)"
  by (cases es) auto

lemma clean_elem_normal:
  assumes "normal r (rev st)" and "slash \<notin> set e"
  shows "normal r (rev (clean_elem r e st))"
proof -
  have nd: "''..'' \<notin> set xs" if "x \<noteq> ''..''" "st = x # xs" "r" for x xs
    using normal_rooted [of "rev st"] assms(1) that by simp
  have *: "set xs \<subseteq> {''..''}" if "st = ''..'' # xs" for xs
    using assms(1) that by (auto simp: normal_append)
  show ?thesis
    using assms * by (cases st) (auto simp: clean_elem_def normal_append dest: normal_rooted split: if_splits)
qed

lemma fold_clean_normal:
  "normal r (rev st) \<Longrightarrow> \<forall>e \<in> set es. slash \<notin> set e \<Longrightarrow> normal r (rev (fold (clean_elem r) es st))"
  by (induction es arbitrary: st) (simp_all add: clean_elem_normal)

lemma fold_clean_id: "normal r (rev st @ es) \<Longrightarrow> fold (clean_elem r) es st = rev es @ st"
proof (induction es arbitrary: st)
  case (Cons e es)
  have e: "e \<noteq> []" "e \<noteq> ''.''" "e = ''..'' \<Longrightarrow> \<not> r \<and> set st \<subseteq> {''..''}"
    using Cons.prems by (auto simp: normal_append)
  then have "clean_elem r e st = e # st" by (cases st) (auto simp: clean_elem_def)
  then show ?case using Cons by simp
qed simp

text \<open>The shape of a clean path.\<close>

lemma Clean_normal:
  obtains "Clean p = ''.''"
  | r es where "normal r es" "r \<or> es \<noteq> []" "r = (p \<noteq> [] \<and> hd p = slash)"
      "Clean p = (if r then [slash] else []) @ join_on [slash] es"
proof -
  let ?r = "hd p = slash"
  let ?es = "rev (fold (clean_elem ?r) (split_on slash p) [])"
  have n: "normal ?r ?es"
    by (rule fold_clean_normal) (auto dest: split_on_parts)
  show ?thesis
  proof (cases "p = [] \<or> \<not> ?r \<and> ?es = []")
    case True
    then show ?thesis using that(1) by (auto simp: Clean_def Let_def)
  next
    case False
    have "join_on [slash] ?es \<noteq> []" if "?es \<noteq> []"
      using join_on_empty [of "[slash]" ?es] that normal_parts [OF n] by blast
    then have "Clean p = (if ?r then [slash] else []) @ join_on [slash] ?es"
      using False by (auto simp: Clean_def Let_def)
    then show ?thesis using that(2) [OF n] False by auto
  qed
qed

lemma Clean_of_normal:
  assumes "normal r es" and "r \<or> es \<noteq> []"
  shows "Clean ((if r then [slash] else []) @ join_on [slash] es) = (if r then [slash] else []) @ join_on [slash] es"
proof (cases "es = []")
  case True
  then show ?thesis using assms by (simp add: Clean_def clean_elem_def)
next
  case False
  have parts: "split_on slash (join_on [slash] es) = es"
    using split_join [OF False, of slash] normal_parts [OF assms(1)] by blast
  have ne: "join_on [slash] es \<noteq> []" using parts False by (metis split_on.simps(1) assms(1) list.sel(1) normal_head)
  have "hd (join_on [slash] es) \<noteq> slash"
    using hd_join_on [OF False] normal_head [OF assms(1) False] by (metis hd_in_set)
  moreover have "fold (clean_elem r) es [] = rev es" using fold_clean_id [of r "[]" es] assms(1) by simp
  ultimately show ?thesis using parts ne by (cases r) (simp_all add: Clean_def Let_def clean_elem_def)
qed

lemma Clean_dot: "Clean ''.'' = ''.''"
  by code_simp

lemma Clean_idem: "Clean (Clean p) = Clean p"
proof (rule Clean_normal [of p])
  show "Clean p = ''.'' \<Longrightarrow> Clean (Clean p) = Clean p" by (simp add: Clean_dot)
next
  fix r es
  assume "normal r es" "r \<or> es \<noteq> []" "Clean p = (if r then [slash] else []) @ join_on [slash] es"
  then show "Clean (Clean p) = Clean p" using Clean_of_normal [of r es] by simp
qed

lemma Clean_nonempty [simp]: "Clean p \<noteq> []"
  by (simp add: Clean_def Let_def)

lemma hd_Clean: "p \<noteq> [] \<Longrightarrow> hd p = slash \<Longrightarrow> hd (Clean p) = slash"
  by (simp add: Clean_def Let_def)

section \<open>Escaping\<close>

text \<open>\<open>url.PathUnescape\<close>; \<open>None\<close> for a percent sign without two hexadecimal digits.\<close>

fun PathUnescape :: "string \<Rightarrow> string option" where
  "PathUnescape [] = Some []"
| "PathUnescape (c # s) =
     (if c = CHR ''%'' then
        (case s of
           a # b # t \<Rightarrow>
             (case (hex_value a, hex_value b) of
                (Some x, Some y) \<Rightarrow> map_option ((#) (char_of (nat (16 * x + y)))) (PathUnescape t)
              | _ \<Rightarrow> None)
         | _ \<Rightarrow> None)
      else map_option ((#) c) (PathUnescape s))"

lemma PathUnescape_plain: "CHR ''%'' \<notin> set s \<Longrightarrow> PathUnescape s = Some s"
  by (induction s) auto

text \<open>The encoding of a path in a URL: every byte that is not allowed in a path as it is.\<close>

definition path_char :: "char \<Rightarrow> bool" where
  "path_char c \<longleftrightarrow>
     48 \<le> byte c \<and> byte c \<le> 57 \<or> 65 \<le> byte c \<and> byte c \<le> 90 \<or> 97 \<le> byte c \<and> byte c \<le> 122 \<or>
     c \<in> set ''-_.~$&+,/:;=@''"

definition upper_hex :: "int \<Rightarrow> char" where
  "upper_hex n = (if n < 10 then digit n else char_of (nat (55 + n)))"

definition percent :: "char \<Rightarrow> string" where
  "percent c = [CHR ''%'', upper_hex (byte c div 16), upper_hex (byte c mod 16)]"

definition escape_path :: "string \<Rightarrow> string" where
  "escape_path s = concat (map (\<lambda>c. if path_char c then [c] else percent c) s)"

lemma escape_path_plain: "list_all path_char s \<Longrightarrow> escape_path s = s"
  by (induction s) (simp_all add: escape_path_def)

end
