(* ===== verification/ServeMux.thy ===== *)
theory ServeMux
  imports Rest GoPath
begin

text \<open>
  The request router of \<open>net/http\<close> (\<open>ServeMux\<close>), as far as the gateway uses it, and
  \<open>RegisterHandler\<close> of \<open>internal/apiserver/common/rest.go\<close>. Patterns have a method, no host, and
  segments that are literals or wildcards for one segment; a pattern with a host, a trailing slash
  or a wildcard for several segments is outside the model and refused. The main facts:
  \<open>match_path_segments\<close> (matching depends on the unescaped segments of the path) and
  \<open>cleanPath_idem\<close>.
\<close>

section \<open>Patterns\<close>

datatype seg = Lit string | Wild string

record pattern =
  pt_method :: string
  pt_segs :: "seg list"

definition unescaped :: "string \<Rightarrow> string" where
  "unescaped s = (case PathUnescape s of None \<Rightarrow> s | Some t \<Rightarrow> t)"

definition name_char :: "char \<Rightarrow> bool" where
  "name_char c \<longleftrightarrow> is_digit c \<or> 65 \<le> byte c \<and> byte c \<le> 90 \<or> 97 \<le> byte c \<and> byte c \<le> 122 \<or> c = CHR ''_''"

definition parse_seg :: "string \<Rightarrow> seg option" where
  "parse_seg s =
     (if CHR ''{'' \<notin> set s then Some (Lit (unescaped s))
      else if hd s = CHR ''{'' \<and> last s = CHR ''}'' then
        (let name = butlast (tl s)
         in if name \<noteq> [] \<and> list_all name_char name \<and> \<not> is_digit (hd name) then Some (Wild name) else None)
      else None)"

fun parse_segs :: "string list \<Rightarrow> seg list option" where
  "parse_segs [] = Some []"
| "parse_segs (s # ss) =
     (case (parse_seg s, parse_segs ss) of (Some x, Some xs) \<Rightarrow> Some (x # xs) | _ \<Rightarrow> None)"

fun wild_names :: "seg list \<Rightarrow> string list" where
  "wild_names [] = []"
| "wild_names (Wild n # ss) = n # wild_names ss"
| "wild_names (Lit s # ss) = wild_names ss"

text \<open>\<open>cleanPath\<close> of \<open>net/http\<close>: a rooted, clean path that keeps its trailing slash.\<close>

definition ends_slash :: "string \<Rightarrow> bool" where
  "ends_slash p \<longleftrightarrow> p \<noteq> [] \<and> last p = slash"

definition cleanPath :: "string \<Rightarrow> string" where
  "cleanPath p =
     (if p = [] then [slash]
      else
       (let p = (if hd p \<noteq> slash then slash # p else p);
            np = Clean p
        in if ends_slash p \<and> np \<noteq> [slash] then np @ [slash] else np))"

definition parse_pattern :: "string \<Rightarrow> pattern option" where
  "parse_pattern s =
     (let blank = (\<lambda>c. c = CHR '' '' \<or> c = CHR 0x09);
          head = takeWhile (\<lambda>c. \<not> blank c) s;
          found = (head \<noteq> s);
          meth = (if found then head else []);
          rest = dropWhile blank (if found then drop (length head) s else s)
      in if found \<and> \<not> (meth \<noteq> [] \<and> list_all token_char meth) then None
         else if rest = [] \<or> hd rest \<noteq> slash then None
         else if meth \<noteq> [] \<and> meth \<noteq> ''CONNECT'' \<and> cleanPath rest \<noteq> rest then None
         else if ends_slash rest then None
         else (case parse_segs (split_on slash (tl rest)) of
             None \<Rightarrow> None
           | Some segs \<Rightarrow>
               (if distinct (wild_names segs) then Some \<lparr>pt_method = meth, pt_segs = segs\<rparr> else None)))"

section \<open>Conflicts\<close>

datatype relationship = Equivalent | MoreGeneral | MoreSpecific | Disjoint | Overlaps

fun inverse_rel :: "relationship \<Rightarrow> relationship" where
  "inverse_rel MoreGeneral = MoreSpecific"
| "inverse_rel MoreSpecific = MoreGeneral"
| "inverse_rel r = r"

definition combine_rel :: "relationship \<Rightarrow> relationship \<Rightarrow> relationship" where
  "combine_rel r1 r2 =
     (case r1 of
        Equivalent \<Rightarrow> r2
      | Disjoint \<Rightarrow> Disjoint
      | Overlaps \<Rightarrow> (if r2 = Disjoint then Disjoint else Overlaps)
      | _ \<Rightarrow> (if r2 = Equivalent then r1 else if r2 = inverse_rel r1 then Overlaps else r2))"

definition compare_methods :: "string \<Rightarrow> string \<Rightarrow> relationship" where
  "compare_methods m1 m2 =
     (if m1 = m2 then Equivalent
      else if m1 = [] then MoreGeneral
      else if m2 = [] then MoreSpecific
      else if m1 = ''GET'' \<and> m2 = ''HEAD'' then MoreGeneral
      else if m2 = ''GET'' \<and> m1 = ''HEAD'' then MoreSpecific
      else Disjoint)"

fun compare_seg :: "seg \<Rightarrow> seg \<Rightarrow> relationship" where
  "compare_seg (Wild _) (Wild _) = Equivalent"
| "compare_seg (Wild _) (Lit _) = MoreGeneral"
| "compare_seg (Lit _) (Wild _) = MoreSpecific"
| "compare_seg (Lit a) (Lit b) = (if a = b then Equivalent else Disjoint)"

definition compare_paths :: "seg list \<Rightarrow> seg list \<Rightarrow> relationship" where
  "compare_paths ss ts =
     (if length ss \<noteq> length ts then Disjoint
      else foldl combine_rel Equivalent (map2 compare_seg ss ts))"

definition conflicts :: "pattern \<Rightarrow> pattern \<Rightarrow> bool" where
  "conflicts p q \<longleftrightarrow>
     (let mrel = compare_methods (pt_method p) (pt_method q);
          rel = (if mrel = Disjoint then Disjoint
                 else combine_rel mrel (compare_paths (pt_segs p) (pt_segs q)))
      in rel = Equivalent \<or> rel = Overlaps)"

section \<open>Registration\<close>

text \<open>The registered patterns with their handlers, in the order of registration.\<close>

type_synonym 'h mux = "(pattern \<times> 'h) list"

definition HandleFunc :: "string \<Rightarrow> 'h \<Rightarrow> 'h mux \<Rightarrow> 'h mux go_result" where
  "HandleFunc pattern_text h mux =
     (case parse_pattern pattern_text of
        None \<Rightarrow> Panics (''parsing '' @ pattern_text)
      | Some p \<Rightarrow>
          (if \<exists>q \<in> set mux. conflicts p (fst q) then
             Panics (''pattern '' @ pattern_text @ '' conflicts with a registered pattern'')
           else Returns (mux @ [(p, h)])))"

text \<open>The routes of a handler: method, pattern and function.\<close>

type_synonym 'h route = "string \<times> string \<times> 'h"

fun RegisterHandler :: "'h route list \<Rightarrow> 'h mux \<Rightarrow> 'h mux go_result" where
  "RegisterHandler [] mux = Returns mux"
| "RegisterHandler ((method, pattern_text, h) # routes) mux =
     (case HandleFunc (method @ '' '' @ pattern_text) h mux of
        Returns mux' \<Rightarrow> RegisterHandler routes mux'
      | r \<Rightarrow> r)"

section \<open>Matching\<close>

definition firstSegment :: "string \<Rightarrow> string \<times> string" where
  "firstSegment p =
     (if p = [slash] then ([slash], [])
      else
       (let p = tl p
        in (unescaped (takeWhile (\<lambda>c. c \<noteq> slash) p), dropWhile (\<lambda>c. c \<noteq> slash) p)))"

lemma firstSegment_length: "p \<noteq> [] \<Longrightarrow> length (snd (firstSegment p)) < length p"
proof (cases p)
  case (Cons c s)
  have "length (dropWhile (\<lambda>c. c \<noteq> slash) s) \<le> length s" by (rule length_dropWhile_le)
  then show ?thesis by (simp add: firstSegment_def Let_def Cons)
qed simp

text \<open>The children of a node: the patterns that go on with a literal, or with a wildcard.\<close>

definition lit_children :: "string \<Rightarrow> (seg list \<times> 'a) list \<Rightarrow> (seg list \<times> 'a) list" where
  "lit_children s ts = [(tl (fst t), snd t). t \<leftarrow> ts, fst t \<noteq> [] \<and> hd (fst t) = Lit s]"

fun is_wild :: "seg \<Rightarrow> bool" where
  "is_wild (Wild _) = True"
| "is_wild (Lit _) = False"

definition wild_children :: "(seg list \<times> 'a) list \<Rightarrow> (seg list \<times> 'a) list" where
  "wild_children ts = [(tl (fst t), snd t). t \<leftarrow> ts, fst t \<noteq> [] \<and> is_wild (hd (fst t))]"

function match_path :: "(seg list \<times> 'a) list \<Rightarrow> string \<Rightarrow> ('a \<times> string list) option" where
  "match_path ts p =
     (if p = [] then map_option (\<lambda>t. (snd t, [])) (find (\<lambda>t. fst t = []) ts)
      else
       (let (s, rest) = firstSegment p
        in case match_path (lit_children s ts) rest of
             Some r \<Rightarrow> Some r
           | None \<Rightarrow>
               (if s = [slash] then None
                else (case match_path (wild_children ts) rest of
                    None \<Rightarrow> None
                  | Some (h, vs) \<Rightarrow> Some (h, s # vs)))))"
  by pat_completeness auto
termination
  by (relation "measure (\<lambda>(ts, p). length p)") (auto, (metis firstSegment_length snd_conv)+)

declare match_path.simps [simp del]

definition with_method :: "string \<Rightarrow> 'h mux \<Rightarrow> (seg list \<times> pattern \<times> 'h) list" where
  "with_method m mux = [(pt_segs p, p, h). (p, h) \<leftarrow> mux, pt_method p = m]"

text \<open>\<open>matchMethodAndPath\<close>: the method itself, \<open>GET\<close> for \<open>HEAD\<close>, patterns without a method.\<close>

definition match_request :: "'h mux \<Rightarrow> string \<Rightarrow> string \<Rightarrow> ((pattern \<times> 'h) \<times> string list) option" where
  "match_request mux m p =
     (case match_path (with_method m mux) p of
        Some r \<Rightarrow> Some r
      | None \<Rightarrow>
          (case (if m = ''HEAD'' then match_path (with_method ''GET'' mux) p else None) of
             Some r \<Rightarrow> Some r
           | None \<Rightarrow> match_path (with_method [] mux) p))"

fun insert_str :: "string \<Rightarrow> string list \<Rightarrow> string list" where
  "insert_str s [] = [s]"
| "insert_str s (t # ts) = (if s = t then t # ts else if str_less s t then s # t # ts else t # insert_str s ts)"

definition path_methods :: "'h mux \<Rightarrow> string \<Rightarrow> string list" where
  "path_methods mux p =
     [m. m \<leftarrow> map (pt_method \<circ> fst) mux, m \<noteq> [] \<and> match_path (with_method m mux) p \<noteq> None]"

definition matching_methods :: "'h mux \<Rightarrow> string \<Rightarrow> string list" where
  "matching_methods mux p =
     (let ms = path_methods mux p @ (if ends_slash p then [] else path_methods mux (p @ [slash]));
          ms = (if ''GET'' \<in> set ms then ''HEAD'' # ms else ms)
      in foldr insert_str ms [])"

section \<open>The answer of the router\<close>

text \<open>
  What the router and the middleware read of a request besides what the handlers read: the
  path as it was sent, the text of the query, the headers, and the request identifier a middleware
  put into the context.
\<close>

record server_request =
  sr_rq :: http_request
  sr_EscapedPath :: string
  sr_RawQuery :: string
  sr_Header :: headers
  sr_requestID :: "string option"

datatype 'h mux_answer =
    Found "pattern \<times> 'h" "string list"
  | Moved string
  | NotAllowed "string list"
  | NoPage

definition with_query :: "string \<Rightarrow> string \<Rightarrow> string" where
  "with_query p q = (if q = [] then p else p @ CHR ''?'' # q)"

definition find_handler :: "'h mux \<Rightarrow> server_request \<Rightarrow> 'h mux_answer" where
  "find_handler mux r =
     (let m = rq_Method (sr_rq r);
          escaped = sr_EscapedPath r;
          p = (if m = ''CONNECT'' then escaped else cleanPath escaped);
          found = match_request mux m p
      in if found = None \<and> \<not> ends_slash p \<and> match_request mux m (p @ [slash]) \<noteq> None then
           Moved (with_query (escape_path (cleanPath (rq_Path (sr_rq r)) @ [slash])) (sr_RawQuery r))
         else if p \<noteq> escaped then Moved (with_query (escape_path p) (sr_RawQuery r))
         else (case found of
             Some (h, vs) \<Rightarrow> Found h vs
           | None \<Rightarrow>
               (let ms = matching_methods mux p in if ms \<noteq> [] then NotAllowed ms else NoPage)))"

text \<open>\<open>http.Error\<close>, and \<open>http.Redirect\<close> with its short page for \<open>GET\<close>.\<close>

definition http_Error :: "string \<Rightarrow> int \<Rightarrow> response_writer \<Rightarrow> response_writer" where
  "http_Error msg code w =
     write_body (msg @ [CHR 0x0A])
       (write_header code
         (set_header ''X-Content-Type-Options'' ''nosniff''
           (set_header ''Content-Type'' ''text/plain; charset=utf-8'' w)))"

definition html_escape :: "string \<Rightarrow> string" where
  "html_escape s = concat (map (\<lambda>c.
     if c = CHR ''&'' then ''&amp;'' else if c = CHR ''<'' then ''&lt;'' else if c = CHR ''>'' then ''&gt;''
     else if byte c = 34 then ''&#34;'' else if byte c = 39 then ''&#39;'' else [c]) s)"

definition hex_escape_non_ascii :: "string \<Rightarrow> string" where
  "hex_escape_non_ascii s = concat (map (\<lambda>c. if byte c \<ge> 128 then [CHR ''%'', hex_digit (byte c div 16), hex_digit (byte c mod 16)] else [c]) s)"

definition Redirect_moved :: "string \<Rightarrow> string \<Rightarrow> response_writer \<Rightarrow> response_writer" where
  "Redirect_moved m url w =
     (let path = takeWhile (\<lambda>c. c \<noteq> CHR ''?'') url;
          query = dropWhile (\<lambda>c. c \<noteq> CHR ''?'') url;
          cleaned = Clean path;
          cleaned = (if ends_slash path \<and> \<not> ends_slash cleaned then cleaned @ [slash] else cleaned);
          url = cleaned @ query;
          had = (\<exists>h \<in> set (rw_header w). fst h = ''Content-Type'');
          w = set_header ''Location'' (hex_escape_non_ascii url) w;
          w = (if \<not> had \<and> (m = ''GET'' \<or> m = ''HEAD'')
               then set_header ''Content-Type'' ''text/html; charset=utf-8'' w else w);
          w = write_header 301 w
      in if \<not> had \<and> m = ''GET'' then
           write_body (''<a href='' @ quote # html_escape url @ quote # ''>Moved Permanently</a>.'' @ [CHR 0x0A, CHR 0x0A]) w
         else w)"

text \<open>
  \<open>ServeHTTP\<close> of the router: \<open>serve\<close> runs the handler that was found, on the request with the
  wildcards bound. A call ends with the writer, in a panic at which the writer was in a given
  state, or not at all.
\<close>

datatype outcome = Served response_writer | Panicked error response_writer | Hangs

definition bind_path :: "pattern \<Rightarrow> string list \<Rightarrow> server_request \<Rightarrow> server_request" where
  "bind_path p vs r = r\<lparr>sr_rq := (sr_rq r)\<lparr>rq_PathValues := zip (wild_names (pt_segs p)) vs\<rparr>\<rparr>"

definition mux_ServeHTTP ::
  "('h \<Rightarrow> server_request \<Rightarrow> response_writer \<Rightarrow> 's \<Rightarrow> outcome \<times> 's) \<Rightarrow> 'h mux
    \<Rightarrow> server_request \<Rightarrow> response_writer \<Rightarrow> 's \<Rightarrow> outcome \<times> 's" where
  "mux_ServeHTTP serve mux r w s =
     (case find_handler mux r of
        Found (p, h) vs \<Rightarrow> serve h (bind_path p vs r) w s
      | Moved url \<Rightarrow> (Served (Redirect_moved (rq_Method (sr_rq r)) url w), s)
      | NotAllowed ms \<Rightarrow>
          (Served (http_Error ''Method Not Allowed'' 405 (set_header ''Allow'' (join_on '', '' ms) w)), s)
      | NoPage \<Rightarrow> (Served (http_Error ''404 page not found'' 404 w), s))"

section \<open>What the router finds\<close>

text \<open>The unescaped segments of a path; a trailing slash is a segment of its own.\<close>

function segments :: "string \<Rightarrow> string list" where
  "segments p = (if p = [] then [] else fst (firstSegment p) # segments (snd (firstSegment p)))"
  by pat_completeness auto
termination by (relation "measure length") (auto simp: firstSegment_length)

declare segments.simps [simp del]

lemma segments_Nil [simp]: "segments [] = []"
  by (simp add: segments.simps)

fun match_segments :: "(seg list \<times> 'a) list \<Rightarrow> string list \<Rightarrow> ('a \<times> string list) option" where
  "match_segments ts [] = map_option (\<lambda>t. (snd t, [])) (find (\<lambda>t. fst t = []) ts)"
| "match_segments ts (s # ss) =
     (case match_segments (lit_children s ts) ss of
        Some r \<Rightarrow> Some r
      | None \<Rightarrow>
          (if s = [slash] then None
           else (case match_segments (wild_children ts) ss of
               None \<Rightarrow> None
             | Some (h, vs) \<Rightarrow> Some (h, s # vs))))"

lemma match_path_segments: "match_path ts p = match_segments ts (segments p)"
proof (induction ts p rule: match_path.induct)
  case (1 ts p)
  show ?case
  proof (cases "p = []")
    case True
    then show ?thesis by (simp add: match_path.simps)
  next
    case False
    obtain s rest where f: "firstSegment p = (s, rest)" by fastforce
    have segs: "segments p = s # segments rest"
      using f False by (subst segments.simps) simp
    have IH: "match_path (lit_children s ts) rest = match_segments (lit_children s ts) (segments rest)"
      "match_path (lit_children s ts) rest = None \<Longrightarrow> s \<noteq> [slash] \<Longrightarrow>
         match_path (wild_children ts) rest = match_segments (wild_children ts) (segments rest)"
      using 1(1) [OF False f [symmetric] refl] 1(2) [OF False f [symmetric] refl] by auto
    show ?thesis
      using IH by (subst match_path.simps) (auto simp: False f segs split: option.split)
  qed
qed

lemma cleanPath_nonempty [simp]: "cleanPath p \<noteq> []"
  by (simp add: cleanPath_def Let_def)

lemma cleanPath_rooted: "hd (cleanPath p) = slash"
proof -
  have "hd (Clean q @ xs) = slash" if "q \<noteq> []" "hd q = slash" for q xs
    using hd_Clean [OF that] by (simp add: hd_append)
  from this [of _ "[]"] this show ?thesis by (auto simp: cleanPath_def Let_def)
qed

text \<open>A path the router redirected to is not redirected again.\<close>

lemma Clean_slash_end: "normal True es \<Longrightarrow> es \<noteq> [] \<Longrightarrow>
    Clean (slash # join_on [slash] es @ [slash]) = slash # join_on [slash] es"
proof -
  assume n: "normal True es" and ne: "es \<noteq> []"
  have free: "\<forall>x \<in> set (es @ [[]]). slash \<notin> set x" using normal_parts [OF n] by auto
  have app: "join_on [slash] (es @ [[]]) = join_on [slash] es @ [slash]" if "es \<noteq> []" for es :: "string list"
    using that by (induction "[slash]" es rule: join_on.induct) (auto simp: neq_Nil_conv)
  have "split_on slash (join_on [slash] es @ [slash]) = es @ [[]]"
    using split_join [OF _ free] app [OF ne] by simp
  moreover have "fold (clean_elem True) es [] = rev es" using fold_clean_id [of True "[]" es] n by simp
  ultimately show ?thesis by (simp add: Clean_def Let_def clean_elem_def)
qed

lemma join_on_last: "xs \<noteq> [] \<Longrightarrow> last xs \<noteq> [] \<Longrightarrow> join_on d xs \<noteq> [] \<and> last (join_on d xs) = last (last xs)"
  by (induction d xs rule: join_on.induct) auto

lemma Clean_rooted:
  assumes "p \<noteq> []" and "hd p = slash"
  obtains es where "normal True es" "Clean p = slash # join_on [slash] es"
proof (rule Clean_normal [of p])
  assume "Clean p = ''.''"
  then show ?thesis using hd_Clean [OF assms] by simp
next
  fix r es
  assume "normal r es" "r = (p \<noteq> [] \<and> hd p = slash)" "Clean p = (if r then [slash] else []) @ join_on [slash] es"
  then show ?thesis using that [of es] assms by simp
qed

lemma cleanPath_idem: "cleanPath (cleanPath p) = cleanPath p"
proof -
  define q where "q = (if p = [] then [slash] else if hd p \<noteq> slash then slash # p else p)"
  have q: "q \<noteq> []" "hd q = slash" by (auto simp: q_def)
  have c: "cleanPath p = (if ends_slash q \<and> Clean q \<noteq> [slash] then Clean q @ [slash] else Clean q)"
    by (cases "p = []") (auto simp: cleanPath_def q_def ends_slash_def Clean_def clean_elem_def Let_def)
  obtain es where es: "normal True es" "Clean q = slash # join_on [slash] es"
    using Clean_rooted [OF q] by blast
  show ?thesis
  proof (cases "es = []")
    case True
    have "cleanPath [slash] = [slash]" by code_simp
    then show ?thesis using c es True by simp
  next
    case False
    have l: "last es \<noteq> []" "slash \<notin> set (last es)" using normal_parts [OF es(1)] False by auto
    then have fin: "join_on [slash] es \<noteq> []" "last (join_on [slash] es) \<noteq> slash"
      using join_on_last [OF False l(1)] last_in_set [OF l(1)] l(2) by metis+
    have "Clean (slash # join_on [slash] es) = slash # join_on [slash] es"
      using Clean_of_normal [OF es(1)] by simp
    then show ?thesis
      using c es fin Clean_slash_end [OF es(1) False]
      by (auto simp: cleanPath_def ends_slash_def)
  qed
qed

end
