(* ===== verification/Middleware.thy ===== *)
theory Middleware
  imports ServeMux
begin

text \<open>
  The middleware of the API server (\<open>internal/apiserver/middleware\<close>) and the metrics it records
  (\<open>internal/apiserver/metrics/metrics.go\<close>). A handler runs on a request, a writer and a state and
  ends in an \<open>outcome\<close>; a middleware turns a handler into a handler. Prometheus is a library: what
  is modelled is the sequence of calls the gateway makes to it. Logging is left out. The general
  facts are \<open>Recovery_never_crashes\<close> and the \<open>answers_on\<close> lemmas about the writers.
\<close>

section \<open>Metrics\<close>

text \<open>A call of an operation of a collector: its name, the label values, the argument.\<close>

datatype metric_op =
    MInc string "string list"
  | MDec string "string list"
  | MObserve string "string list" duration
  | MSet string int

text \<open>The collectors of the API server with their labels, as \<open>init\<close> registers them.\<close>

definition http_collectors :: "(string \<times> string list) list" where
  "http_collectors =
     [(''http_requests_total'', [''method'', ''path'', ''status'']),
      (''http_request_duration_seconds'', [''method'', ''path'', ''status'']),
      (''http_requests_in_flight'', [])]"

text \<open>The state a request runs on: the service behind the handlers, and the calls of the metrics.\<close>

record 's gateway =
  gw_api :: 's
  gw_metrics :: "metric_op list"

definition record_ops :: "metric_op list \<Rightarrow> 's gateway \<Rightarrow> 's gateway" where
  "record_ops ops g = g\<lparr>gw_metrics := gw_metrics g @ ops\<rparr>"

definition RecordRequestStart :: "'s gateway \<Rightarrow> 's gateway" where
  "RecordRequestStart g = record_ops [MInc ''http_requests_in_flight'' []] g"

text \<open>\<open>WithLabelValues\<close> panics on a label value that is not UTF-8; its message is not modelled.\<close>

definition WithLabelValues :: "string list \<Rightarrow> (string list \<Rightarrow> metric_op) \<Rightarrow> 's gateway \<Rightarrow> unit go_result \<times> 's gateway" where
  "WithLabelValues labels call g =
     (if list_all utf8_valid labels then (Returns (), record_ops [call labels] g)
      else (Panics ''label value is not valid UTF-8'', g))"

definition RecordRequestFinish ::
  "string \<Rightarrow> string \<Rightarrow> string \<Rightarrow> duration \<Rightarrow> 's gateway \<Rightarrow> unit go_result \<times> 's gateway" where
  "RecordRequestFinish method path status elapsed g =
     (let g = record_ops [MDec ''http_requests_in_flight'' []] g
      in case WithLabelValues [method, path, status] (MInc ''http_requests_total'') g of
           (Returns _, g) \<Rightarrow>
             WithLabelValues [method, path, status] (\<lambda>ls. MObserve ''http_request_duration_seconds'' ls elapsed) g
         | (r, g) \<Rightarrow> (r, g))"

text \<open>The value of a gauge or counter without labels after a sequence of calls.\<close>

fun gauge_value :: "string \<Rightarrow> metric_op list \<Rightarrow> int" where
  "gauge_value n [] = 0"
| "gauge_value n (MInc m ls # ops) = (if m = n then 1 else 0) + gauge_value n ops"
| "gauge_value n (MDec m ls # ops) = (if m = n then - 1 else 0) + gauge_value n ops"
| "gauge_value n (_ # ops) = gauge_value n ops"

lemma gauge_value_append [simp]: "gauge_value n (xs @ ys) = gauge_value n xs + gauge_value n ys"
  by (induction n xs rule: gauge_value.induct) auto

section \<open>Handlers\<close>

type_synonym 's http_handler =
  "server_request \<Rightarrow> response_writer \<Rightarrow> 's gateway \<Rightarrow> outcome \<times> 's gateway"

definition Header_Get :: "headers \<Rightarrow> string \<Rightarrow> string" where
  "Header_Get hs k = lookup_param (canonical_key k) hs"

section \<open>Security headers\<close>

definition security_headers :: "response_writer \<Rightarrow> response_writer" where
  "security_headers w =
     set_header ''X-XSS-Protection'' ''1; mode=block''
       (set_header ''X-Frame-Options'' ''DENY''
         (set_header ''X-Content-Type-Options'' ''nosniff'' w))"

definition SecurityHeadersMiddleware :: "'s http_handler \<Rightarrow> 's http_handler" where
  "SecurityHeadersMiddleware next_handler r w g =
     (let w = security_headers w
      in if rq_Method (sr_rq r) = ''OPTIONS'' then (Served (write_header 204 w), g)
         else next_handler r w g)"

section \<open>Request identifiers, logging and metrics\<close>

definition HealthPath :: string where "HealthPath = ''/health''"
definition MetricsPath :: string where "MetricsPath = ''/metrics''"

definition requestIDHeader :: string where "requestIDHeader = ''X-Request-ID''"

text \<open>
  \<open>RequestMiddleware\<close>: \<open>uuid\<close> is the identifier \<open>uuid.NewString\<close> would make and \<open>elapsed\<close> what the
  clock measures. The deferred call records the end of the request also when the handler panics. When
  it panics itself, nothing recovers it: the HTTP server drops the connection.
\<close>

definition RequestMiddleware :: "string \<Rightarrow> duration \<Rightarrow> 's http_handler \<Rightarrow> 's http_handler" where
  "RequestMiddleware uuid elapsed next_handler r w g =
     (if rq_Path (sr_rq r) = MetricsPath \<or> rq_Path (sr_rq r) = HealthPath then next_handler r w g
      else
       (let g = RecordRequestStart g;
            requestID = Header_Get (sr_Header r) requestIDHeader;
            requestID = (if requestID = [] then uuid else requestID);
            w = set_header requestIDHeader requestID w;
            rw = w\<lparr>rw_statusCode := 200\<rparr>;
            finish = (\<lambda>rw g. RecordRequestFinish (rq_Method (sr_rq r)) (rq_Path (sr_rq r))
                         (show_int (rw_statusCode rw)) elapsed g);
            (res, g) = next_handler (r\<lparr>sr_requestID := Some requestID\<rparr>) rw g
        in case res of
             Hangs \<Rightarrow> (Hangs, g)
           | Served rw \<Rightarrow>
               (case finish rw g of
                  (Returns _, g) \<Rightarrow> (Served rw, g)
                | (Panics msg, g) \<Rightarrow> (Panicked msg rw, g)
                | (Blocks, g) \<Rightarrow> (Hangs, g))
           | Panicked err rw \<Rightarrow>
               (case finish rw g of
                  (Returns _, g) \<Rightarrow> (Panicked err rw, g)
                | (Panics msg, g) \<Rightarrow> (Panicked msg rw, g)
                | (Blocks, g) \<Rightarrow> (Hangs, g))))"

definition GetRequestIDFromContext :: "server_request \<Rightarrow> string" where
  "GetRequestIDFromContext r =
     (case sr_requestID r of Some requestID \<Rightarrow> requestID | None \<Rightarrow> ''unknown'')"

section \<open>Recovery\<close>

definition RecoveryMiddleware :: "'s http_handler \<Rightarrow> 's http_handler" where
  "RecoveryMiddleware next_handler r w g =
     (let (res, g) = next_handler r w g
      in case res of
           Panicked err w \<Rightarrow>
             (let requestID = GetRequestIDFromContext r;
                  oaiErr = NewAPIError 500 [] ''The server had an error while processing your request''
                    (Some requestID)
              in (Served (WriteAPIError oaiErr w), g))
         | _ \<Rightarrow> (res, g))"

section \<open>What each of them guarantees\<close>

lemma utf8_valid_digits: "list_all is_digit s \<Longrightarrow> utf8_valid s"
  by (induction s) (auto simp: is_digit_def)

lemma utf8_valid_show_int [simp]: "utf8_valid (show_int i)"
  using utf8_valid_digits [OF show_nat_digits, of i] utf8_valid_digits [OF show_nat_digits, of "- i"]
  by (auto simp: show_int_def)

text \<open>A request is counted under its method, path and status, if method and path are UTF-8.\<close>

lemma RecordRequestFinish_cases:
  "RecordRequestFinish m p (show_int st) e g =
     (if utf8_valid m \<and> utf8_valid p
      then (Returns (), record_ops [MDec ''http_requests_in_flight'' [], MInc ''http_requests_total'' [m, p, show_int st],
          MObserve ''http_request_duration_seconds'' [m, p, show_int st] e] g)
      else (Panics ''label value is not valid UTF-8'', record_ops [MDec ''http_requests_in_flight'' []] g))"
  by (simp add: RecordRequestFinish_def WithLabelValues_def record_ops_def Let_def)

lemma RecordRequestFinish_api: "gw_api (snd (RecordRequestFinish m p st e g)) = gw_api g"
  by (simp add: RecordRequestFinish_def WithLabelValues_def record_ops_def Let_def)

lemma Recovery_never_crashes: "fst (RecoveryMiddleware h r w g) \<noteq> Panicked err w'"
  by (simp add: RecoveryMiddleware_def Let_def split: prod.split outcome.split)

lemma Recovery_state: "snd (RecoveryMiddleware h r w g) = snd (h r w g)"
  by (simp add: RecoveryMiddleware_def Let_def split: prod.split outcome.split)

text \<open>
  An answer on a writer that has sent nothing: a status is sent once, it is the one the wrapped
  writer noted, and the headers set before are sent with it, up to those the answer itself sets.
\<close>

definition answer_headers :: "string set" where
  "answer_headers = {''Content-Type'', ''Location'', ''Allow''}"

definition answers_on :: "response_writer \<Rightarrow> response_writer \<Rightarrow> bool" where
  "answers_on w w' \<longleftrightarrow>
     (\<exists>code hs. rw_sent w' = Some (code, hs) \<and> rw_statusCode w' = code \<and>
        (\<forall>k v. k \<notin> answer_headers \<longrightarrow> map_of (rw_header w) k = Some v \<longrightarrow>
           (k = ''X-Content-Type-Options'' \<longrightarrow> v = ''nosniff'') \<longrightarrow> map_of hs k = Some v))"

lemma map_of_filter_ne: "k \<noteq> k' \<Longrightarrow> map_of (filter (\<lambda>h. fst h \<noteq> k') hs) k = map_of hs k"
  by (induction hs) auto

lemmas writer_defs = write_body_def write_header_def send_header_def set_header_def Let_def

definition header_kept :: "response_writer \<Rightarrow> headers \<Rightarrow> bool" where
  "header_kept w hs \<longleftrightarrow>
     (\<forall>k v. k \<notin> answer_headers \<longrightarrow> map_of (rw_header w) k = Some v \<longrightarrow>
        (k = ''X-Content-Type-Options'' \<longrightarrow> v = ''nosniff'') \<longrightarrow> map_of hs k = Some v)"

lemma header_kept_refl: "header_kept w (rw_header w)"
  by (simp add: header_kept_def)

lemma header_kept_set:
  assumes "header_kept w hs"
    and "canonical_key k \<in> answer_headers \<or> canonical_key k = ''X-Content-Type-Options'' \<and> v = ''nosniff''"
  shows "header_kept w ((canonical_key k, v) # filter (\<lambda>h. fst h \<noteq> canonical_key k) hs)"
  using assms by (auto simp: header_kept_def map_of_filter_ne)

lemma answers_onI:
  "rw_sent w' = Some (code, hs) \<Longrightarrow> rw_statusCode w' = code \<Longrightarrow> header_kept w hs \<Longrightarrow> answers_on w w'"
  by (simp add: answers_on_def header_kept_def)

lemmas kept_headers =
  header_kept_set [of w _ "''Content-Type''", simplified]
  header_kept_set [of w _ "''X-Content-Type-Options''" "''nosniff''", simplified]
  header_kept_set [of w _ "''Location''", simplified] header_kept_set [of w _ "''Allow''", simplified]
  for w

lemma answers_on_json: "rw_sent w = None \<Longrightarrow> answers_on w (WriteJSONResponse status m w)"
  using kept_headers(1) [OF header_kept_refl [of w]]
  by (cases m; intro answers_onI) (simp_all add: WriteJSONResponse_def writer_defs answer_headers_def)

lemma answers_on_error: "rw_sent w = None \<Longrightarrow> answers_on w (http_Error msg code w)"
  using kept_headers(2) [OF kept_headers(1) [OF header_kept_refl [of w]]]
  by (intro answers_onI) (simp_all add: http_Error_def writer_defs answer_headers_def)

lemma answers_on_not_allowed:
  "rw_sent w = None \<Longrightarrow> answers_on w (http_Error msg code (set_header ''Allow'' ms w))"
  using kept_headers(2) [OF kept_headers(1) [OF kept_headers(4) [OF header_kept_refl [of w]]]]
  by (intro answers_onI) (simp_all add: http_Error_def writer_defs answer_headers_def)

lemma answers_on_moved: "rw_sent w = None \<Longrightarrow> answers_on w (Redirect_moved m url w)"
  using kept_headers(1) [OF kept_headers(3) [OF header_kept_refl [of w]]] kept_headers(3) [OF header_kept_refl [of w]]
  by (cases "m = ''GET''"; cases "m = ''HEAD''"; cases "\<exists>h \<in> set (rw_header w). fst h = ''Content-Type''"; intro answers_onI)
    (simp_all add: Redirect_moved_def writer_defs answer_headers_def)

lemma answers_on_api_error: "rw_sent w = None \<Longrightarrow> answers_on w (WriteAPIError e w)"
  by (simp add: WriteAPIError_def answers_on_json)

lemma rw_sent_set [simp]:
  "rw_sent (set_header k v w) = rw_sent w" "rw_sent (w\<lparr>rw_statusCode := n\<rparr>) = rw_sent w"
  by (simp_all add: set_header_def)

end
