(* ===== verification/ApiServer.thy ===== *)
theory ApiServer
  imports Middleware ApiContract
begin

text \<open>
  The API server: the handlers that are not about batches (\<open>apiserver/health\<close>, \<open>apiserver/files\<close>,
  \<open>apiserver/metrics/metrics_handler.go\<close>), and \<open>apiserver/server/server.go\<close>: the routes of all
  handlers, the chain of middleware around the router, and the start of the server. The page of
  Prometheus, the network, the certificate files and the HTTP server loop are parameters.
\<close>

section \<open>Handlers\<close>

datatype api_endpoint =
    HealthHandler_h
  | MetricsHandler_h
  | CreateFile_h | DeleteFile_h | DownloadFile_h | ListFiles_h | RetrieveFile_h
  | Batch_h handler_name

definition HealthGetRoutes :: "api_endpoint route list" where
  "HealthGetRoutes = [(''GET'', HealthPath, HealthHandler_h), (''HEAD'', HealthPath, HealthHandler_h)]"

definition HealthHandler :: "response_writer \<Rightarrow> response_writer" where
  "HealthHandler w =
     write_body ''OK'' (write_header 200 (set_header ''Content-Type'' ''text/plain; charset=utf-8'' w))"

definition MetricsGetRoutes :: "api_endpoint route list" where
  "MetricsGetRoutes = [(''GET'', MetricsPath, MetricsHandler_h)]"

text \<open>\<open>promhttp\<close> is the handler of the Prometheus library.\<close>

definition MetricsHandler ::
  "(server_request \<Rightarrow> response_writer \<Rightarrow> outcome) \<Rightarrow> server_request \<Rightarrow> response_writer \<Rightarrow> outcome" where
  [simp]: "MetricsHandler promhttp r w = promhttp r w"

definition FilesGetRoutes :: "api_endpoint route list" where
  "FilesGetRoutes =
     [(''POST'', ''/v1/files'', CreateFile_h),
      (''DELETE'', ''/v1/files/{file_id}'', DeleteFile_h),
      (''GET'', ''/v1/files/{file_id}/content'', DownloadFile_h),
      (''GET'', ''/v1/files'', ListFiles_h),
      (''GET'', ''/v1/files/{file_id}'', RetrieveFile_h)]"

definition CreateFile :: "response_writer \<Rightarrow> response_writer" where
  "CreateFile w = WriteNotImplementedError w"
definition DeleteFile :: "response_writer \<Rightarrow> response_writer" where
  "DeleteFile w = WriteNotImplementedError w"
definition DownloadFile :: "response_writer \<Rightarrow> response_writer" where
  "DownloadFile w = WriteNotImplementedError w"
definition ListFiles :: "response_writer \<Rightarrow> response_writer" where
  "ListFiles w = WriteNotImplementedError w"
definition RetrieveFile :: "response_writer \<Rightarrow> response_writer" where
  "RetrieveFile w = WriteNotImplementedError w"

lemmas file_handler_defs = CreateFile_def DeleteFile_def DownloadFile_def ListFiles_def RetrieveFile_def

text \<open>What a request's handler reads of the outside: identifiers and instants.\<close>

record request_env =
  re_requestUUID :: string
  re_batchUUID :: string
  re_now1 :: gotime
  re_now2 :: gotime
  re_elapsed :: duration

definition run_batch_handler ::
  "('d, 'q, 'e) BatchApiHandler \<Rightarrow> request_env \<Rightarrow> handler_name \<Rightarrow> http_request \<Rightarrow> response_writer
    \<Rightarrow> ('d, 'q, 'e) world \<Rightarrow> response_writer go_result \<times> ('d, 'q, 'e) world" where
  "run_batch_handler c env h rq w s =
     (case h of
        CreateBatch_h \<Rightarrow> CreateBatch c (re_batchUUID env) (re_now1 env) (re_now2 env) rq w s
      | ListBatches_h \<Rightarrow> ListBatches c rq w s
      | RetrieveBatch_h \<Rightarrow> RetrieveBatch c rq w s
      | CancelBatch_h \<Rightarrow> CancelBatch c (re_now1 env) rq w s)"

text \<open>
  The batch handlers panic, if they do, before they write, so the writer is then the one they were
  given.
\<close>

definition serve_endpoint ::
  "(server_request \<Rightarrow> response_writer \<Rightarrow> outcome) \<Rightarrow> ('d, 'q, 'e) BatchApiHandler \<Rightarrow> request_env
    \<Rightarrow> api_endpoint \<Rightarrow> ('d, 'q, 'e) world http_handler" where
  "serve_endpoint promhttp c env h r w g =
     (case h of
        HealthHandler_h \<Rightarrow> (Served (HealthHandler w), g)
      | MetricsHandler_h \<Rightarrow> (MetricsHandler promhttp r w, g)
      | CreateFile_h \<Rightarrow> (Served (CreateFile w), g)
      | DeleteFile_h \<Rightarrow> (Served (DeleteFile w), g)
      | DownloadFile_h \<Rightarrow> (Served (DownloadFile w), g)
      | ListFiles_h \<Rightarrow> (Served (ListFiles w), g)
      | RetrieveFile_h \<Rightarrow> (Served (RetrieveFile w), g)
      | Batch_h b \<Rightarrow>
          (let (res, s) = run_batch_handler c env b (sr_rq r) w (gw_api g);
               g = g\<lparr>gw_api := s\<rparr>
           in case res of
                Returns w' \<Rightarrow> (Served w', g)
              | Panics err \<Rightarrow> (Panicked err w, g)
              | Blocks \<Rightarrow> (Hangs, g)))"

section \<open>The server\<close>

definition BatchGetRoutes :: "api_endpoint route list" where
  "BatchGetRoutes = map (\<lambda>(m, p, h). (m, p, Batch_h h)) GetRoutes"

fun register_all :: "'h route list list \<Rightarrow> 'h mux \<Rightarrow> 'h mux go_result" where
  "register_all [] mux = Returns mux"
| "register_all (rs # rss) mux =
     (case RegisterHandler rs mux of Returns mux' \<Rightarrow> register_all rss mux' | r \<Rightarrow> r)"

definition api_mux :: "api_endpoint mux go_result" where
  "api_mux = register_all [HealthGetRoutes, MetricsGetRoutes, FilesGetRoutes, BatchGetRoutes] []"

text \<open>The chain of the middleware around a router: the recovery is the innermost.\<close>

definition middleware_chain :: "request_env \<Rightarrow> 's http_handler \<Rightarrow> 's http_handler" where
  "middleware_chain env mux =
     SecurityHeadersMiddleware (RequestMiddleware (re_requestUUID env) (re_elapsed env) (RecoveryMiddleware mux))"

definition buildHandler ::
  "(server_request \<Rightarrow> response_writer \<Rightarrow> outcome) \<Rightarrow> ('d, 'q, 'e) BatchApiHandler \<Rightarrow> request_env
    \<Rightarrow> ('d, 'q, 'e) world http_handler go_result" where
  "buildHandler promhttp c env =
     (case api_mux of
        Returns mux \<Rightarrow>
          Returns (middleware_chain env (mux_ServeHTTP (serve_endpoint promhttp c env) mux))
      | Panics msg \<Rightarrow> Panics msg
      | Blocks \<Rightarrow> Blocks)"

text \<open>What a client of the server sees in the end: no explicit status is 200.\<close>

definition final_status :: "response_writer \<Rightarrow> int" where
  "final_status w = (case rw_sent w of None \<Rightarrow> 200 | Some (code, _) \<Rightarrow> code)"

section \<open>Start\<close>

record Server =
  sr_config :: ServerConfig

definition Server_New :: "ServerConfig option \<Rightarrow> error + Server" where
  "Server_New config =
     (case config of None \<Rightarrow> Inl ''config cannot be nil'' | Some c \<Rightarrow> Inr \<lparr>sr_config = c\<rparr>)"

record 'c server_tls =
  stl_Certificates :: "'c list"
  stl_MinVersion :: int
  stl_CipherSuites :: "string list"

definition VersionTLS12 :: int where "VersionTLS12 = 771"

definition server_tls_of :: "'c \<Rightarrow> 'c server_tls" where
  "server_tls_of cert =
     \<lparr>stl_Certificates = [cert], stl_MinVersion = VersionTLS12,
      stl_CipherSuites =
        [''TLS_ECDHE_RSA_WITH_AES_128_GCM_SHA256'', ''TLS_ECDHE_RSA_WITH_AES_256_GCM_SHA384'',
         ''TLS_ECDHE_ECDSA_WITH_AES_128_GCM_SHA256'', ''TLS_ECDHE_ECDSA_WITH_AES_256_GCM_SHA384'',
         ''TLS_ECDHE_RSA_WITH_CHACHA20_POLY1305'', ''TLS_ECDHE_ECDSA_WITH_CHACHA20_POLY1305'']\<rparr>"

definition ErrServerClosed :: error where "ErrServerClosed = ''http: Server closed''"

text \<open>
  \<open>net_listen\<close> opens the port, \<open>load_pair\<close> reads the key pair, and \<open>serve_loop\<close> is \<open>Serve\<close> or
  \<open>ServeTLS\<close> on the listener with the TLS settings, up to its error. The result is the error of
  \<open>Start\<close> and, when it came to serving, with which settings.
\<close>

definition Server_Start ::
  "(string \<Rightarrow> error + 'l) \<Rightarrow> (string \<Rightarrow> string \<Rightarrow> error + 'c) \<Rightarrow> ('l \<Rightarrow> 'c server_tls option \<Rightarrow> error option)
    \<Rightarrow> Server \<Rightarrow> error option \<times> 'c server_tls option option" where
  "Server_Start net_listen load_pair serve_loop s =
     (let config = sr_config s
      in case net_listen (sv_Host config @ '':'' @ sv_Port config) of
           Inl err \<Rightarrow> (Some err, None)
         | Inr ln \<Rightarrow>
             (let run = (\<lambda>tls.
                 case serve_loop ln tls of
                   None \<Rightarrow> (None, Some tls)
                 | Some err \<Rightarrow> (if err \<noteq> ErrServerClosed then Some err else None, Some tls))
              in if SSLEnabled config then
                   (case load_pair (sv_SSLCertFile config) (sv_SSLKeyFile config) of
                      Inl err \<Rightarrow> (Some err, None)
                    | Inr cert \<Rightarrow> run (Some (server_tls_of cert)))
                 else if sv_SSLCertFile config \<noteq> [] \<or> sv_SSLKeyFile config \<noteq> [] then
                   (Some ''both tls-cert-file and tls-private-key-file must be provided to enable TLS'', None)
                 else run None))"

end
