(* ===== verification/Routing.thy ===== *)
theory Routing
  imports ApiServer
begin

text \<open>
  The routing table of the API server: which handler the router finds for a method and a path, and
  what it answers when there is none.
\<close>

section \<open>Routing\<close>

text \<open>The patterns the server registers, none of them refused.\<close>

definition api_patterns :: "api_endpoint mux" where
  "api_patterns =
     [(\<lparr>pt_method = ''GET'', pt_segs = [Lit ''health'']\<rparr>, HealthHandler_h),
      (\<lparr>pt_method = ''HEAD'', pt_segs = [Lit ''health'']\<rparr>, HealthHandler_h),
      (\<lparr>pt_method = ''GET'', pt_segs = [Lit ''metrics'']\<rparr>, MetricsHandler_h),
      (\<lparr>pt_method = ''POST'', pt_segs = [Lit ''v1'', Lit ''files'']\<rparr>, CreateFile_h),
      (\<lparr>pt_method = ''DELETE'', pt_segs = [Lit ''v1'', Lit ''files'', Wild ''file_id'']\<rparr>, DeleteFile_h),
      (\<lparr>pt_method = ''GET'', pt_segs = [Lit ''v1'', Lit ''files'', Wild ''file_id'', Lit ''content'']\<rparr>, DownloadFile_h),
      (\<lparr>pt_method = ''GET'', pt_segs = [Lit ''v1'', Lit ''files'']\<rparr>, ListFiles_h),
      (\<lparr>pt_method = ''GET'', pt_segs = [Lit ''v1'', Lit ''files'', Wild ''file_id'']\<rparr>, RetrieveFile_h),
      (\<lparr>pt_method = ''POST'', pt_segs = [Lit ''v1'', Lit ''batches'']\<rparr>, Batch_h CreateBatch_h),
      (\<lparr>pt_method = ''GET'', pt_segs = [Lit ''v1'', Lit ''batches'']\<rparr>, Batch_h ListBatches_h),
      (\<lparr>pt_method = ''GET'', pt_segs = [Lit ''v1'', Lit ''batches'', Wild ''batch_id'']\<rparr>, Batch_h RetrieveBatch_h),
      (\<lparr>pt_method = ''POST'', pt_segs = [Lit ''v1'', Lit ''batches'', Wild ''batch_id'', Lit ''cancel'']\<rparr>, Batch_h CancelBatch_h)]"

lemma api_mux_eq: "api_mux = Returns api_patterns"
  by code_simp

text \<open>The routing table of the API, by method and path segments.\<close>

definition api_route :: "string \<Rightarrow> string list \<Rightarrow> (api_endpoint \<times> (string \<times> string) list) option" where
  "api_route m segs =
     (let get = (m = ''GET'' \<or> m = ''HEAD'')
      in case segs of
           [a] \<Rightarrow>
             (if a = ''health'' \<and> get then Some (HealthHandler_h, [])
              else if a = ''metrics'' \<and> get then Some (MetricsHandler_h, [])
              else None)
         | [v, k] \<Rightarrow>
             (if v = ''v1'' \<and> k = ''files'' \<and> m = ''POST'' then Some (CreateFile_h, [])
              else if v = ''v1'' \<and> k = ''files'' \<and> get then Some (ListFiles_h, [])
              else if v = ''v1'' \<and> k = ''batches'' \<and> m = ''POST'' then Some (Batch_h CreateBatch_h, [])
              else if v = ''v1'' \<and> k = ''batches'' \<and> get then Some (Batch_h ListBatches_h, [])
              else None)
         | [v, k, x] \<Rightarrow>
             (if v \<noteq> ''v1'' \<or> x = [slash] then None
              else if k = ''files'' \<and> m = ''DELETE'' then Some (DeleteFile_h, [(''file_id'', x)])
              else if k = ''files'' \<and> get then Some (RetrieveFile_h, [(''file_id'', x)])
              else if k = ''batches'' \<and> get then Some (Batch_h RetrieveBatch_h, [(''batch_id'', x)])
              else None)
         | [v, k, x, y] \<Rightarrow>
             (if v \<noteq> ''v1'' \<or> x = [slash] then None
              else if k = ''files'' \<and> y = ''content'' \<and> get then Some (DownloadFile_h, [(''file_id'', x)])
              else if k = ''batches'' \<and> y = ''cancel'' \<and> m = ''POST'' then
                Some (Batch_h CancelBatch_h, [(''batch_id'', x)])
              else None)
         | _ \<Rightarrow> None)"

lemma children_simps [simp]:
  "lit_children s [] = []" "wild_children [] = []"
  "lit_children s (([], x) # ts) = lit_children s ts"
  "lit_children s ((Wild n # ss, x) # ts) = lit_children s ts"
  "lit_children s ((Lit t # ss, x) # ts) = (if s = t then (ss, x) # lit_children s ts else lit_children s ts)"
  "wild_children (([], x) # ts) = wild_children ts"
  "wild_children ((Lit t # ss, x) # ts) = wild_children ts"
  "wild_children ((Wild n # ss, x) # ts) = (ss, x) # wild_children ts"
  by (auto simp: lit_children_def wild_children_def)

lemma match_no_patterns [simp]: "match_segments [] segs = None"
  by (induction segs) auto

text \<open>The patterns of each method, and what they match.\<close>

definition found_route :: "((pattern \<times> 'h) \<times> string list) option \<Rightarrow> ('h \<times> (string \<times> string) list) option" where
  "found_route r = map_option (\<lambda>((p, h), vs). (h, zip (wild_names (pt_segs p)) vs)) r"

lemma with_method_simps [simp]:
  "with_method m [] = []"
  "with_method m ((p, h) # mux) = (if pt_method p = m then (pt_segs p, p, h) # with_method m mux else with_method m mux)"
  by (simp_all add: with_method_def)

lemmas route_simps = api_patterns_def match_path_segments api_route_def found_route_def

lemma path_cases [case_names zero one two three four more]:
  assumes "segs = [] \<Longrightarrow> P" "\<And>a. segs = [a] \<Longrightarrow> P" "\<And>a b. segs = [a, b] \<Longrightarrow> P"
    "\<And>a b x. segs = [a, b, x] \<Longrightarrow> P" "\<And>a b x y. segs = [a, b, x, y] \<Longrightarrow> P"
    "\<And>a b x y z zs. segs = a # b # x # y # z # zs \<Longrightarrow> P"
  shows P
  using assms by (metis neq_Nil_conv)

text \<open>The table, method by method.\<close>

abbreviation pat :: "string \<Rightarrow> seg list \<Rightarrow> pattern" where
  "pat m ss \<equiv> \<lparr>pt_method = m, pt_segs = ss\<rparr>"

lemma api_methods:
  "with_method ''POST'' api_patterns =
     [([Lit ''v1'', Lit ''files''], pat ''POST'' [Lit ''v1'', Lit ''files''], CreateFile_h),
      ([Lit ''v1'', Lit ''batches''], pat ''POST'' [Lit ''v1'', Lit ''batches''], Batch_h CreateBatch_h),
      ([Lit ''v1'', Lit ''batches'', Wild ''batch_id'', Lit ''cancel''],
       pat ''POST'' [Lit ''v1'', Lit ''batches'', Wild ''batch_id'', Lit ''cancel''], Batch_h CancelBatch_h)]"
  "with_method ''DELETE'' api_patterns =
     [([Lit ''v1'', Lit ''files'', Wild ''file_id''],
       pat ''DELETE'' [Lit ''v1'', Lit ''files'', Wild ''file_id''], DeleteFile_h)]"
  "with_method ''GET'' api_patterns =
     [([Lit ''health''], pat ''GET'' [Lit ''health''], HealthHandler_h),
      ([Lit ''metrics''], pat ''GET'' [Lit ''metrics''], MetricsHandler_h),
      ([Lit ''v1'', Lit ''files'', Wild ''file_id'', Lit ''content''],
       pat ''GET'' [Lit ''v1'', Lit ''files'', Wild ''file_id'', Lit ''content''], DownloadFile_h),
      ([Lit ''v1'', Lit ''files''], pat ''GET'' [Lit ''v1'', Lit ''files''], ListFiles_h),
      ([Lit ''v1'', Lit ''files'', Wild ''file_id''],
       pat ''GET'' [Lit ''v1'', Lit ''files'', Wild ''file_id''], RetrieveFile_h),
      ([Lit ''v1'', Lit ''batches''], pat ''GET'' [Lit ''v1'', Lit ''batches''], Batch_h ListBatches_h),
      ([Lit ''v1'', Lit ''batches'', Wild ''batch_id''],
       pat ''GET'' [Lit ''v1'', Lit ''batches'', Wild ''batch_id''], Batch_h RetrieveBatch_h)]"
  by (simp_all add: api_patterns_def)

text \<open>What it is for a pattern to match; the search finds a matching pattern if there is one.\<close>

fun seg_match :: "seg \<Rightarrow> string \<Rightarrow> bool" where
  "seg_match (Lit l) s \<longleftrightarrow> l = s"
| "seg_match (Wild n) s \<longleftrightarrow> s \<noteq> [slash]"

fun wild_values :: "seg list \<Rightarrow> string list \<Rightarrow> string list" where
  "wild_values (Wild n # ps) (s # ss) = s # wild_values ps ss"
| "wild_values (Lit l # ps) (s # ss) = wild_values ps ss"
| "wild_values ps ss = []"

lemma in_children:
  "t \<in> set (lit_children s ts) \<longleftrightarrow> (Lit s # fst t, snd t) \<in> set ts"
  "t \<in> set (wild_children ts) \<longleftrightarrow> (\<exists>n. (Wild n # fst t, snd t) \<in> set ts)"
proof -
  have w: "is_wild x \<longleftrightarrow> (\<exists>n. x = Wild n)" for x by (cases x) auto
  show "t \<in> set (lit_children s ts) \<longleftrightarrow> (Lit s # fst t, snd t) \<in> set ts"
    by (cases t) (force simp: lit_children_def neq_Nil_conv)
  show "t \<in> set (wild_children ts) \<longleftrightarrow> (\<exists>n. (Wild n # fst t, snd t) \<in> set ts)"
    by (cases t) (force simp: wild_children_def w neq_Nil_conv)
qed

lemma find_SomeD: "find P xs = Some x \<Longrightarrow> x \<in> set xs \<and> P x"
  by (auto simp: find_Some_iff)

lemma match_sound:
  "match_segments ts ss = Some (h, vs) \<Longrightarrow>
     \<exists>ps. (ps, h) \<in> set ts \<and> list_all2 seg_match ps ss \<and> vs = wild_values ps ss"
proof (induction ss arbitrary: ts vs)
  case Nil
  then obtain t where "find (\<lambda>t. fst t = []) ts = Some t" "h = snd t" "vs = []" by auto
  then have "t \<in> set ts" "t = ([], h)" using find_SomeD [of _ ts t] by (auto simp: prod_eq_iff)
  then show ?case using \<open>vs = []\<close> by (intro exI [of _ "[]"]) simp
next
  case (Cons s ss)
  from Cons.prems consider "match_segments (lit_children s ts) ss = Some (h, vs)"
    | vs' where "s \<noteq> [slash]" "match_segments (wild_children ts) ss = Some (h, vs')" "vs = s # vs'"
    by (auto split: option.splits if_splits)
  then show ?case
  proof cases
    case 1
    from Cons.IH [OF this] show ?thesis by (fastforce simp: in_children)
  next
    case 2
    from Cons.IH [OF 2(2)] obtain ps n where "(Wild n # ps, h) \<in> set ts" "list_all2 seg_match ps ss"
      "vs' = wild_values ps ss"
      by (auto simp: in_children)
    then show ?thesis using 2 by (intro exI [of _ "Wild n # ps"]) simp
  qed
qed

lemma match_complete:
  "(ps, h) \<in> set ts \<Longrightarrow> list_all2 seg_match ps ss \<Longrightarrow> match_segments ts ss \<noteq> None"
proof (induction ss arbitrary: ts ps)
  case Nil
  then have "([], h) \<in> set ts" by simp
  then have "find (\<lambda>t. fst t = []) ts \<noteq> None" unfolding find_None_iff by force
  then show ?case by simp
next
  case (Cons s ss)
  then obtain p qs where ps: "ps = p # qs" "seg_match p s" "list_all2 seg_match qs ss"
    by (auto simp: list_all2_Cons2)
  show ?case
  proof (cases p)
    case (Lit l)
    then have "(qs, h) \<in> set (lit_children s ts)" using ps Cons.prems(1) by (simp add: in_children)
    from Cons.IH [OF this ps(3)] show ?thesis by auto
  next
    case (Wild n)
    then have "(qs, h) \<in> set (wild_children ts)" using ps Cons.prems(1) by (auto simp: in_children)
    from Cons.IH [OF this ps(3)] show ?thesis using ps(2) Wild by (auto split: option.split)
  qed
qed

lemma api_route_pattern:
  assumes "m = ''GET'' \<or> m = ''POST'' \<or> m = ''DELETE''" and "api_route m segs \<noteq> None"
  shows "\<exists>t \<in> set (with_method m api_patterns). list_all2 seg_match (fst t) segs"
  using assms
  by (cases rule: path_cases [of segs]; elim disjE) (auto simp: api_route_def api_methods split: if_splits)

lemma api_pattern_route:
  assumes "(ps, p, h) \<in> set (with_method m api_patterns)" and "list_all2 seg_match ps segs"
    and "m = ''GET'' \<or> m = ''POST'' \<or> m = ''DELETE''"
  shows "pt_segs p = ps \<and> api_route m segs = Some (h, zip (wild_names ps) (wild_values ps segs))"
  using assms(3,1,2)
  by (elim disjE) (auto simp: api_methods api_route_def list_all2_Cons1)

lemma route_by_method:
  assumes "m = ''GET'' \<or> m = ''POST'' \<or> m = ''DELETE''"
  shows "found_route (match_path (with_method m api_patterns) p) = api_route m (segments p)"
proof (cases "match_segments (with_method m api_patterns) (segments p)")
  case None
  then have "api_route m (segments p) = None"
    using api_route_pattern [OF assms, of "segments p"] match_complete
    by (metis prod.collapse)
  then show ?thesis using None by (simp add: match_path_segments found_route_def)
next
  case (Some r)
  obtain q h vs where r: "r = ((q, h), vs)" by (metis prod.exhaust)
  then obtain ps where ps: "(ps, q, h) \<in> set (with_method m api_patterns)" "list_all2 seg_match ps (segments p)"
    "vs = wild_values ps (segments p)"
    using match_sound [of "with_method m api_patterns" "segments p" "(q, h)" vs] Some by auto
  from api_pattern_route [OF ps(1,2) assms] show ?thesis
    using Some r ps(3) by (simp add: match_path_segments found_route_def)
qed

lemma with_other_method:
  "m \<noteq> ''GET'' \<Longrightarrow> m \<noteq> ''HEAD'' \<Longrightarrow> m \<noteq> ''POST'' \<Longrightarrow> m \<noteq> ''DELETE'' \<Longrightarrow> with_method m api_patterns = []"
  by (simp add: api_patterns_def)

lemma api_route_other_method:
  "m \<noteq> ''GET'' \<Longrightarrow> m \<noteq> ''HEAD'' \<Longrightarrow> m \<noteq> ''POST'' \<Longrightarrow> m \<noteq> ''DELETE'' \<Longrightarrow> api_route m segs = None"
  by (cases rule: path_cases [of segs]) (simp_all add: api_route_def)

lemma api_route_HEAD: "api_route ''HEAD'' segs = api_route ''GET'' segs"
  by (cases rule: path_cases [of segs]) (simp_all add: api_route_def)

lemma match_HEAD:
  "found_route (match_path (with_method ''HEAD'' api_patterns) p)
     = (if segments p = [''health''] then Some (HealthHandler_h, []) else None)"
proof (cases rule: path_cases [of "segments p"])
  case (one a)
  then show ?thesis by (simp add: route_simps)
qed (simp_all add: route_simps)

lemma found_route_simps [simp]:
  "found_route None = None" "found_route r = None \<longleftrightarrow> r = None"
  by (simp_all add: found_route_def)

lemma match_api: "found_route (match_request api_patterns m p) = api_route m (segments p)"
proof -
  have nomethod: "match_path (with_method [] api_patterns) p = None" for p
    by (simp add: api_patterns_def match_path_segments)
  consider "m = ''GET'' \<or> m = ''POST'' \<or> m = ''DELETE''" | "m = ''HEAD''"
    | "m \<noteq> ''GET''" "m \<noteq> ''HEAD''" "m \<noteq> ''POST''" "m \<noteq> ''DELETE''" by blast
  then show ?thesis
  proof cases
    case 1
    then have "m \<noteq> ''HEAD''" by auto
    then show ?thesis
      using route_by_method [OF 1, of p] nomethod
      by (cases "match_path (with_method m api_patterns) p") (simp_all add: match_request_def)
  next
    case 2
    show ?thesis
      using 2 match_HEAD [of p] route_by_method [of "''GET''" p] api_route_HEAD [of "segments p"]
      by (auto simp: match_request_def nomethod api_route_def split: option.split if_splits)
  next
    case 3
    then show ?thesis
      by (simp add: match_request_def nomethod with_other_method api_route_other_method match_path_segments)
  qed
qed

text \<open>A path with one more slash at its end is no path of the API.\<close>

lemma segments_slash:
  "p \<noteq> [] \<Longrightarrow> hd p = slash \<Longrightarrow> \<not> ends_slash p \<Longrightarrow> segments (p @ [slash]) = segments p @ [[slash]]"
proof (induction p rule: segments.induct)
  case (1 p)
  obtain q where p: "p = slash # q" "q \<noteq> []" using 1(2-4) by (cases p) (auto simp: ends_slash_def split: if_splits)
  let ?u = "takeWhile (\<lambda>c. c \<noteq> slash) q" and ?t = "dropWhile (\<lambda>c. c \<noteq> slash) q"
  have f: "firstSegment p = (unescaped ?u, ?t)" using p by (simp add: firstSegment_def Let_def)
  have last: "last q \<noteq> slash" using 1(4) p by (simp add: ends_slash_def)
  have one: "segments [slash] = [[slash]]" by code_simp
  have split: "q = ?u @ ?t" by simp
  show ?case
  proof (cases "?t = []")
    case True
    then have free: "slash \<notin> set q" by (auto simp: dropWhile_eq_Nil_conv)
    have q: "?u = q" using split True by simp
    have "takeWhile (\<lambda>c. c \<noteq> slash) (q @ [slash]) = q" "dropWhile (\<lambda>c. c \<noteq> slash) (q @ [slash]) = [slash]"
      using free by (subst takeWhile_append2 dropWhile_append2; auto)+
    then have "firstSegment (p @ [slash]) = (unescaped q, [slash])"
      using p by (simp add: firstSegment_def Let_def)
    then have "segments (p @ [slash]) = unescaped q # segments [slash]"
      using p by (subst segments.simps) simp
    moreover have "segments p = [unescaped q]" using f True q p by (subst segments.simps) simp
    ultimately show ?thesis using one by simp
  next
    case False
    then have hd: "hd ?t = slash" using hd_dropWhile [of "\<lambda>c. c \<noteq> slash" q] by simp
    have "last q = last ?t" using last_appendR [OF False, of ?u] split by simp
    then have "\<not> ends_slash ?t" using last by (simp add: ends_slash_def)
    then have IH: "segments (?t @ [slash]) = segments ?t @ [[slash]]"
      using 1(1) [OF 1(2)] f hd False by simp
    have x: "slash \<in> set q" using False by (auto simp: dropWhile_eq_Nil_conv)
    have "firstSegment (p @ [slash]) = (unescaped ?u, ?t @ [slash])"
      using p x by (auto simp: firstSegment_def Let_def takeWhile_append1 dropWhile_append1)
    then have "segments (p @ [slash]) = unescaped ?u # segments (?t @ [slash])"
      using p by (subst segments.simps) simp
    moreover have "segments p = unescaped ?u # segments ?t" using f p by (subst segments.simps) simp
    ultimately show ?thesis using IH by simp
  qed
qed

lemma api_route_slash: "api_route m (segs @ [[slash]]) = None"
proof (cases rule: path_cases [of segs])
qed (auto simp: api_route_def Let_def)

lemma match_slash:
  assumes "p \<noteq> []" "hd p = slash" "\<not> ends_slash p"
  shows "match_request api_patterns m (p @ [slash]) = None"
  using match_api [of m "p @ [slash]"] api_route_slash [of m "segments p"] segments_slash [OF assms]
  by simp

lemma set_sorted: "set (foldr insert_str ms []) = set ms"
proof -
  have "set (insert_str s ts) = insert s (set ts)" for s ts by (induction ts) auto
  then show ?thesis by (induction ms) auto
qed

lemma path_methods_set:
  "set (path_methods mux p) =
     {m \<in> (pt_method \<circ> fst) ` set mux. m \<noteq> [] \<and> match_path (with_method m mux) p \<noteq> None}"
  by (auto simp: path_methods_def)

lemma api_pattern_methods: "(pt_method \<circ> fst) ` set api_patterns = {''GET'', ''HEAD'', ''POST'', ''DELETE''}"
  by (auto simp: api_patterns_def)

lemma path_methods_mem:
  "m \<in> set (path_methods api_patterns p) \<longleftrightarrow>
     m \<in> {''GET'', ''HEAD'', ''POST'', ''DELETE''} \<and> match_path (with_method m api_patterns) p \<noteq> None"
  unfolding path_methods_set api_pattern_methods by blast

lemma path_methods_api:
  "m \<in> set (path_methods api_patterns p) \<longleftrightarrow>
     (if m = ''HEAD'' then segments p = [''health''] else api_route m (segments p) \<noteq> None)"
proof -
  consider "m = ''HEAD''" | "m = ''GET'' \<or> m = ''POST'' \<or> m = ''DELETE''"
    | "m \<noteq> ''GET''" "m \<noteq> ''HEAD''" "m \<noteq> ''POST''" "m \<noteq> ''DELETE''" by blast
  then show ?thesis
  proof cases
    case 1
    have "match_path (with_method ''HEAD'' api_patterns) p \<noteq> None \<longleftrightarrow> segments p = [''health'']"
      using match_HEAD [of p] by (metis found_route_simps(2) option.discI)
    then show ?thesis unfolding path_methods_mem using 1 by simp
  next
    case 2
    have "match_path (with_method m api_patterns) p \<noteq> None \<longleftrightarrow> api_route m (segments p) \<noteq> None"
      using route_by_method [OF 2, of p] by (metis found_route_simps)
    then show ?thesis unfolding path_methods_mem using 2 by (elim disjE) simp_all
  next
    case 3
    then show ?thesis unfolding path_methods_mem using api_route_other_method [OF 3, of "segments p"] by simp
  qed
qed

lemma matching_methods_api:
  assumes "p \<noteq> []" "hd p = slash"
  shows "set (matching_methods api_patterns p) = {m. api_route m (segments p) \<noteq> None}"
proof -
  have more: "path_methods api_patterns (p @ [slash]) = []" if "\<not> ends_slash p"
  proof -
    have "m \<notin> set (path_methods api_patterns (p @ [slash]))" for m
      by (simp add: path_methods_api segments_slash [OF assms that] api_route_slash)
    then show ?thesis by (metis list.set_intros(1) neq_Nil_conv)
  qed
  then have ms: "set (matching_methods api_patterns p) =
      (let A = set (path_methods api_patterns p) in if ''GET'' \<in> A then insert ''HEAD'' A else A)"
    by (auto simp: matching_methods_def Let_def set_sorted)
  have health: "api_route ''GET'' [''health''] \<noteq> None" by (simp add: api_route_def)
  have "m \<in> set (matching_methods api_patterns p) \<longleftrightarrow> api_route m (segments p) \<noteq> None" for m
  proof (cases "m = ''HEAD''")
    case True
    then show ?thesis using health api_route_HEAD [of "segments p"]
      by (auto simp: ms Let_def path_methods_api)
  next
    case False
    then show ?thesis by (simp add: ms Let_def path_methods_api)
  qed
  then show ?thesis by blast
qed

section \<open>The table\<close>

lemma find_handler_api:
  assumes "sr_EscapedPath r = p" and "rq_Method (sr_rq r) = m" and "cleanPath p = p" and "m \<noteq> ''CONNECT''"
  shows "case api_route m (segments p) of
        Some (h, values) \<Rightarrow> \<exists>q vs. find_handler api_patterns r = Found (q, h) vs \<and>
          rq_PathValues (sr_rq (bind_path q vs r)) = values
      | None \<Rightarrow>
          if \<exists>m'. api_route m' (segments p) \<noteq> None
          then \<exists>ms. find_handler api_patterns r = NotAllowed ms \<and> set ms = {m'. api_route m' (segments p) \<noteq> None}
          else find_handler api_patterns r = NoPage"
proof -
  have p: "p \<noteq> []" "hd p = slash" using assms(3) cleanPath_nonempty cleanPath_rooted by metis+
  have no: "\<not> (match_request api_patterns m p = None \<and> \<not> ends_slash p \<and> match_request api_patterns m (p @ [slash]) \<noteq> None)"
    using match_slash [OF p] by auto
  have "find_handler api_patterns r =
     (case match_request api_patterns m p of
        Some (h, vs) \<Rightarrow> Found h vs
      | None \<Rightarrow> (let ms = matching_methods api_patterns p in if ms \<noteq> [] then NotAllowed ms else NoPage))"
    using no by (cases "match_request api_patterns m p") (auto simp: find_handler_def Let_def assms)
  moreover have "(matching_methods api_patterns p = []) = ({m'. api_route m' (segments p) \<noteq> None} = {})"
    using matching_methods_api [OF p] by (metis set_empty)
  ultimately show ?thesis
    using match_api [of m p, symmetric] matching_methods_api [OF p]
    by (auto simp: found_route_def Let_def bind_path_def split: option.split)
qed

text \<open>C30: the router of the server is made without a conflict between its patterns, and for a clean path
  it finds exactly the handler of the routing table, with the wildcard bound to the unescaped
  segment; a path that only other methods have is answered with these methods, \<open>HEAD\<close> with
  \<open>GET\<close>, and any other path is not found.\<close>

theorem routing_table:
  assumes "sr_EscapedPath r = p" and "rq_Method (sr_rq r) = m" and "cleanPath p = p" and "m \<noteq> ''CONNECT''"
  shows "\<exists>mux. api_mux = Returns mux \<and>
     (case api_route m (segments p) of
        Some (h, values) \<Rightarrow> \<exists>q vs. find_handler mux r = Found (q, h) vs \<and>
          rq_PathValues (sr_rq (bind_path q vs r)) = values
      | None \<Rightarrow>
          if \<exists>m'. api_route m' (segments p) \<noteq> None
          then \<exists>ms. find_handler mux r = NotAllowed ms \<and> set ms = {m'. api_route m' (segments p) \<noteq> None}
          else find_handler mux r = NoPage)"
  using find_handler_api [OF assms] api_mux_eq by blast

definition sample_get :: "string \<Rightarrow> string \<Rightarrow> bytes \<Rightarrow> server_request" where
  "sample_get method p body =
     \<lparr>sr_rq = \<lparr>rq_Method = method, rq_Path = unescaped p, rq_Body = body, rq_Query = [], rq_PathValues = []\<rparr>,
      sr_EscapedPath = p, sr_RawQuery = [], sr_Header = [], sr_requestID = None\<rparr>"

lemma sample_get_simps [simp]:
  "sr_EscapedPath (sample_get m p b) = p" "rq_Method (sr_rq (sample_get m p b)) = m"
  "rq_Path (sr_rq (sample_get m p b)) = unescaped p" "rq_Body (sr_rq (sample_get m p b)) = b"
  by (simp_all add: sample_get_def)

theorem routing_table_witness:
  "\<exists>mux q vs ms. api_mux = Returns mux \<and>
     find_handler mux (sample_get ''GET'' ''/v1/batches/b%20x'' []) = Found (q, Batch_h RetrieveBatch_h) vs \<and>
     rq_PathValues (sr_rq (bind_path q vs (sample_get ''GET'' ''/v1/batches/b%20x'' []))) = [(''batch_id'', ''b x'')] \<and>
     find_handler mux (sample_get ''POST'' ''/v1/batches/b'' []) = NotAllowed ms \<and> ''GET'' \<in> set ms \<and>
     find_handler mux (sample_get ''GET'' ''/v2'' []) = NoPage"
proof -
  have c: "cleanPath ''/v1/batches/b%20x'' = ''/v1/batches/b%20x''" "cleanPath ''/v1/batches/b'' = ''/v1/batches/b''"
    "cleanPath ''/v2'' = ''/v2''"
    by code_simp+
  have s: "segments ''/v1/batches/b%20x'' = [''v1'', ''batches'', ''b x'']"
    "segments ''/v1/batches/b'' = [''v1'', ''batches'', ''b'']" "segments ''/v2'' = [''v2'']"
    by code_simp+
  note t = routing_table [OF sample_get_simps(1,2)]
  have "\<exists>q vs. find_handler api_patterns (sample_get ''GET'' ''/v1/batches/b%20x'' []) = Found (q, Batch_h RetrieveBatch_h) vs \<and>
      rq_PathValues (sr_rq (bind_path q vs (sample_get ''GET'' ''/v1/batches/b%20x'' []))) = [(''batch_id'', ''b x'')]"
    using t [OF c(1), of "''GET''" "[]"] by (simp add: s api_route_def api_mux_eq)
  moreover have "\<exists>ms. find_handler api_patterns (sample_get ''POST'' ''/v1/batches/b'' []) = NotAllowed ms \<and> ''GET'' \<in> set ms"
  proof -
    have r: "api_route ''POST'' [''v1'', ''batches'', ''b''] = None" "\<exists>m'. api_route m' [''v1'', ''batches'', ''b''] \<noteq> None"
      "''GET'' \<in> {m'. api_route m' [''v1'', ''batches'', ''b''] \<noteq> None}"
      by (auto simp: api_route_def intro: exI [of _ "''GET''"])
    show ?thesis using t [OF c(2), of "''POST''" "[]"] unfolding s(2) r(1) if_P [OF r(2)] api_mux_eq
      using r(3) by auto
  qed
  moreover have "find_handler api_patterns (sample_get ''GET'' ''/v2'' []) = NoPage"
    using t [OF c(3), of "''GET''" "[]"] by (simp add: s api_route_def api_mux_eq)
  ultimately show ?thesis using api_mux_eq by blast
qed

end
