(* ===== verification/Gateway.thy ===== *)
theory Gateway
  imports Routing
begin

text \<open>
  What a client of the API server sees, through the router and all middleware: for every database,
  queue and event client that keeps its contract (the locale \<open>batch_service\<close>), that every request is
  given a response and leaves the service in a good state, that the response is sent and the request
  counted if its method and path are UTF-8, and that it is a step of the batch service or none.
\<close>

section \<open>Answers of the handlers\<close>

definition answered :: "response_writer \<Rightarrow> response_writer \<Rightarrow> bool" where
  "answered w w' \<longleftrightarrow> (\<exists>status m. w' = WriteJSONResponse status m w)"

lemma answered_writers [simp]:
  "answered w (WriteJSONResponse status m w)" "answered w (WriteAPIError e w)"
  "answered w (WriteInternalServerError w)" "answered w (WriteNotImplementedError w)"
  "answered w (bad_request msg w)" "answered w (not_found k w)"
  by (auto simp: answered_def WriteAPIError_def WriteInternalServerError_def WriteNotImplementedError_def
      bad_request_def not_found_def Let_def)

lemma update_status_answers: "fst (update_status c p b w s) = Returns w' \<Longrightarrow> answered w w'"
  by (auto simp: update_status_def Let_def split: prod.splits if_splits)

lemma CreateBatch_answers: "fst (CreateBatch c uuid now1 now2 rq w s) = Returns w' \<Longrightarrow> answered w w'"
  by (auto simp: CreateBatch_def Let_def split: prod.splits if_splits option.splits go_result.splits)

lemma ListBatches_answers: "fst (ListBatches c rq w s) = Returns w' \<Longrightarrow> answered w w'"
  by (auto simp: ListBatches_def Let_def split: prod.splits if_splits option.splits sum.splits)

lemma RetrieveBatch_answers: "fst (RetrieveBatch c rq w s) = Returns w' \<Longrightarrow> answered w w'"
  by (auto simp: RetrieveBatch_def Let_def split: prod.splits if_splits option.splits sum.splits)

lemma CancelBatch_answers: "fst (CancelBatch c now rq w s) = Returns w' \<Longrightarrow> answered w w'"
  by (auto simp: CancelBatch_def Let_def dest!: update_status_answers
      split: prod.splits if_splits option.splits sum.splits go_result.splits)

lemma run_batch_answers: "fst (run_batch_handler c env h rq w s) = Returns w' \<Longrightarrow> answered w w'"
  by (cases h) (auto simp: run_batch_handler_def dest: CreateBatch_answers ListBatches_answers
      RetrieveBatch_answers CancelBatch_answers)

lemma answered_on: "answered w w' \<Longrightarrow> rw_sent w = None \<Longrightarrow> answers_on w w'"
  by (auto simp: answered_def answers_on_json)

lemma HealthHandler_answers: "rw_sent w = None \<Longrightarrow> answers_on w (HealthHandler w)"
  using kept_headers(1) [OF header_kept_refl [of w]]
  by (intro answers_onI) (simp_all add: HealthHandler_def writer_defs answer_headers_def)

text \<open>A create request ends, and panics at most on the body \<open>null\<close>, before it does anything.\<close>

lemma CreateBatch_ends:
  "(\<exists>w'. fst (CreateBatch c uuid now1 now2 rq w s) = Returns w') \<or>
   CreateBatch c uuid now1 now2 rq w s = (Panics nil_dereference, s)"
proof (cases "decode_request (rq_Body rq)")
  case None
  then show ?thesis by (simp add: CreateBatch_rejects(1))
next
  case (Some b)
  show ?thesis
  proof (cases b)
    case None
    then show ?thesis using Some by (simp add: CreateBatch_rejects(3))
  next
    case r: (Some r)
    obtain e where "CreateBatchRequest_Validate b = Returns e"
      using Validate_Some_returns r by blast
    then show ?thesis using Some
      by (cases e) (auto simp: CreateBatch_def Let_def split: option.split prod.split)
  qed
qed

section \<open>Requests on any clients that keep their contracts\<close>

text \<open>A request of a batch handler is a step of the service.\<close>

lemma run_batch_step:
  assumes "look (w_store s) (batch_id (re_batchUUID env)) = None" and "int64_ok (Unix (re_now1 env))"
    and "run_batch_handler c env h rq w s = (res, s')"
  shows "api_step c look s s'"
proof (cases h)
  case CreateBatch_h
  show ?thesis
    by (rule api_step.create, rule assms(1), rule assms(2))
      (use assms(3) CreateBatch_h in \<open>simp add: run_batch_handler_def\<close>)
qed (use assms(2,3) in \<open>auto simp: run_batch_handler_def intro: api_step.list api_step.retrieve api_step.cancel\<close>)

lemma serve_endpoint_step:
  assumes "look (w_store (gw_api g)) (batch_id (re_batchUUID env)) = None" and "int64_ok (Unix (re_now1 env))"
    and "serve_endpoint promhttp c env h r w g = (res, g')"
  shows "(gw_api g' = gw_api g \<or> api_step c look (gw_api g) (gw_api g')) \<and> gw_metrics g' = gw_metrics g"
proof (cases h)
  case (Batch_h b)
  obtain res' s' where run: "run_batch_handler c env b (sr_rq r) w (gw_api g) = (res', s')" by fastforce
  then have "g' = g\<lparr>gw_api := s'\<rparr>"
    using assms(3) Batch_h by (auto simp: serve_endpoint_def Let_def split: go_result.splits)
  then show ?thesis using run_batch_step [where look = look, OF assms(1,2) run] by simp
qed (use assms(3) in \<open>auto simp: serve_endpoint_def\<close>)

lemma mux_step:
  assumes "look (w_store (gw_api g)) (batch_id (re_batchUUID env)) = None" and "int64_ok (Unix (re_now1 env))"
    and "mux_ServeHTTP (serve_endpoint promhttp c env) mux r w g = (res, g')"
  shows "(gw_api g' = gw_api g \<or> api_step c look (gw_api g) (gw_api g')) \<and> gw_metrics g' = gw_metrics g"
  using assms(3) serve_endpoint_step [where look = look, OF assms(1,2)]
  by (auto simp: mux_ServeHTTP_def split: mux_answer.splits prod.splits)

text \<open>The same through the middleware, which touches the metrics only.\<close>

lemma middleware_state:
  "snd (middleware_chain env mux r w g) = g \<or>
   (\<exists>r' w' g1. gw_api g1 = gw_api g \<and> gw_api (snd (middleware_chain env mux r w g)) = gw_api (snd (mux r' w' g1)))"
proof -
  have rec: "snd (RecoveryMiddleware mux r w g) = snd (mux r w g)" for r w g by (rule Recovery_state)
  have "\<exists>r' w' g1. gw_api g1 = gw_api g \<and>
      gw_api (snd (RequestMiddleware i e (RecoveryMiddleware mux) r w g)) = gw_api (snd (mux r' w' g1))" for i e r w g
  proof (cases "rq_Path (sr_rq r) = MetricsPath \<or> rq_Path (sr_rq r) = HealthPath")
    case True
    then show ?thesis using rec [of r w g] by (auto simp: RequestMiddleware_def)
  next
    case False
    define i' where "i' = (if Header_Get (sr_Header r) requestIDHeader = [] then i
        else Header_Get (sr_Header r) requestIDHeader)"
    let ?r = "r\<lparr>sr_requestID := Some i'\<rparr>"
    let ?w = "(set_header requestIDHeader i' w)\<lparr>rw_statusCode := 200\<rparr>"
    let ?g = "RecordRequestStart g"
    have "gw_api (snd (RequestMiddleware i e (RecoveryMiddleware mux) r w g)) = gw_api (snd (RecoveryMiddleware mux ?r ?w ?g))"
      using False
      by (simp add: RequestMiddleware_def Let_def i'_def split_def RecordRequestFinish_api
          split: outcome.split go_result.split)
    moreover have "gw_api ?g = gw_api g" by (simp add: RecordRequestStart_def record_ops_def)
    ultimately show ?thesis unfolding rec by blast
  qed
  from this show ?thesis by (simp add: middleware_chain_def SecurityHeadersMiddleware_def Let_def)
qed

lemma built: "buildHandler promhttp c env = Returns h \<longleftrightarrow>
    h = middleware_chain env (mux_ServeHTTP (serve_endpoint promhttp c env) api_patterns)"
  by (auto simp: buildHandler_def api_mux_eq)

lemma gateway_request_step:
  assumes "look (w_store (gw_api g)) (batch_id (re_batchUUID env)) = None" and "int64_ok (Unix (re_now1 env))"
    and "buildHandler promhttp c env = Returns h" and "h r w g = (res, g')"
  shows "gw_api g' = gw_api g \<or> api_step c look (gw_api g) (gw_api g')"
proof -
  let ?mux = "mux_ServeHTTP (serve_endpoint promhttp c env) api_patterns"
  have h: "h = middleware_chain env ?mux" using assms(3) by (simp add: built)
  have step: "gw_api (snd (?mux r' w' g1)) = gw_api g \<or> api_step c look (gw_api g) (gw_api (snd (?mux r' w' g1)))"
    if "gw_api g1 = gw_api g" for r' w' g1
    using mux_step [where look = look and g = g1, OF _ assms(2) prod.collapse [symmetric]] assms(1) that by metis
  from middleware_state [of env ?mux r w g] show ?thesis
    using assms(4) step unfolding h by (metis snd_conv)
qed

section \<open>Every request is answered\<close>

text \<open>A handler below the recovery ends properly: it answers on its writer, or panics before it writes.\<close>

definition ends_properly :: "response_writer \<Rightarrow> outcome \<Rightarrow> bool" where
  "ends_properly w res \<longleftrightarrow> (\<exists>w'. res = Served w' \<and> answers_on w w') \<or> (\<exists>err. res = Panicked err w)"

lemma Recovery_answers:
  assumes "ends_properly w (fst (mux r w g))" and "rw_sent w = None"
  shows "\<exists>w'. fst (RecoveryMiddleware mux r w g) = Served w' \<and> answers_on w w'"
  using assms answers_on_api_error [OF assms(2)]
  by (cases "mux r w g") (auto simp: ends_properly_def RecoveryMiddleware_def Let_def)

lemma mux_ends:
  assumes "\<And>p h vs. find_handler mux r = Found (p, h) vs \<Longrightarrow> ends_properly w (fst (serve h (bind_path p vs r) w g))"
    and "rw_sent w = None"
  shows "ends_properly w (fst (mux_ServeHTTP serve mux r w g))"
proof (cases "find_handler mux r")
  case (Found ph vs)
  then show ?thesis using assms(1) by (cases ph) (simp add: mux_ServeHTTP_def)
qed (use assms(2) in \<open>simp_all add: mux_ServeHTTP_def ends_properly_def answers_on_moved answers_on_error answers_on_not_allowed\<close>)

text \<open>A request as the HTTP server makes it: its path is the unescaped path that was sent.\<close>

definition well_formed :: "server_request \<Rightarrow> bool" where
  "well_formed r \<longleftrightarrow> rq_Path (sr_rq r) = unescaped (sr_EscapedPath r)"

lemma unescaped_slash: "unescaped (slash # s) = slash # unescaped s"
  by (simp add: unescaped_def split: option.split)

lemma api_route_metrics: "api_route m segs = Some (MetricsHandler_h, b) \<Longrightarrow> segs = [''metrics''] \<and> m \<in> {''GET'', ''HEAD''}"
  by (cases rule: path_cases [of segs]) (simp_all add: api_route_def Let_def split: if_splits)

lemma single_segment:
  assumes "segments p = [s]" and "s \<noteq> [slash]" and "hd p = slash"
  shows "unescaped p = slash # s"
proof -
  have p: "p \<noteq> []" using assms(1) by auto
  then have f: "fst (firstSegment p) = s" "segments (snd (firstSegment p)) = []"
    using assms(1) by (subst (asm) segments.simps; simp)+
  then have "snd (firstSegment p) = []" by (metis segments.simps list.discI)
  moreover have "p \<noteq> [slash]" using f(1) assms(2) by (auto simp: firstSegment_def)
  ultimately have "dropWhile (\<lambda>c. c \<noteq> slash) (tl p) = []" "unescaped (takeWhile (\<lambda>c. c \<noteq> slash) (tl p)) = s"
    using f(1) by (auto simp: firstSegment_def Let_def)
  moreover from this(1) have "takeWhile (\<lambda>c. c \<noteq> slash) (tl p) = tl p"
    by (metis append_Nil2 takeWhile_dropWhile_id)
  ultimately have "unescaped (tl p) = s" by simp
  then show ?thesis using unescaped_slash [of "tl p"] assms(3) p by (cases p) auto
qed

lemma metrics_only:
  assumes "find_handler api_patterns r = Found (p, MetricsHandler_h) vs" and "well_formed r"
  shows "rq_Path (sr_rq r) = MetricsPath"
proof -
  define m where "m = rq_Method (sr_rq r)"
  define q where "q = (if m = ''CONNECT'' then sr_EscapedPath r else cleanPath (sr_EscapedPath r))"
  have found: "match_request api_patterns m q = Some ((p, MetricsHandler_h), vs)" "q = sr_EscapedPath r"
    using assms(1) by (auto simp: find_handler_def Let_def q_def m_def split: if_splits option.splits)
  have "found_route (match_request api_patterns m q) = api_route m (segments q)"
    by (rule match_api)
  then have segs: "segments q = [''metrics'']" and "m \<in> {''GET'', ''HEAD''}"
    using api_route_metrics [of m "segments q" "zip (wild_names (pt_segs p)) vs"] found(1)
    by (simp_all add: found_route_def)
  then have "q = cleanPath (sr_EscapedPath r)" by (auto simp: q_def)
  then have "segments (sr_EscapedPath r) = [''metrics'']" "hd (sr_EscapedPath r) = slash"
    using found(2) segs cleanPath_rooted [of "sr_EscapedPath r"] by auto
  then show ?thesis
    using single_segment [of "sr_EscapedPath r" "''metrics''"] assms(2)
    by (simp add: well_formed_def MetricsPath_def)
qed

text \<open>A request that is counted: not for the metrics or the health page, and not a preflight.\<close>

definition counted :: "server_request \<Rightarrow> bool" where
  "counted r \<longleftrightarrow>
     rq_Path (sr_rq r) \<noteq> MetricsPath \<and> rq_Path (sr_rq r) \<noteq> HealthPath \<and> rq_Method (sr_rq r) \<noteq> ''OPTIONS''"

text \<open>A request whose labels the metrics accept, and what is recorded at its end.\<close>

definition countable :: "server_request \<Rightarrow> bool" where
  "countable r \<longleftrightarrow> utf8_valid (rq_Method (sr_rq r)) \<and> utf8_valid (rq_Path (sr_rq r))"

definition finish_ops :: "request_env \<Rightarrow> server_request \<Rightarrow> int \<Rightarrow> metric_op list" where
  "finish_ops env r code =
     [MDec ''http_requests_in_flight'' [],
      MInc ''http_requests_total'' [rq_Method (sr_rq r), rq_Path (sr_rq r), show_int code],
      MObserve ''http_request_duration_seconds'' [rq_Method (sr_rq r), rq_Path (sr_rq r), show_int code] (re_elapsed env)]"

lemma record_ops_fields [simp]:
  "gw_api (record_ops ops g) = gw_api g" "gw_metrics (record_ops ops g) = gw_metrics g @ ops"
  by (simp_all add: record_ops_def)

definition request_id :: "request_env \<Rightarrow> server_request \<Rightarrow> string" where
  "request_id env r =
     (if Header_Get (sr_Header r) requestIDHeader = [] then re_requestUUID env
      else Header_Get (sr_Header r) requestIDHeader)"

definition tagged_request :: "request_env \<Rightarrow> server_request \<Rightarrow> server_request" where
  "tagged_request env r = r\<lparr>sr_requestID := Some (request_id env r)\<rparr>"

definition tagged_writer :: "request_env \<Rightarrow> server_request \<Rightarrow> response_writer" where
  "tagged_writer env r =
     (set_header requestIDHeader (request_id env r) (security_headers new_writer))\<lparr>rw_statusCode := 200\<rparr>"

lemma tagged_simps [simp]:
  "sr_rq (tagged_request env r) = sr_rq r" "sr_EscapedPath (tagged_request env r) = sr_EscapedPath r"
  "sr_requestID (tagged_request env r) = Some (request_id env r)"
  "rw_sent (tagged_writer env r) = None" "rw_body (tagged_writer env r) = []"
  by (simp_all add: tagged_request_def tagged_writer_def security_headers_def set_header_def)

lemma tagged_header:
  "rw_header (tagged_writer env r) =
     [(''X-Request-Id'', request_id env r), (''X-Xss-Protection'', ''1; mode=block''),
      (''X-Frame-Options'', ''DENY''), (''X-Content-Type-Options'', ''nosniff'')]"
  by (simp add: tagged_writer_def security_headers_def set_header_def requestIDHeader_def new_writer_def)

lemma start_state [simp]:
  "gw_api (RecordRequestStart g) = gw_api g"
  "gw_metrics (RecordRequestStart g) = gw_metrics g @ [MInc ''http_requests_in_flight'' []]"
  by (simp_all add: RecordRequestStart_def record_ops_def)

lemma middleware_run:
  assumes "counted r"
    and "RecoveryMiddleware mux (tagged_request env r) (tagged_writer env r) (RecordRequestStart g) = (Served w', g1)"
  shows "middleware_chain env mux r new_writer g =
     (if countable r
      then (Served w', record_ops (finish_ops env r (rw_statusCode w')) g1)
      else (Panicked ''label value is not valid UTF-8'' w', record_ops [MDec ''http_requests_in_flight'' []] g1))"
  using assms
  by (simp add: counted_def middleware_chain_def SecurityHeadersMiddleware_def RequestMiddleware_def Let_def
      request_id_def tagged_request_def tagged_writer_def RecordRequestFinish_cases countable_def finish_ops_def)

context batch_service begin

lemma batch_handler_ends:
  assumes "ok s" and "int64_ok (Unix (re_now1 env))"
    and call: "run_batch_handler c env h rq w s = (res, s')"
  shows "(\<exists>w'. res = Returns w') \<or> (\<exists>err. res = Panics err)"
proof (cases h)
  case CreateBatch_h
  then show ?thesis
    using CreateBatch_ends [of c "re_batchUUID env" "re_now1 env" "re_now2 env" rq w s] call
    by (auto simp: run_batch_handler_def)
next
  case ListBatches_h
  then show ?thesis using call
    by (auto simp: run_batch_handler_def ListBatches_def Let_def split: sum.splits prod.splits if_splits)
next
  case RetrieveBatch_h
  then show ?thesis using call
    by (auto simp: run_batch_handler_def RetrieveBatch_def Let_def split: sum.splits prod.splits if_splits)
next
  case CancelBatch_h
  then have call': "CancelBatch c (re_now1 env) rq w s = (res, s')" using call by (simp add: run_batch_handler_def)
  show ?thesis
  proof (cases "PathValue rq ''batch_id'' = []")
    case True
    then show ?thesis using call' by (auto simp: CancelBatch_def)
  next
    case False
    from cancel_cases [OF assms(1) refl False assms(2) call'] show ?thesis
      by (auto simp: cancelled_as_def split: option.splits if_splits)
  qed
qed

lemma endpoint_ends:
  assumes "ok (gw_api g)" and "int64_ok (Unix (re_now1 env))" and "rw_sent w = None" and "h \<noteq> MetricsHandler_h"
  shows "ends_properly w (fst (serve_endpoint promhttp c env h r w g))"
proof (cases h)
  case (Batch_h b)
  obtain res s' where run: "run_batch_handler c env b (sr_rq r) w (gw_api g) = (res, s')" by fastforce
  from batch_handler_ends [OF assms(1,2) run] consider (ret) w' where "res = Returns w'" | (pan) err where "res = Panics err" by blast
  then show ?thesis
  proof cases
    case ret
    then have "answers_on w w'"
      using run_batch_answers [of c env b "sr_rq r" w "gw_api g" w'] run answered_on assms(3) by simp
    then show ?thesis using Batch_h run ret by (simp add: serve_endpoint_def ends_properly_def Let_def)
  next
    case pan
    then show ?thesis using Batch_h run by (simp add: serve_endpoint_def ends_properly_def Let_def)
  qed
qed (use assms(3,4) in \<open>simp_all add: serve_endpoint_def ends_properly_def HealthHandler_answers
      file_handler_defs WriteNotImplementedError_def answers_on_api_error\<close>)

lemma api_mux_ends:
  assumes "ok (gw_api g)" and "int64_ok (Unix (re_now1 env))" and "rw_sent w = None"
    and "well_formed r" and "rq_Path (sr_rq r) \<noteq> MetricsPath"
  shows "ends_properly w (fst (mux_ServeHTTP (serve_endpoint promhttp c env) api_patterns r w g))"
proof (rule mux_ends [OF _ assms(3)])
  fix p h vs
  assume "find_handler api_patterns r = Found (p, h) vs"
  then have "h \<noteq> MetricsHandler_h" using metrics_only [of r p vs] assms(4,5) by auto
  then show "ends_properly w (fst (serve_endpoint promhttp c env h (bind_path p vs r) w g))"
    by (rule endpoint_ends [OF assms(1-3)])
qed

lemma request_answered:
  assumes s: "ok (gw_api g)" and now: "int64_ok (Unix (re_now1 env))" and r: "well_formed r" "counted r"
    and h: "buildHandler promhttp c env = Returns h"
    and fresh: "look (w_store (gw_api g)) (batch_id (re_batchUUID env)) = None"
  shows "\<exists>out w' g' code hs. h r new_writer g = (out, g') \<and> rw_sent w' = Some (code, hs) \<and>
     map_of hs ''X-Request-Id'' = Some (request_id env r) \<and>
     map_of hs ''X-Content-Type-Options'' = Some ''nosniff'' \<and>
     map_of hs ''X-Frame-Options'' = Some ''DENY'' \<and>
     map_of hs ''X-Xss-Protection'' = Some ''1; mode=block'' \<and>
     (if countable r
      then out = Served w' \<and>
        gw_metrics g' = gw_metrics g @ MInc ''http_requests_in_flight'' [] # finish_ops env r code
      else out = Panicked ''label value is not valid UTF-8'' w' \<and>
        gw_metrics g' = gw_metrics g @ [MInc ''http_requests_in_flight'' [], MDec ''http_requests_in_flight'' []]) \<and>
     ok (gw_api g')"
proof -
  let ?mux = "mux_ServeHTTP (serve_endpoint promhttp c env) api_patterns"
  let ?r = "tagged_request env r" and ?w = "tagged_writer env r" and ?g = "RecordRequestStart g"
  have "ends_properly ?w (fst (?mux ?r ?w ?g))"
    by (rule api_mux_ends) (use s now r in \<open>simp_all add: well_formed_def counted_def\<close>)
  then obtain w' where w': "fst (RecoveryMiddleware ?mux ?r ?w ?g) = Served w'" "answers_on ?w w'"
    using Recovery_answers [of ?w ?mux ?r ?g] by auto
  obtain g1 where g1: "RecoveryMiddleware ?mux ?r ?w ?g = (Served w', g1)"
    using w'(1) by (cases "RecoveryMiddleware ?mux ?r ?w ?g") auto
  have "g1 = snd (?mux ?r ?w ?g)" using g1 Recovery_state [of ?mux ?r ?w ?g] by simp
  then have state: "?mux ?r ?w ?g = (fst (?mux ?r ?w ?g), g1)" by simp
  have fresh': "look (w_store (gw_api ?g)) (batch_id (re_batchUUID env)) = None" using fresh by simp
  have step: "gw_api g1 = gw_api g \<or> api_step c look (gw_api g) (gw_api g1)"
    and metrics: "gw_metrics g1 = gw_metrics g @ [MInc ''http_requests_in_flight'' []]"
    using mux_step [where look = look, OF fresh' now state] by simp_all
  have ok1: "ok (gw_api g1)" using step s step_ok by metis
  obtain code hs where sent: "rw_sent w' = Some (code, hs)" "rw_statusCode w' = code"
    and kept: "\<And>k v. k \<notin> answer_headers \<Longrightarrow> map_of (rw_header ?w) k = Some v \<Longrightarrow>
      (k = ''X-Content-Type-Options'' \<longrightarrow> v = ''nosniff'') \<Longrightarrow> map_of hs k = Some v"
    using w'(2) unfolding answers_on_def by blast
  have hs: "map_of hs ''X-Request-Id'' = Some (request_id env r)" "map_of hs ''X-Content-Type-Options'' = Some ''nosniff''"
    "map_of hs ''X-Frame-Options'' = Some ''DENY''" "map_of hs ''X-Xss-Protection'' = Some ''1; mode=block''"
    by (rule kept; simp add: answer_headers_def tagged_header)+
  show ?thesis
    using middleware_run [OF r(2) g1] sent hs ok1 metrics h by (simp add: built)
qed

end

section \<open>Any sequence of requests\<close>

text \<open>
  A step of the whole server with the in-memory clients: one request through the router and the
  middleware, with a fresh batch identifier and a clock that fits 64 bits, or a worker that takes a
  job from the queue.
\<close>

inductive gateway_step ::
  "(server_request \<Rightarrow> response_writer \<Rightarrow> outcome) \<Rightarrow> ServerConfig \<Rightarrow> mock_world gateway \<Rightarrow> mock_world gateway \<Rightarrow> bool"
  for promhttp cfg where
  request: "mdb_look (w_store (gw_api g)) (batch_id (re_batchUUID env)) = None \<Longrightarrow>
     int64_ok (Unix (re_now1 env)) \<Longrightarrow> well_formed r \<Longrightarrow>
     buildHandler promhttp (mock_handler cfg ord clock obs) env = Returns h \<Longrightarrow>
     h r new_writer g = (res, g') \<Longrightarrow> gateway_step promhttp cfg g g'"
| dequeue: "pq_Dequeue (mock_queue clock) timeout 1 (w_queue (gw_api g)) = Returns ((js, e), q) \<Longrightarrow>
     gateway_step promhttp cfg g (g\<lparr>gw_api := (gw_api g)\<lparr>w_queue := q\<rparr>\<rparr>)"

definition gateway_start :: "mock_world gateway" where
  "gateway_start = \<lparr>gw_api = mock_world, gw_metrics = []\<rparr>"

lemma gateway_step_simulates:
  "gateway_step promhttp cfg g g' \<Longrightarrow> (mock_step cfg)\<^sup>*\<^sup>* (gw_api g) (gw_api g')"
proof (induction rule: gateway_step.induct)
  case (request g env ord clock obs h r res g')
  from gateway_request_step [where look = mdb_look, OF request(1,2,4,5)] show ?case
    by (auto intro: mock_step.intros)
next
  case (dequeue clock timeout g js e q)
  have "api_step (mock_handler cfg id clock undefined) mdb_look (gw_api g) ((gw_api g)\<lparr>w_queue := q\<rparr>)"
    by (rule api_step.dequeue) (use dequeue in simp)
  then show ?case by (auto intro: mock_step.intros)
qed

end
