(* ===== verification/HttpContract.thy ===== *)
theory HttpContract
  imports Gateway
begin

text \<open>
  The properties of the API server as a client on the network sees them: every request goes through
  the router, the middleware and the handlers, on the in-memory clients.
\<close>

lemma gateway_run_simulates:
  "(gateway_step promhttp cfg)\<^sup>*\<^sup>* g g' \<Longrightarrow> (mock_step cfg)\<^sup>*\<^sup>* (gw_api g) (gw_api g')"
  by (induction rule: rtranclp_induct) (auto dest: gateway_step_simulates)

lemma gateway_run_ok: "(gateway_step promhttp cfg)\<^sup>*\<^sup>* gateway_start g \<Longrightarrow> mock_ok (gw_api g)"
  using gateway_run_simulates [of promhttp cfg gateway_start g] mock_run_ok by (simp add: gateway_start_def)

section \<open>Sample requests\<close>

definition sample_env :: request_env where
  "sample_env = \<lparr>re_requestUUID = ''req-1'', re_batchUUID = ''u1'', re_now1 = sample_now, re_now2 = sample_now,
     re_elapsed = 5\<rparr>"

abbreviation no_prom :: "server_request \<Rightarrow> response_writer \<Rightarrow> outcome" where
  "no_prom r w \<equiv> Served w"

definition sample_gateway :: "mock_world http_handler" where
  "sample_gateway =
     middleware_chain sample_env (mux_ServeHTTP (serve_endpoint no_prom sample_handler sample_env) api_patterns)"

lemma sample_built: "buildHandler no_prom sample_handler sample_env = Returns sample_gateway"
  by (simp add: built sample_gateway_def)

lemma sample_env_ok:
  "int64_ok (Unix (re_now1 sample_env))"
  "mdb_look (w_store (gw_api gateway_start)) (batch_id (re_batchUUID sample_env)) = None"
  using sample_now_ok sample_fresh by (simp_all add: sample_env_def gateway_start_def)

lemma sample_get_well_formed [simp]: "well_formed (sample_get m p b)"
  by (simp add: well_formed_def)

lemma sample_counted: "counted (sample_get ''POST'' ''/v1/batches'' b)"
proof -
  have "unescaped ''/v1/batches'' = ''/v1/batches''" by code_simp
  then show ?thesis by (simp add: counted_def MetricsPath_def HealthPath_def)
qed

section \<open>Properties\<close>

text \<open>C28: in every state the server can reach, whatever happened before, a request that is not a
  preflight and not for the health or the metrics page is given a response with a status, also when
  its handler panics, with the security headers and the request identifier, the client's own or a new
  one. If its path is UTF-8 the response is sent, and the request is counted under the status that
  was sent. If it is not, as for a path with \<open>%ff\<close>, the metrics panic on the label outside of the
  recovery: the server drops the connection, and the request is not counted.\<close>

theorem request_answered_if_utf8:
  assumes "(gateway_step promhttp cfg)\<^sup>*\<^sup>* gateway_start g"
    and "well_formed r" and "counted r" and "int64_ok (Unix (re_now1 env))"
    and "mdb_look (w_store (gw_api g)) (batch_id (re_batchUUID env)) = None"
    and "buildHandler promhttp (mock_handler cfg ord clock obs) env = Returns h"
  shows "\<exists>out w' g' code hs. h r new_writer g = (out, g') \<and> rw_sent w' = Some (code, hs) \<and>
     map_of hs ''X-Request-Id'' = Some (request_id env r) \<and>
     map_of hs ''X-Content-Type-Options'' = Some ''nosniff'' \<and>
     map_of hs ''X-Frame-Options'' = Some ''DENY'' \<and>
     map_of hs ''X-Xss-Protection'' = Some ''1; mode=block'' \<and>
     (if utf8_valid (rq_Method (sr_rq r)) \<and> utf8_valid (rq_Path (sr_rq r))
      then out = Served w' \<and>
        gw_metrics g' = gw_metrics g @
          [MInc ''http_requests_in_flight'' [], MDec ''http_requests_in_flight'' [],
           MInc ''http_requests_total'' [rq_Method (sr_rq r), rq_Path (sr_rq r), show_int code],
           MObserve ''http_request_duration_seconds'' [rq_Method (sr_rq r), rq_Path (sr_rq r), show_int code]
             (re_elapsed env)]
      else (\<exists>msg. out = Panicked msg w') \<and>
        gw_metrics g' = gw_metrics g @ [MInc ''http_requests_in_flight'' [], MDec ''http_requests_in_flight'' []]) \<and>
     mock_ok (gw_api g')"
  using svc.request_answered [OF gateway_run_ok [OF assms(1)] assms(4,2,3,6,5)]
  by (auto simp: countable_def finish_ops_def split: if_splits)

lemma sample_bad_path: "rq_Path (sr_rq (sample_get ''GET'' ''/v1/batches/%ff'' [])) = ''/v1/batches/'' @ [char_of (255::nat)]"
  by code_simp

theorem request_answered_if_utf8_witness:
  "(\<exists>w' g' code hs. sample_gateway (sample_get ''POST'' ''/v1/batches'' ''null'') new_writer gateway_start = (Served w', g') \<and>
     rw_sent w' = Some (code, hs) \<and> map_of hs ''X-Request-Id'' = Some ''req-1'' \<and> mock_ok (gw_api g')) \<and>
   (\<exists>msg w' g'. sample_gateway (sample_get ''GET'' ''/v1/batches/%ff'' []) new_writer gateway_start = (Panicked msg w', g') \<and>
     length (gw_metrics g') = 2)"
proof
  let ?null = "sample_get ''POST'' ''/v1/batches'' ''null''" and ?bad = "sample_get ''GET'' ''/v1/batches/%ff'' []"
  note served = request_answered_if_utf8 [OF rtranclp.rtrancl_refl _ _ sample_env_ok sample_built [unfolded sample_handler_def]]
  have "request_id sample_env ?null = ''req-1''" "utf8_valid (rq_Method (sr_rq ?null))" "utf8_valid (rq_Path (sr_rq ?null))"
    by code_simp+
  with served [OF sample_get_well_formed sample_counted, of "''null''"]
  show "\<exists>w' g' code hs. sample_gateway ?null new_writer gateway_start = (Served w', g') \<and>
     rw_sent w' = Some (code, hs) \<and> map_of hs ''X-Request-Id'' = Some ''req-1'' \<and> mock_ok (gw_api g')"
    by fastforce
  have "\<not> utf8_valid (rq_Path (sr_rq ?bad))" "counted ?bad" unfolding counted_def sample_bad_path by code_simp+
  with served [OF sample_get_well_formed, of "''GET''" "''/v1/batches/%ff''" "[]"]
  show "\<exists>msg w' g'. sample_gateway ?bad new_writer gateway_start = (Panicked msg w', g') \<and> length (gw_metrics g') = 2"
    by (fastforce simp: gateway_start_def)
qed

lemma sample_posted:
  "gateway_step no_prom NewConfig gateway_start
     (snd (sample_gateway (sample_get ''POST'' ''/v1/batches'' sample_body) new_writer gateway_start))"
  by (rule gateway_step.request [OF sample_env_ok(2,1) sample_get_well_formed sample_built [unfolded sample_handler_def]
        prod.collapse [symmetric]])

lemma sample_posted_run:
  "(gateway_step no_prom NewConfig)\<^sup>*\<^sup>* gateway_start
     (snd (sample_gateway (sample_get ''POST'' ''/v1/batches'' sample_body) new_writer gateway_start))"
  by (rule r_into_rtranclp) (rule sample_posted)

text \<open>C34: in every state the server can reach the gauge of the requests in flight is back at zero,
  however the requests before ended: answered, with a panic recovered, or with the connection dropped
  because the metrics refused the path.\<close>

theorem in_flight_returns_to_zero:
  assumes "(gateway_step promhttp cfg)\<^sup>*\<^sup>* gateway_start g"
  shows "gauge_value ''http_requests_in_flight'' (gw_metrics g) = 0"
  using assms
proof (induction rule: rtranclp_induct)
  case base
  show ?case by (simp add: gateway_start_def)
next
  case (step g g')
  from step.hyps(2) step.IH step.hyps(1) show ?case
  proof (cases rule: gateway_step.cases)
    case (request env r ord clock obs h res)
    let ?mux = "mux_ServeHTTP (serve_endpoint promhttp (mock_handler cfg ord clock obs) env) api_patterns"
    have h: "h = middleware_chain env ?mux" using request(4) by (simp add: built)
    show ?thesis
    proof (cases "counted r")
      case True
      from svc.request_answered [OF gateway_run_ok [OF step.hyps(1)] request(2,3) True request(4,1)]
      show ?thesis using request(5) step.IH by (auto simp: finish_ops_def split: if_splits)
    next
      case False
      have "gw_metrics (snd (?mux r' w' g)) = gw_metrics g" for r' w'
        using mux_step [where look = mdb_look, OF request(1,2) prod.collapse [symmetric]] by blast
      then have "gw_metrics (snd (RecoveryMiddleware ?mux r' w' g)) = gw_metrics g" for r' w'
        by (simp add: Recovery_state)
      then have "gw_metrics (snd (h r new_writer g)) = gw_metrics g"
        using False by (auto simp: h counted_def middleware_chain_def SecurityHeadersMiddleware_def
            RequestMiddleware_def Let_def)
      then show ?thesis using request(5) step.IH by simp
    qed
  next
    case dequeue
    then show ?thesis using step.IH by simp
  qed
qed

theorem in_flight_returns_to_zero_witness:
  "gauge_value ''http_requests_in_flight''
     (gw_metrics (snd (sample_gateway (sample_get ''POST'' ''/v1/batches'' sample_body) new_writer gateway_start))) = 0"
  by (rule in_flight_returns_to_zero [OF sample_posted_run])

text \<open>A request of method \<open>OPTIONS\<close> is answered with 204 whatever its path, reaches no handler, is
  not counted, and is sent with the three security headers only: no header of the CORS protocol.\<close>

theorem preflight_answer:
  assumes "rq_Method (sr_rq r) = ''OPTIONS''" and "buildHandler promhttp c env = Returns h"
  shows "\<exists>w'. h r new_writer g = (Served w', g) \<and> rw_body w' = [] \<and>
     rw_sent w' = Some (204, [(''X-Xss-Protection'', ''1; mode=block''), (''X-Frame-Options'', ''DENY''),
       (''X-Content-Type-Options'', ''nosniff'')])"
  using assms
  by (auto simp: built middleware_chain_def SecurityHeadersMiddleware_def Let_def security_headers_def
      set_header_def write_header_def send_header_def new_writer_def)

theorem preflight_answer_witness:
  "\<exists>w'. sample_gateway (sample_get ''OPTIONS'' ''/v1/batches'' []) new_writer gateway_start = (Served w', gateway_start) \<and>
     rw_status w' = Some 204"
  using preflight_answer [OF _ sample_built, of "sample_get ''OPTIONS'' ''/v1/batches'' []" gateway_start]
  by (auto simp: rw_status_def)

section \<open>The batch API over HTTP\<close>

lemma found_batch_handler:
  assumes "cleanPath p = p" and "m \<noteq> ''CONNECT''" and "sr_EscapedPath r = p" and "rq_Method (sr_rq r) = m"
    and "api_route m (segments p) = Some (h, vals)"
  obtains q vs where "find_handler api_patterns r = Found (q, h) vs"
    and "rq_PathValues (sr_rq (bind_path q vs r)) = vals" and "sr_rq (bind_path q vs r) = (sr_rq r)\<lparr>rq_PathValues := vals\<rparr>"
proof -
  obtain q vs where "find_handler api_patterns r = Found (q, h) vs"
    "rq_PathValues (sr_rq (bind_path q vs r)) = vals"
    using find_handler_api [OF assms(3,4,1,2)] assms(5) by auto
  then show ?thesis using that by (auto simp: bind_path_def)
qed


text \<open>What becomes of the result of a batch handler: a panic is answered with a 500.\<close>

definition served_as :: "request_env \<Rightarrow> server_request \<Rightarrow> response_writer go_result \<Rightarrow> outcome" where
  "served_as env r res =
     (case res of
        Returns w \<Rightarrow> Served w
      | Panics err \<Rightarrow> Served (WriteAPIError
          (NewAPIError 500 [] ''The server had an error while processing your request'' (Some (request_id env r)))
          (tagged_writer env r))
      | Blocks \<Rightarrow> Hangs)"

lemma middleware_hangs:
  assumes "counted r"
    and "RecoveryMiddleware mux (tagged_request env r) (tagged_writer env r) (RecordRequestStart g) = (Hangs, g1)"
  shows "middleware_chain env mux r new_writer g = (Hangs, g1)"
  using assms
  by (simp add: counted_def middleware_chain_def SecurityHeadersMiddleware_def RequestMiddleware_def Let_def
      request_id_def tagged_request_def tagged_writer_def)

text \<open>A batch handler answers through the middleware, on the tagged writer.\<close>

lemma batch_request:
  assumes "counted r" and "countable r" and "cleanPath (sr_EscapedPath r) = sr_EscapedPath r" and "rq_Method (sr_rq r) \<noteq> ''CONNECT''"
    and "api_route (rq_Method (sr_rq r)) (segments (sr_EscapedPath r)) = Some (Batch_h b, vals)"
    and "buildHandler promhttp c env = Returns h"
    and "run_batch_handler c env b ((sr_rq r)\<lparr>rq_PathValues := vals\<rparr>) (tagged_writer env r) (gw_api g) = (res, s')"
  shows "\<exists>g'. h r new_writer g = (served_as env r res, g') \<and> gw_api g' = s'"
proof -
  let ?mux = "mux_ServeHTTP (serve_endpoint promhttp c env) api_patterns"
  let ?r = "tagged_request env r" and ?w = "tagged_writer env r" and ?g = "RecordRequestStart g"
  obtain q vs where q: "find_handler api_patterns ?r = Found (q, Batch_h b) vs"
    "sr_rq (bind_path q vs ?r) = (sr_rq r)\<lparr>rq_PathValues := vals\<rparr>"
    using found_batch_handler [OF assms(3,4), of ?r "Batch_h b" vals] assms(5) by auto
  have mux: "?mux ?r ?w ?g = serve_endpoint promhttp c env (Batch_h b) (bind_path q vs ?r) ?w ?g"
    using q(1) by (simp add: mux_ServeHTTP_def)
  have h: "h = middleware_chain env ?mux" using assms(6) by (simp add: built)
  show ?thesis
  proof (cases res)
    case (Returns w')
    then have "RecoveryMiddleware ?mux ?r ?w ?g = (Served w', ?g\<lparr>gw_api := s'\<rparr>)"
      using mux q(2) assms(7) by (simp add: RecoveryMiddleware_def serve_endpoint_def Let_def)
    from middleware_run [OF assms(1) this] show ?thesis using h Returns assms(2) by (simp add: served_as_def)
  next
    case (Panics err)
    then have "RecoveryMiddleware ?mux ?r ?w ?g = (Served (WriteAPIError
          (NewAPIError 500 [] ''The server had an error while processing your request'' (Some (request_id env r))) ?w),
          ?g\<lparr>gw_api := s'\<rparr>)"
      using mux q(2) assms(7)
      by (simp add: RecoveryMiddleware_def serve_endpoint_def Let_def GetRequestIDFromContext_def)
    from middleware_run [OF assms(1) this] show ?thesis using h Panics assms(2) by (simp add: served_as_def)
  next
    case Blocks
    then have "RecoveryMiddleware ?mux ?r ?w ?g = (Hangs, ?g\<lparr>gw_api := s'\<rparr>)"
      using mux q(2) assms(7) by (simp add: RecoveryMiddleware_def serve_endpoint_def Let_def)
    from middleware_hangs [OF assms(1) this] show ?thesis using h Blocks by (simp add: served_as_def)
  qed
qed

lemma batches_path: "cleanPath ''/v1/batches'' = ''/v1/batches''" "segments ''/v1/batches'' = [''v1'', ''batches'']"
  by code_simp+

lemma post_route: "api_route ''POST'' [''v1'', ''batches''] = Some (Batch_h CreateBatch_h, [])"
  by (simp add: api_route_def)

text \<open>The body \<open>null\<close>, at which the create handler panics, is answered with a 500 whose error names the
  request identifier, and nothing is stored, whatever the clients are.\<close>

theorem null_body_answered:
  assumes "sr_EscapedPath r = ''/v1/batches''" and "rq_Method (sr_rq r) = ''POST''" and "well_formed r"
    and "decode_request (rq_Body (sr_rq r)) = Some None" and "buildHandler promhttp c env = Returns h"
  shows "\<exists>w' g'. h r new_writer g = (Served w', g') \<and> final_status w' = 500 \<and> gw_api g' = gw_api g \<and>
     rw_body w' = jprint (enc_ErrorResponse \<lparr>er_Error =
       \<lparr>ae_Code = 500, ae_Type = ''InternalServerError'',
        ae_Message = ''The server had an error while processing your request'',
        ae_Param = Some (request_id env r)\<rparr>\<rparr>)"
proof -
  have "unescaped ''/v1/batches'' = ''/v1/batches''" by code_simp
  then have c: "counted r" using assms(1-3) by (simp add: counted_def well_formed_def MetricsPath_def HealthPath_def)
  have "run_batch_handler c env CreateBatch_h ((sr_rq r)\<lparr>rq_PathValues := []\<rparr>) (tagged_writer env r) (gw_api g)
      = (Panics nil_dereference, gw_api g)"
    using assms(4) by (simp add: run_batch_handler_def CreateBatch_rejects(3))
  moreover have "countable r"
    using assms(1-3) \<open>unescaped _ = _\<close> by (simp add: countable_def well_formed_def)
  ultimately show ?thesis
    using assms(1,2) batch_request [OF c _ _ _ _ assms(5), of CreateBatch_h "[]" g "Panics nil_dereference" "gw_api g"]
    by (auto simp: batches_path post_route served_as_def final_status_def WriteAPIError_def WriteJSONResponse_def writer_defs
        NewAPIError_def ErrorCodeToType_def)
qed

theorem null_body_answered_witness:
  "\<exists>w' g'. sample_gateway (sample_get ''POST'' ''/v1/batches'' ''null'') new_writer gateway_start = (Served w', g') \<and>
     final_status w' = 500 \<and> gw_api g' = mock_world"
proof -
  have "decode_request ''null'' = Some None" by code_simp
  then have "decode_request (rq_Body (sr_rq (sample_get ''POST'' ''/v1/batches'' ''null''))) = Some None" by simp
  from null_body_answered [OF sample_get_simps(1,2) sample_get_well_formed this sample_built, of gateway_start]
  show ?thesis by (auto simp: gateway_start_def)
qed

lemma retrieve_path:
  assumes "slash \<notin> set uuid" and "CHR ''%'' \<notin> set uuid"
  defines "p \<equiv> ''/v1/batches/'' @ batch_id uuid"
  shows "cleanPath p = p" and "segments p = [''v1'', ''batches'', batch_id uuid]" and "unescaped p = p"
proof -
  have b: "slash \<notin> set (batch_id uuid)" "CHR ''%'' \<notin> set (batch_id uuid)" "batch_id uuid \<noteq> []"
    "batch_id uuid \<noteq> ''.''" "batch_id uuid \<noteq> ''..''"
    using assms(1,2) by (auto simp: batch_id_def)
  have p: "p = slash # join_on [slash] [''v1'', ''batches'', batch_id uuid]" by (simp add: p_def)
  have "normal True [''v1'', ''batches'', batch_id uuid]" using b by simp
  from Clean_of_normal [OF this] have "Clean p = p" by (simp add: p)
  moreover have "\<not> ends_slash p" using b(1,3) last_in_set [OF b(3)] by (metis ends_slash_def last_appendR p_def)
  ultimately show "cleanPath p = p" by (simp add: cleanPath_def p_def ends_slash_def Let_def)
  have u: "unescaped s = s" if "CHR ''%'' \<notin> set s" for s
    using PathUnescape_plain [OF that] by (simp add: unescaped_def)
  show "unescaped p = p" by (rule u) (use b(2) in \<open>simp add: p_def\<close>)
  have tw: "takeWhile (\<lambda>c. c \<noteq> slash) (batch_id uuid) = batch_id uuid" "dropWhile (\<lambda>c. c \<noteq> slash) (batch_id uuid) = []"
    using b(1) by (auto simp: takeWhile_eq_all_conv dropWhile_eq_Nil_conv)
  have first: "firstSegment (slash # s) = (unescaped (takeWhile (\<lambda>c. c \<noteq> slash) s), dropWhile (\<lambda>c. c \<noteq> slash) s)"
    if "s \<noteq> []" for s using that by (simp add: firstSegment_def)
  have "firstSegment (slash # batch_id uuid) = (batch_id uuid, [])"
    by (simp only: first [OF b(3)] tw u [OF b(2)])
  then have "segments (slash # batch_id uuid) = [batch_id uuid]"
    by (subst segments.simps) simp
  moreover have "segments p = ''v1'' # segments (''/batches/'' @ batch_id uuid)"
    by (subst segments.simps) (simp add: p_def first u)
  moreover have "segments (''/batches/'' @ batch_id uuid) = ''batches'' # segments (slash # batch_id uuid)"
    by (subst segments.simps) (simp add: first u)
  ultimately show "segments p = [''v1'', ''batches'', batch_id uuid]" by simp
qed

text \<open>C31: over HTTP, a valid create request is answered with 200, and a \<open>GET\<close> of the path of the new batch,
  by any client and with any request identifier, is answered with 200 and the very same text.\<close>

theorem created_batch_served:
  assumes g: "(gateway_step promhttp cfg)\<^sup>*\<^sup>* gateway_start g"
    and fresh: "mdb_look (w_store (gw_api g)) (batch_id (re_batchUUID env)) = None"
    and now: "int64_ok (Unix (re_now1 env))"
    and uuid: "slash \<notin> set (re_batchUUID env)" "CHR ''%'' \<notin> set (re_batchUUID env)" "utf8_valid (re_batchUUID env)"
    and r: "sr_EscapedPath r = ''/v1/batches''" "rq_Method (sr_rq r) = ''POST''" "well_formed r"
      "decode_request (rq_Body (sr_rq r)) = Some (Some cr)" "valid_request cr"
    and h: "buildHandler promhttp (mock_handler cfg ord clock obs) env = Returns h"
    and r2: "sr_EscapedPath r2 = ''/v1/batches/'' @ batch_id (re_batchUUID env)" "rq_Method (sr_rq r2) = ''GET''"
      "well_formed r2"
    and h2: "buildHandler promhttp (mock_handler cfg ord2 clock2 obs2) env2 = Returns h2"
  shows "\<exists>w1 g1 w2 g2. h r new_writer g = (Served w1, g1) \<and> final_status w1 = 200 \<and>
     h2 r2 new_writer g1 = (Served w2, g2) \<and> final_status w2 = 200 \<and> rw_body w2 = rw_body w1 \<and>
     rw_body w1 = jprint (enc_Batch
       \<lparr>b_ID = batch_id (re_batchUUID env), b_Spec = create_spec cr (re_now1 env), b_Status = create_status\<rparr>)"
proof -
  let ?uuid = "re_batchUUID env" and ?H = "mock_handler cfg ord clock obs" and ?H2 = "mock_handler cfg ord2 clock2 obs2"
  let ?b = "created_batch ?uuid (re_now1 env) cr"
  obtain d where d: "ParseDuration (cr_CompletionWindow cr) = Some d" using r(5) by (auto simp: valid_request_def)
  have "unescaped ''/v1/batches'' = ''/v1/batches''" by code_simp
  then have c: "counted r" using r(1-3) by (simp add: counted_def well_formed_def MetricsPath_def HealthPath_def)
  obtain res s1 where call: "CreateBatch ?H ?uuid (re_now1 env) (re_now2 env) ((sr_rq r)\<lparr>rq_PathValues := []\<rparr>)
      (tagged_writer env r) (gw_api g) = (res, s1)" by fastforce
  have body: "decode_request (rq_Body ((sr_rq r)\<lparr>rq_PathValues := []\<rparr>)) = Some (Some cr)" using r(4) by simp
  note created = mock_create [OF gateway_run_ok [OF g] fresh body r(5) d call]
  have "run_batch_handler ?H env CreateBatch_h ((sr_rq r)\<lparr>rq_PathValues := []\<rparr>) (tagged_writer env r) (gw_api g) = (res, s1)"
    using call by (simp add: run_batch_handler_def)
  moreover have "countable r"
    using r(1-3) \<open>unescaped ''/v1/batches'' = _\<close> by (simp add: countable_def well_formed_def)
  ultimately obtain g1 where
    g1: "h r new_writer g = (Served (WriteJSONResponse 200 (Inr (jprint (enc_Batch ?b))) (tagged_writer env r)), g1)"
      "gw_api g1 = s1"
    using r(1,2) created(1) batch_request [OF c _ _ _ _ h, of CreateBatch_h "[]" g res s1]
    by (auto simp: batches_path post_route served_as_def)
  note path = retrieve_path [OF uuid(1,2)]
  have c2: "counted r2"
    using r2 path(3) by (simp add: counted_def well_formed_def MetricsPath_def HealthPath_def)
  have job: "mdb_look (w_store s1) (batch_id ?uuid) = Some (created_job cfg ?uuid (re_now1 env) (re_now2 env) cr d)"
    using created(2) by simp
  have stored: "jobToBatch (created_job cfg ?uuid (re_now1 env) (re_now2 env) cr d) = Inr ?b"
    by (rule jobToBatch_carries [OF carries_created [OF decode_request_strings_ok [OF r(4)] now]])
  have get: "api_route ''GET'' [''v1'', ''batches'', batch_id ?uuid]
      = Some (Batch_h RetrieveBatch_h, [(''batch_id'', batch_id ?uuid)])"
    by (simp add: api_route_def batch_id_def)
  have ne: "batch_id ?uuid \<noteq> []" by (simp add: batch_id_def)
  have "RetrieveBatch ?H2 ((sr_rq r2)\<lparr>rq_PathValues := [(''batch_id'', batch_id ?uuid)]\<rparr>) (tagged_writer env2 r2) s1 =
      (Returns (WriteJSONResponse 200 (Inr (jprint (enc_Batch ?b))) (tagged_writer env2 r2)), s1)"
    using mock_retrieve [OF _ ne, of "(sr_rq r2)\<lparr>rq_PathValues := [(''batch_id'', batch_id ?uuid)]\<rparr>"] job stored
    by (simp add: lookup_param_def)
  then have "run_batch_handler ?H2 env2 RetrieveBatch_h ((sr_rq r2)\<lparr>rq_PathValues := [(''batch_id'', batch_id ?uuid)]\<rparr>)
      (tagged_writer env2 r2) (gw_api g1) = (Returns (WriteJSONResponse 200 (Inr (jprint (enc_Batch ?b))) (tagged_writer env2 r2)), s1)"
    using g1(2) by (simp add: run_batch_handler_def)
  moreover have "countable r2"
    using r2 path(3) uuid(3) by (simp add: countable_def well_formed_def batch_id_def)
  ultimately obtain g2 where
    g2: "h2 r2 new_writer g1 = (Served (WriteJSONResponse 200 (Inr (jprint (enc_Batch ?b))) (tagged_writer env2 r2)), g2)"
    using r2(1,2) path get batch_request [OF c2 _ _ _ _ h2, of RetrieveBatch_h "[(''batch_id'', batch_id ?uuid)]" g1]
    by (auto simp: served_as_def)
  have status: "final_status (WriteJSONResponse 200 (Inr x) (tagged_writer e q)) = 200" for x e q
    by (simp add: final_status_def rw_sent_WriteJSONResponse)
  show ?thesis using g1(1) g2 status by (simp add: rest_simps created_batch_def)
qed

theorem created_batch_served_witness:
  "\<exists>w1 g1 w2 g2. sample_gateway (sample_get ''POST'' ''/v1/batches'' sample_body) new_writer gateway_start = (Served w1, g1) \<and>
     sample_gateway (sample_get ''GET'' ''/v1/batches/batch_u1'' []) new_writer g1 = (Served w2, g2) \<and>
     final_status w2 = 200 \<and> rw_body w2 = rw_body w1"
proof -
  have uuid: "slash \<notin> set (re_batchUUID sample_env)" "CHR ''%'' \<notin> set (re_batchUUID sample_env)"
    "utf8_valid (re_batchUUID sample_env)"
    by (simp_all add: sample_env_def)
  have path: "''/v1/batches/batch_u1'' = ''/v1/batches/'' @ batch_id (re_batchUUID sample_env)"
    by (simp add: sample_env_def batch_id_def)
  have body: "decode_request (rq_Body (sr_rq (sample_get ''POST'' ''/v1/batches'' sample_body))) = Some (Some sample_r)"
    using sample_decodes by (simp add: sample_request_def)
  show ?thesis
    using created_batch_served [OF rtranclp.rtrancl_refl sample_env_ok(2,1) uuid sample_get_simps(1,2) sample_get_well_formed
        body sample_valid(1) sample_built [unfolded sample_handler_def] sample_get_simps(1) [THEN trans, OF path]
        sample_get_simps(2) sample_get_well_formed sample_built [unfolded sample_handler_def]]
    by blast
qed







end
