(* ===== verification/Interleaving.thy ===== *)
theory Interleaving
  imports ApiContract
begin

text \<open>
  Requests of the Batch API that run at the same time. Each handler that writes is cut at its calls
  of the clients: an \<open>activity\<close> is what is left of a request, \<open>activity_step\<close> its next call, and
  \<open>conc_step\<close> lets the activities take turns with each other and with the workers' dequeues. The
  locale \<open>concurrent_service\<close> shows what holds under every interleaving, for clients that keep
  their contracts. That the cut is faithful, so that a request left alone does what its handler
  does, is \<open>create_alone\<close> and \<open>cancel_alone\<close>.
\<close>

section \<open>Activities\<close>

datatype activity =
    Creating string gotime gotime http_request
  | Enqueueing BatchJobPriority Batch
  | Undoing string
  | Canceling gotime http_request
  | Removing gotime string ptr Batch
  | Sending gotime string ptr Batch
  | Updating ptr Batch
  | Finished "response_writer go_result"

text \<open>The calls of \<open>CreateBatch\<close>: up to \<open>Store\<close>, then \<open>Enqueue\<close>, then \<open>Delete\<close> when that failed.\<close>

definition start_create ::
  "('d, 'q, 'e) BatchApiHandler \<Rightarrow> response_writer \<Rightarrow> string \<Rightarrow> gotime \<Rightarrow> gotime \<Rightarrow> http_request
    \<Rightarrow> ('d, 'q, 'e) world \<Rightarrow> activity \<times> ('d, 'q, 'e) world" where
  "start_create c w uuid now1 now2 rq s =
     (case decode_request (rq_Body rq) of
        None \<Rightarrow> (Finished (Returns (bad_request ''invalid request body'' w)), s)
      | Some batchReq \<Rightarrow>
     (case CreateBatchRequest_Validate batchReq of
        Panics msg \<Rightarrow> (Finished (Panics msg), s)
      | Blocks \<Rightarrow> (Finished Blocks, s)
      | Returns (Some err) \<Rightarrow> (Finished (Returns (bad_request err w)), s)
      | Returns None \<Rightarrow>
     (let r = the batchReq
      in case ParseDuration (cr_CompletionWindow r) of
        None \<Rightarrow> (Finished (Returns (WriteInternalServerError w)), s)
      | Some completionDuration \<Rightarrow>
     (let slo = now2 + completionDuration;
          job = \<lparr>job_ID = batch_id uuid, job_SLO = slo, job_TTL = create_ttl (bh_config c) r completionDuration,
                 job_Tags = [], job_Spec = jprint (enc_BatchSpec (create_spec r now1)),
                 job_Status = jprint (enc_BatchStatusInfo create_status)\<rparr>;
          (heap, db) = w_store s;
          ((_, err), store) = db_Store (bh_dbClient c) (length heap) (heap @ [job], db);
          s = s\<lparr>w_store := store\<rparr>
      in if err \<noteq> None then (Finished (Returns (WriteInternalServerError w)), s)
         else (Enqueueing \<lparr>jp_ID = batch_id uuid, jp_SLO = slo\<rparr>
                 \<lparr>b_ID = batch_id uuid, b_Spec = create_spec r now1, b_Status = create_status\<rparr>, s)))))"

definition enqueue_created ::
  "('d, 'q, 'e) BatchApiHandler \<Rightarrow> response_writer \<Rightarrow> BatchJobPriority \<Rightarrow> Batch
    \<Rightarrow> ('d, 'q, 'e) world \<Rightarrow> activity \<times> ('d, 'q, 'e) world" where
  "enqueue_created c w x batch s =
     (let (err, queue) = pq_Enqueue (bh_queueClient c) x (w_queue s);
          s = s\<lparr>w_queue := queue\<rparr>
      in if err \<noteq> None then (Undoing (jp_ID x), s)
         else (Finished (Returns (WriteJSONResponse 200 (Marshal (enc_Batch batch)) w)), s))"

definition undo_create ::
  "('d, 'q, 'e) BatchApiHandler \<Rightarrow> response_writer \<Rightarrow> string
    \<Rightarrow> ('d, 'q, 'e) world \<Rightarrow> activity \<times> ('d, 'q, 'e) world" where
  "undo_create c w k s =
     (let (_, store) = db_Delete (bh_dbClient c) [k] (w_store s)
      in (Finished (Returns (WriteInternalServerError w)), s\<lparr>w_store := store\<rparr>))"

text \<open>
  The calls of \<open>CancelBatch\<close>: \<open>Get\<close>, then \<open>Remove\<close>, then for a batch that was not queued
  \<open>ProducerSendEvents\<close>; the last is \<open>update_status\<close>.
\<close>

definition start_cancel ::
  "('d, 'q, 'e) BatchApiHandler \<Rightarrow> response_writer \<Rightarrow> gotime \<Rightarrow> http_request
    \<Rightarrow> ('d, 'q, 'e) world \<Rightarrow> activity \<times> ('d, 'q, 'e) world" where
  "start_cancel c w now rq s =
     (let batchID = PathValue rq ''batch_id''
      in if batchID = [] then (Finished (Returns (bad_request ''batch_id is required'' w)), s)
      else
     (let ((jobs, _, err), store) =
            db_Get (bh_dbClient c) [batchID] [] TagsLogicalCondNa True 0 1 (w_store s);
          s = s\<lparr>w_store := store\<rparr>
      in if err \<noteq> None then (Finished (Returns (WriteInternalServerError w)), s)
         else if length jobs = 0 then (Finished (Returns (not_found batchID w)), s)
         else (case jobToBatch (fst store ! (jobs ! 0)) of
             Inl _ \<Rightarrow> (Finished (Returns (WriteInternalServerError w)), s)
           | Inr batch \<Rightarrow>
               (if IsFinal (st_Status (b_Status batch)) then
                  (Finished (Returns (bad_request
                     (''Batch with status '' @ st_Status (b_Status batch) @ '' cannot be cancelled'') w)), s)
                else (Removing now batchID (jobs ! 0) batch, s)))))"

definition remove_queued ::
  "('d, 'q, 'e) BatchApiHandler \<Rightarrow> response_writer \<Rightarrow> gotime \<Rightarrow> string \<Rightarrow> ptr \<Rightarrow> Batch
    \<Rightarrow> ('d, 'q, 'e) world \<Rightarrow> activity \<times> ('d, 'q, 'e) world" where
  "remove_queued c w now batchID p batch s =
     (let ((removed, err), queue) = pq_Remove (bh_queueClient c) \<lparr>jp_ID = batchID, jp_SLO = 0\<rparr> (w_queue s);
          s = s\<lparr>w_queue := queue\<rparr>
      in if err \<noteq> None then (Finished (Returns (WriteInternalServerError w)), s)
         else if removed > 0 then (Updating p (mark_cancelled now batch), s)
         else (Sending now batchID p batch, s))"

definition send_cancel ::
  "('d, 'q, 'e) BatchApiHandler \<Rightarrow> response_writer \<Rightarrow> gotime \<Rightarrow> string \<Rightarrow> ptr \<Rightarrow> Batch
    \<Rightarrow> ('d, 'q, 'e) world \<Rightarrow> activity \<times> ('d, 'q, 'e) world" where
  "send_cancel c w now batchID p batch s =
     (case ec_ProducerSendEvents (bh_eventClient c)
             [\<lparr>ev_ID = batchID, ev_Type = BatchEventCancel, ev_TTL = sv_BatchTTLSeconds (bh_config c)\<rparr>]
             (w_events s) of
        Panics msg \<Rightarrow> (Finished (Panics msg), s)
      | Blocks \<Rightarrow> (Finished Blocks, s)
      | Returns ((_, err), events) \<Rightarrow>
          (let s = s\<lparr>w_events := events\<rparr>
           in if err \<noteq> None then (Finished (Returns (WriteInternalServerError w)), s)
              else (Updating p (mark_cancelling now batch), s)))"

fun activity_step ::
  "('d, 'q, 'e) BatchApiHandler \<Rightarrow> response_writer \<Rightarrow> activity \<Rightarrow> ('d, 'q, 'e) world
    \<Rightarrow> activity \<times> ('d, 'q, 'e) world" where
  "activity_step c w (Creating uuid now1 now2 rq) s = start_create c w uuid now1 now2 rq s"
| "activity_step c w (Enqueueing x batch) s = enqueue_created c w x batch s"
| "activity_step c w (Undoing k) s = undo_create c w k s"
| "activity_step c w (Canceling now rq) s = start_cancel c w now rq s"
| "activity_step c w (Removing now batchID p batch) s = remove_queued c w now batchID p batch s"
| "activity_step c w (Sending now batchID p batch) s = send_cancel c w now batchID p batch s"
| "activity_step c w (Updating p batch) s = (let (res, s) = update_status c p batch w s in (Finished res, s))"
| "activity_step c w (Finished res) s = (Finished res, s)"

lemmas activity_calls [simp] =
  start_create_def enqueue_created_def undo_create_def start_cancel_def remove_queued_def send_cancel_def

text \<open>A request that is left alone runs to its end.\<close>

fun run_alone ::
  "nat \<Rightarrow> ('d, 'q, 'e) BatchApiHandler \<Rightarrow> response_writer \<Rightarrow> activity \<Rightarrow> ('d, 'q, 'e) world
    \<Rightarrow> activity \<times> ('d, 'q, 'e) world" where
  "run_alone 0 c w a s = (a, s)"
| "run_alone (Suc n) c w a s = (let (a', s') = activity_step c w a s in run_alone n c w a' s')"

lemma run_alone_Finished [simp]: "run_alone n c w (Finished res) s = (Finished res, s)"
  by (induction n) auto

lemma create_alone:
  "run_alone 4 c w (Creating uuid now1 now2 rq) s =
     (let (res, s') = CreateBatch c uuid now1 now2 rq w s in (Finished res, s'))"
  by (simp add: numeral_eq_Suc CreateBatch_def Let_def split: option.split go_result.split prod.split)

lemma cancel_alone:
  "run_alone 4 c w (Canceling now rq) s =
     (let (res, s') = CancelBatch c now rq w s in (Finished res, s'))"
  by (simp add: numeral_eq_Suc CancelBatch_def Let_def split: option.split go_result.split prod.split sum.split)

section \<open>Interleavings\<close>

text \<open>The identifier a request may still put into the database or the queue.\<close>

fun claims :: "activity \<Rightarrow> string list" where
  "claims (Creating uuid now1 now2 rq) = [batch_id uuid]"
| "claims (Enqueueing x batch) = [jp_ID x]"
| "claims (Undoing k) = [k]"
| "claims _ = []"

definition claimed :: "activity list \<Rightarrow> string set" where
  "claimed acts = \<Union> (set ` claims ` set acts)"

inductive conc_step ::
  "('d, 'q, 'e) BatchApiHandler \<Rightarrow> (heap \<times> 'd \<Rightarrow> string \<Rightarrow> BatchJob option)
    \<Rightarrow> activity list \<times> ('d, 'q, 'e) world \<Rightarrow> activity list \<times> ('d, 'q, 'e) world \<Rightarrow> bool"
  for c look where
  create_arrives: "look (w_store s) (batch_id uuid) = None \<Longrightarrow> batch_id uuid \<notin> claimed acts \<Longrightarrow>
     int64_ok (Unix now1) \<Longrightarrow> conc_step c look (acts, s) (acts @ [Creating uuid now1 now2 rq], s)"
| cancel_arrives: "int64_ok (Unix now) \<Longrightarrow> conc_step c look (acts, s) (acts @ [Canceling now rq], s)"
| proceeds: "activity_step c new_writer a s = (a', s') \<Longrightarrow>
     conc_step c look (before @ a # after, s) (before @ a' # after, s')"
| dequeue: "pq_Dequeue (bh_queueClient c) timeout 1 (w_queue s) = Returns ((js, e), q) \<Longrightarrow>
     conc_step c look (acts, s) (acts, s\<lparr>w_queue := q\<rparr>)"

text \<open>What no operation changes of a stored job.\<close>

definition same_static :: "BatchJob \<Rightarrow> BatchJob \<Rightarrow> bool" where
  "same_static a b \<longleftrightarrow>
     job_ID a = job_ID b \<and> job_SLO a = job_SLO b \<and> job_Tags a = job_Tags b \<and> job_Spec a = job_Spec b"

lemma same_static_simps [simp]:
  "same_static j j" "same_static (j\<lparr>job_Status := v\<rparr>) i = same_static j i"
  "same_static i (j\<lparr>job_Status := v\<rparr>) = same_static i j"
  by (simp_all add: same_static_def)

lemma same_static_sym: "same_static i j \<Longrightarrow> same_static j i"
  by (simp add: same_static_def)

lemma same_static_trans: "same_static i j \<Longrightarrow> same_static j k \<Longrightarrow> same_static i k"
  by (simp add: same_static_def)

lemma same_job_static: "same_job i j \<Longrightarrow> same_static i j"
  by (simp add: same_job_def same_static_def)

definition heap_kept :: "heap \<Rightarrow> heap \<Rightarrow> bool" where
  "heap_kept h h' \<longleftrightarrow> length h \<le> length h' \<and> (\<forall>p < length h. same_static (h ! p) (h' ! p))"

definition jobs_kept :: "(string \<Rightarrow> BatchJob option) \<Rightarrow> (string \<Rightarrow> BatchJob option) \<Rightarrow> bool" where
  "jobs_kept L L' \<longleftrightarrow> (\<forall>k j. L k = Some j \<longrightarrow> (\<exists>j'. L' k = Some j' \<and> same_static j j'))"

lemma heap_kept_refl [simp]: "heap_kept h h"
  by (simp add: heap_kept_def)

lemma heap_kept_trans: "heap_kept h h' \<Longrightarrow> heap_kept h' h'' \<Longrightarrow> heap_kept h h''"
proof -
  assume 1: "heap_kept h h'" and 2: "heap_kept h' h''"
  have "same_static (h ! p) (h'' ! p)" if "p < length h" for p
  proof (rule same_static_trans)
    show "same_static (h ! p) (h' ! p)" using 1 that by (simp add: heap_kept_def)
    show "same_static (h' ! p) (h'' ! p)" using 1 2 that by (simp add: heap_kept_def)
  qed
  then show ?thesis using 1 2 by (simp add: heap_kept_def)
qed

lemma heap_kept_append: "heap_kept h (h @ js)"
  by (simp add: heap_kept_def nth_append)

lemma heap_kept_status: "heap_kept h (h[p := (h ! p)\<lparr>job_Status := v\<rparr>])"
proof -
  have "same_static (h ! i) (h[p := (h ! p)\<lparr>job_Status := v\<rparr>] ! i)" if "i < length h" for i
    using that by (cases "p = i") simp_all
  then show ?thesis by (simp add: heap_kept_def)
qed

lemma jobs_kept_refl [simp]: "jobs_kept L L"
  by (auto simp: jobs_kept_def)

lemma jobs_kept_put: "L k = None \<or> (\<exists>j0. L k = Some j0 \<and> same_static j0 j) \<Longrightarrow> jobs_kept L (L(k \<mapsto> j))"
  by (auto simp: jobs_kept_def)

text \<open>
  A database whose operations leave the job objects in the heap alone, up to their status and TTL:
  the handlers keep pointers to them between two calls.
\<close>

locale shared_jobs = job_store +
  assumes kept_Store: "db_Store dbc p s = (r, s') \<Longrightarrow> heap_kept (fst s) (fst s')"
    and kept_Get: "db_Get dbc ks tags cond static start limit s = (r', s') \<Longrightarrow> heap_kept (fst s) (fst s')"
    and kept_Update: "db_Update dbc p s = (e, s') \<Longrightarrow> heap_kept (fst s) (fst s')"

text \<open>A batch a request read earlier, still stored with the same static part.\<close>

definition held :: "(string \<Rightarrow> BatchJob option) \<Rightarrow> heap \<Rightarrow> string \<Rightarrow> ptr \<Rightarrow> Batch \<Rightarrow> bool" where
  "held L h k p b \<longleftrightarrow>
     p < length h \<and> b_ID b = k \<and> BatchSpec_ok (b_Spec b) \<and> BatchStatusInfo_ok (b_Status b) \<and>
     (\<exists>j. L k = Some j \<and> same_static (h ! p) j \<and> job_Spec j = jprint (enc_BatchSpec (b_Spec b)))"

lemma held_kept: "held L h k p b \<Longrightarrow> jobs_kept L L' \<Longrightarrow> heap_kept h h' \<Longrightarrow> held L' h' k p b"
proof -
  assume held: "held L h k p b" and L: "jobs_kept L L'" and h: "heap_kept h h'"
  obtain j where j: "L k = Some j" "same_static (h ! p) j" "job_Spec j = jprint (enc_BatchSpec (b_Spec b))"
    using held by (auto simp: held_def)
  obtain j' where j': "L' k = Some j'" "same_static j j'" using L j(1) by (auto simp: jobs_kept_def)
  have p: "p < length h" "p < length h'" "same_static (h ! p) (h' ! p)"
    using held h by (auto simp: held_def heap_kept_def)
  have "same_static (h' ! p) j'"
    using same_static_trans [OF same_static_sym [OF p(3)] same_static_trans [OF j(2) j'(2)]] .
  moreover have "job_Spec j' = jprint (enc_BatchSpec (b_Spec b))" using j(3) j'(2) by (simp add: same_static_def)
  moreover have "b_ID b = k" "BatchSpec_ok (b_Spec b)" "BatchStatusInfo_ok (b_Status b)"
    using held by (simp_all add: held_def)
  ultimately show ?thesis using p(2) j'(1) unfolding held_def by blast
qed

fun activity_ok :: "(string \<Rightarrow> BatchJob option) \<Rightarrow> heap \<Rightarrow> BatchJobPriority list \<Rightarrow> activity \<Rightarrow> bool" where
  "activity_ok L h q (Creating uuid now1 now2 rq) \<longleftrightarrow> L (batch_id uuid) = None \<and> int64_ok (Unix now1)"
| "activity_ok L h q (Enqueueing x b) \<longleftrightarrow>
     (\<exists>j. L (jp_ID x) = Some j \<and> job_SLO j = jp_SLO x) \<and> jp_ID x \<notin> jp_ID ` set q"
| "activity_ok L h q (Undoing k) \<longleftrightarrow> False"
| "activity_ok L h q (Canceling now rq) \<longleftrightarrow> int64_ok (Unix now)"
| "activity_ok L h q (Removing now k p b) \<longleftrightarrow> int64_ok (Unix now) \<and> held L h k p b"
| "activity_ok L h q (Sending now k p b) \<longleftrightarrow> int64_ok (Unix now) \<and> held L h k p b"
| "activity_ok L h q (Updating p b) \<longleftrightarrow> held L h (b_ID b) p b"
| "activity_ok L h q (Finished res) \<longleftrightarrow> True"

definition queued_ok :: "(string \<Rightarrow> BatchJob option) \<Rightarrow> BatchJobPriority list \<Rightarrow> bool" where
  "queued_ok L q \<longleftrightarrow>
     distinct (map jp_ID q) \<and> (\<forall>x \<in> set q. \<exists>j. L (jp_ID x) = Some j \<and> job_SLO j = jp_SLO x)"

lemma queued_ok_kept: "queued_ok L q \<Longrightarrow> jobs_kept L L' \<Longrightarrow> queued_ok L' q"
  by (fastforce simp: queued_ok_def jobs_kept_def same_static_def)

lemma queued_ok_sub:
  "queued_ok L q \<Longrightarrow> set q' \<subseteq> set q \<Longrightarrow> distinct (map jp_ID q') \<Longrightarrow> queued_ok L q'"
  by (auto simp: queued_ok_def)

lemma activity_ok_kept:
  assumes "activity_ok L h q a" and "jobs_kept L L'" and "heap_kept h h'"
    and "\<And>k. k \<in> set (claims a) \<Longrightarrow> L k = None \<Longrightarrow> L' k = None"
    and "\<And>k. k \<in> set (claims a) \<Longrightarrow> k \<in> jp_ID ` set q' \<Longrightarrow> k \<in> jp_ID ` set q"
  shows "activity_ok L' h' q' a"
proof (cases a)
  case (Enqueueing x b)
  then obtain j where "L (jp_ID x) = Some j" "job_SLO j = jp_SLO x" "jp_ID x \<notin> jp_ID ` set q"
    using assms(1) by auto
  then show ?thesis using Enqueueing assms(2,5) by (fastforce simp: jobs_kept_def same_static_def)
qed (use assms in \<open>auto intro: held_kept\<close>)

definition conc_ok ::
  "(heap \<times> 'd \<Rightarrow> string \<Rightarrow> BatchJob option) \<Rightarrow> (heap \<times> 'd \<Rightarrow> bool) \<Rightarrow> ('q \<Rightarrow> BatchJobPriority list)
    \<Rightarrow> ('q \<Rightarrow> bool) \<Rightarrow> ('e \<Rightarrow> bool) \<Rightarrow> activity list \<times> ('d, 'q, 'e) world \<Rightarrow> bool" where
  "conc_ok look sinv items qinv einv = (\<lambda>(acts, s).
     sinv (w_store s) \<and> qinv (w_queue s) \<and> einv (w_events s) \<and> jobs_ok (look (w_store s)) \<and>
     queued_ok (look (w_store s)) (items (w_queue s)) \<and>
     distinct (concat (map claims acts)) \<and>
     (\<forall>a \<in> set acts. activity_ok (look (w_store s)) (fst (w_store s)) (items (w_queue s)) a))"

text \<open>The first step of a create request: it ends without an effect, or the request is valid.\<close>

lemma Creating_total:
  obtains res where "activity_step c w (Creating uuid now1 now2 rq) s = (Finished res, s)"
  | r d where "decode_request (rq_Body rq) = Some (Some r)" "valid_request r"
      "ParseDuration (cr_CompletionWindow r) = Some d"
proof (cases "decode_request (rq_Body rq)")
  case None
  then show ?thesis using that(1) by simp
next
  case (Some b)
  note dec = this
  show ?thesis
  proof (cases b)
    case None
    then show ?thesis using that(1) dec by (simp add: CreateBatchRequest_Validate_def)
  next
    case (Some r)
    then obtain e where e: "CreateBatchRequest_Validate b = Returns e" using Validate_Some_returns by blast
    show ?thesis
    proof (cases e)
      case None
      then have v: "valid_request r" using e Some Validate_accepts by simp
      then obtain d where "ParseDuration (cr_CompletionWindow r) = Some d" by (auto simp: valid_request_def)
      then show ?thesis using that(2) v dec Some by simp
    next
      case (Some err)
      then show ?thesis using that(1) dec e by simp
    qed
  qed
qed

text \<open>What a step of one activity does, as the others see it.\<close>

definition advances ::
  "(heap \<times> 'd \<Rightarrow> string \<Rightarrow> BatchJob option) \<Rightarrow> (heap \<times> 'd \<Rightarrow> bool) \<Rightarrow> ('q \<Rightarrow> BatchJobPriority list)
    \<Rightarrow> ('q \<Rightarrow> bool) \<Rightarrow> ('e \<Rightarrow> bool) \<Rightarrow> activity \<Rightarrow> ('d, 'q, 'e) world \<Rightarrow> activity \<Rightarrow> ('d, 'q, 'e) world \<Rightarrow> bool" where
  "advances look sinv items qinv einv a s a' s' \<longleftrightarrow>
     sinv (w_store s') \<and> qinv (w_queue s') \<and> einv (w_events s') \<and> jobs_ok (look (w_store s')) \<and>
     queued_ok (look (w_store s')) (items (w_queue s')) \<and>
     jobs_kept (look (w_store s)) (look (w_store s')) \<and> heap_kept (fst (w_store s)) (fst (w_store s')) \<and>
     activity_ok (look (w_store s')) (fst (w_store s')) (items (w_queue s')) a' \<and>
     (claims a' = claims a \<or> claims a' = []) \<and>
     (\<forall>k. k \<notin> set (claims a) \<longrightarrow> look (w_store s) k = None \<longrightarrow> look (w_store s') k = None) \<and>
     (\<forall>k. k \<notin> set (claims a) \<longrightarrow> k \<in> jp_ID ` set (items (w_queue s')) \<longrightarrow> k \<in> jp_ID ` set (items (w_queue s)))"

locale concurrent_service =
  batch_service dbc look inv pqc items qinv ecl pending einv c + shared_jobs dbc look inv
  for dbc :: "'d db_client" and look inv and pqc :: "'q queue_client" and items qinv
    and ecl :: "'e event_client" and pending einv and c :: "('d, 'q, 'e) BatchApiHandler" +
  assumes never_full: "pq_Enqueue pqc x q = (e, q') \<Longrightarrow> e = None"
begin

abbreviation "moves \<equiv> advances look inv items qinv einv"

definition base_ok :: "('d, 'q, 'e) world \<Rightarrow> bool" where
  "base_ok s \<longleftrightarrow> inv (w_store s) \<and> qinv (w_queue s) \<and> einv (w_events s) \<and> jobs_ok (look (w_store s)) \<and>
     queued_ok (look (w_store s)) (items (w_queue s))"

text \<open>A step that ends a request without an effect, or only reads.\<close>

lemma moves_read:
  assumes "base_ok s" and "inv st" "look st = look (w_store s)" "heap_kept (fst (w_store s)) (fst st)"
    and "activity_ok (look st) (fst st) (items (w_queue s)) a'" and "claims a' = []"
  shows "moves a s a' (s\<lparr>w_store := st\<rparr>)"
  using assms by (simp add: base_ok_def advances_def)

lemma moves_end: "base_ok s \<Longrightarrow> moves a s (Finished res) s"
  by (simp add: base_ok_def advances_def)

lemma Creating_moves:
  assumes s: "base_ok s" and a: "activity_ok (look (w_store s)) (fst (w_store s)) (items (w_queue s)) (Creating uuid now1 now2 rq)"
    and call: "activity_step c w (Creating uuid now1 now2 rq) s = (a', s')"
  shows "moves (Creating uuid now1 now2 rq) s a' s'"
proof (rule Creating_total [of c w uuid now1 now2 rq s])
  fix r d
  assume r: "decode_request (rq_Body rq) = Some (Some r)" "valid_request r"
    "ParseDuration (cr_CompletionWindow r) = Some d"
  define job where "job = created_job (bh_config c) uuid now1 now2 r d"
  define b where "b = created_batch uuid now1 r"
  obtain h db where hd: "w_store s = (h, db)" by fastforce
  obtain i e st where st: "db_Store dbc (length h) (h @ [job], db) = ((i, e), st)" by (metis prod.exhaust)
  have v: "CreateBatchRequest_Validate (Some r) = Returns None" using r(2) by (simp add: Validate_accepts)
  have run: "(a', s') = (if e \<noteq> None then (Finished (Returns (WriteInternalServerError w)), s\<lparr>w_store := st\<rparr>)
      else (Enqueueing \<lparr>jp_ID = batch_id uuid, jp_SLO = now2 + d\<rparr> b, s\<lparr>w_store := st\<rparr>))"
    using call st by (simp add: r v hd clients Let_def job_def created_job_def b_def created_batch_def split: if_splits)
  have inv: "inv (h, db)" and fresh: "look (h, db) (batch_id uuid) = None" and now: "int64_ok (Unix now1)"
    using s a hd by (auto simp: base_ok_def)
  have new: "(h @ [job]) ! length h = job" by simp
  have st': "inv st" "look st = (if e = None then (look (h, db))(batch_id uuid \<mapsto> job) else look (h, db))"
    using store [OF alloc [OF inv, THEN conjunct1] _ st] alloc [OF inv, of job] new by (auto simp: job_def)
  have heap: "heap_kept h (fst st)"
    by (rule heap_kept_trans [OF heap_kept_append [of h "[job]"]]) (use kept_Store [OF st] in simp)
  have job: "carries job b"
    unfolding job_def b_def by (rule carries_created [OF decode_request_strings_ok [OF r(1)] now])
  have q: "queued_ok (look (h, db)) (items (w_queue s))" "jobs_ok (look (h, db))" using s hd by (auto simp: base_ok_def)
  have notin: "batch_id uuid \<notin> jp_ID ` set (items (w_queue s))" using q(1) fresh by (auto simp: queued_ok_def)
  have kept: "jobs_kept (look (h, db)) (look st)" using st'(2) fresh by (auto simp: jobs_kept_def)
  show ?thesis
  proof (cases e)
    case None
    then have "look st (batch_id uuid) = Some job" "job_SLO job = now2 + d" using st'(2) by (simp_all add: job_def)
    then show ?thesis
      using run None s st' heap kept notin hd queued_ok_kept [OF q(1) kept] jobs_ok_put [OF q(2) job]
      by (simp add: advances_def base_ok_def)
  next
    case (Some err)
    then show ?thesis using run s st' heap hd by (simp add: advances_def base_ok_def)
  qed
qed (use moves_end [OF s] call in \<open>simp del: activity_step.simps\<close>)

lemma Enqueueing_moves:
  assumes s: "base_ok s"
    and a: "activity_ok (look (w_store s)) (fst (w_store s)) (items (w_queue s)) (Enqueueing x b)"
    and call: "activity_step c w (Enqueueing x b) s = (a', s')"
  shows "moves (Enqueueing x b) s a' s'"
proof -
  obtain e q where q: "pq_Enqueue pqc x (w_queue s) = (e, q)" by fastforce
  have qinv: "qinv (w_queue s)" using s by (simp add: base_ok_def)
  have e: "e = None" by (rule never_full [OF q])
  have q': "qinv q" "mset (items q) = mset (x # items (w_queue s))" using enqueue [OF qinv q] e by auto
  have set: "set (items q) = insert x (set (items (w_queue s)))"
    using q'(2) by (metis list.simps(15) set_mset_mset)
  have "mset (map jp_ID (items q)) = mset (map jp_ID (x # items (w_queue s)))" using q'(2) by simp
  then have dist: "distinct (map jp_ID (items q)) = distinct (map jp_ID (x # items (w_queue s)))"
    by (rule mset_eq_imp_distinct_iff)
  have old: "queued_ok (look (w_store s)) (items (w_queue s))" using s by (simp add: base_ok_def)
  have new: "queued_ok (look (w_store s)) (items q)"
    using old a set dist by (auto simp: queued_ok_def)
  have r: "a' = Finished (Returns (WriteJSONResponse 200 (Marshal (enc_Batch b)) w))" "s' = s\<lparr>w_queue := q\<rparr>"
    using call q e clients by simp_all
  show ?thesis using r s new q'(1) set by (simp add: advances_def base_ok_def)
qed

lemma base_found:
  assumes s: "base_ok s"
    and found: "db_Get dbc [k] [] TagsLogicalCondNa True 0 1 (w_store s) = ((ps, cur, None), st)"
  obtains "ps = []"
  | j b p where "ps = [p]" "p < length (fst st)" "jobToBatch (fst st ! p) = Inr b" "held (look st) (fst st) k p b"
proof -
  have inv: "inv (w_store s)" "jobs_ok (look (w_store s))" using s by (auto simp: base_ok_def)
  have st: "look st = look (w_store s)" using get_frame [OF inv(1) found] by simp
  show ?thesis
  proof (cases "look (w_store s) k")
    case None
    then show ?thesis using that(1) get [OF inv(1) found] by simp
  next
    case (Some j)
    then obtain b where b: "carries j b" using inv(2) by (auto simp: jobs_ok_def)
    obtain p where p: "ps = [p]" "p < length (fst st)" "same_job (fst st ! p) j"
      using get [OF inv(1) found] Some by auto
    have "jobToBatch (fst st ! p) = Inr b" using jobToBatch_same [OF p(3)] jobToBatch_carries [OF b] by simp
    moreover have "held (look st) (fst st) k p b"
      using b p(2) Some look_ID [OF inv(1) Some] same_job_static [OF p(3)] by (simp add: held_def st carries_def)
    ultimately show ?thesis using that(2) p by blast
  qed
qed

lemma Canceling_moves:
  assumes s: "base_ok s" and now: "int64_ok (Unix now)"
    and call: "activity_step c w (Canceling now rq) s = (a', s')"
  shows "moves (Canceling now rq) s a' s'"
proof (cases "PathValue rq ''batch_id'' = []")
  case True
  then show ?thesis using call moves_end [OF s] by auto
next
  case False
  define k where "k = PathValue rq ''batch_id''"
  have k: "k \<noteq> []" using False by (simp add: k_def)
  obtain ps cur e st where g: "db_Get dbc [k] [] TagsLogicalCondNa True 0 1 (w_store s) = ((ps, cur, e), st)"
    by (metis prod.exhaust)
  have inv: "inv (w_store s)" using s by (simp add: base_ok_def)
  note st = get_frame [OF inv g, THEN conjunct1] get_frame [OF inv g, THEN conjunct2] kept_Get [OF g]
  have ends: "moves (Canceling now rq) s (Finished res) (s\<lparr>w_store := st\<rparr>)" for res
    by (rule moves_read [OF s st]) simp_all
  show ?thesis
  proof (cases e)
    case (Some err)
    then show ?thesis using call g k ends clients by (auto simp: k_def Let_def)
  next
    case None
    show ?thesis
    proof (rule base_found [OF s g [unfolded None]])
      assume "ps = []"
      then show ?thesis using call g k ends clients None by (auto simp: k_def Let_def)
    next
      fix b p
      assume p: "ps = [p]" "jobToBatch (fst st ! p) = Inr b" and held: "held (look st) (fst st) k p b"
      have "moves (Canceling now rq) s (Removing now k p b) (s\<lparr>w_store := st\<rparr>)"
        by (rule moves_read [OF s st]) (use held now in simp_all)
      then show ?thesis using call g k ends clients None p by (auto simp: k_def Let_def split: if_splits)
    qed
  qed
qed

lemma held_mark: "held L h k p b \<Longrightarrow> int64_ok (Unix now) \<Longrightarrow>
  held L h k p (mark_cancelled now b) \<and> held L h k p (mark_cancelling now b)"
  by (simp add: held_def mark_ok)

lemma moves_queue:
  assumes "base_ok s" and "qinv q" and "queued_ok (look (w_store s)) (items q)"
    and "set (items q) \<subseteq> set (items (w_queue s))"
    and "activity_ok (look (w_store s)) (fst (w_store s)) (items q) a'" and "claims a' = []"
  shows "moves a s a' (s\<lparr>w_queue := q\<rparr>)"
  using assms by (auto simp: base_ok_def advances_def)

lemma Removing_moves:
  assumes s: "base_ok s" and now: "int64_ok (Unix now)"
    and held: "held (look (w_store s)) (fst (w_store s)) k p b"
    and call: "activity_step c w (Removing now k p b) s = (a', s')"
  shows "moves (Removing now k p b) s a' s'"
proof -
  let ?old = "items (w_queue s)"
  obtain n e q where q: "pq_Remove pqc \<lparr>jp_ID = k, jp_SLO = 0\<rparr> (w_queue s) = ((n, e), q)" by (metis prod.exhaust)
  have inv: "qinv (w_queue s)" "queued_ok (look (w_store s)) ?old" "distinct (map jp_ID ?old)"
    using s by (auto simp: base_ok_def queued_ok_def)
  note r = remove [OF inv(1) q]
  have q': "items q = filter (\<lambda>x. jp_ID x \<noteq> k) ?old \<or> items q = ?old"
  proof (cases e)
    case None
    then have "\<forall>x \<in> set (items q). jp_ID x \<noteq> k" using r inv(3) by simp
    then have "filter (\<lambda>x. jp_ID x \<noteq> k) (items q) = items q" by (rule filter_True)
    then show ?thesis using r None by simp
  qed (use r in simp)
  then have sub: "set (items q) \<subseteq> set ?old" "distinct (map jp_ID (items q))"
    using inv(3) distinct_map_filter by fastforce+
  have m: "moves (Removing now k p b) s x (s\<lparr>w_queue := q\<rparr>)"
    if "activity_ok (look (w_store s)) (fst (w_store s)) (items q) x" "claims x = []" for x
    by (rule moves_queue [OF s _ queued_ok_sub [OF inv(2) sub] sub(1) that]) (use r in simp)
  have id: "b_ID b = k" using held by (simp add: held_def)
  show ?thesis
    using call q clients m held now held_mark [OF held now] id
    by (auto simp: Let_def split: if_splits)
qed

lemma Sending_moves:
  assumes s: "base_ok s" and now: "int64_ok (Unix now)"
    and held: "held (look (w_store s)) (fst (w_store s)) k p b"
    and call: "activity_step c w (Sending now k p b) s = (a', s')"
  shows "moves (Sending now k p b) s a' s'"
proof -
  let ?ev = "\<lparr>ev_ID = k, ev_Type = BatchEventCancel, ev_TTL = sv_BatchTTLSeconds (bh_config c)\<rparr>"
  have "einv (w_events s)" using s by (simp add: base_ok_def)
  from send [OF this, of ?ev] obtain sent e ev where
    ev: "ec_ProducerSendEvents ecl [?ev] (w_events s) = Returns ((sent, e), ev)" "einv ev" by blast
  have m: "moves (Sending now k p b) s x (s\<lparr>w_events := ev\<rparr>)"
    if "activity_ok (look (w_store s)) (fst (w_store s)) (items (w_queue s)) x" "claims x = []" for x
    using s ev(2) that by (simp add: base_ok_def advances_def)
  have id: "b_ID b = k" using held by (simp add: held_def)
  show ?thesis
    using call ev clients m held_mark [OF held now] id by (auto simp: Let_def split: if_splits)
qed

lemma Updating_moves:
  assumes s: "base_ok s" and held: "held (look (w_store s)) (fst (w_store s)) (b_ID b) p b"
    and call: "activity_step c w (Updating p b) s = (a', s')"
  shows "moves (Updating p b) s a' s'"
proof -
  define k where "k = b_ID b"
  define v where "v = jprint (enc_BatchStatusInfo (b_Status b))"
  obtain h d where hd: "w_store s = (h, d)" by fastforce
  have inv: "inv (h, d)" "jobs_ok (look (h, d))" "queued_ok (look (h, d)) (items (w_queue s))"
    using s hd by (auto simp: base_ok_def)
  obtain j where p: "p < length h" and l: "look (h, d) k = Some j" and same: "same_static (h ! p) j"
    and j: "job_Spec j = jprint (enc_BatchSpec (b_Spec b))" "BatchSpec_ok (b_Spec b)" "BatchStatusInfo_ok (b_Status b)"
    using held hd by (auto simp: held_def k_def)
  have k: "job_ID j = k" "job_ID (h ! p) = k" using look_ID [OF inv(1) l] same by (simp_all add: same_static_def)
  define h1 where "h1 = h[p := (h ! p)\<lparr>job_Status := v\<rparr>]"
  have h1p: "h1 ! p = (h ! p)\<lparr>job_Status := v\<rparr>" "p < length h1" using p by (simp_all add: h1_def)
  obtain e st where st: "db_Update dbc p (h1, d) = (e, st)" by (metis prod.exhaust)
  have inv1: "inv (h1, d)" and look1: "look (h1, d) = look (h, d) \<or>
      look (h1, d) = (look (h, d))(k \<mapsto> j\<lparr>job_Status := v\<rparr>)"
    using put_status [OF inv(1) p, of v] l k by (auto simp: h1_def)
  from look1 obtain j1 where j1: "look (h1, d) = (look (h, d))(k \<mapsto> j1)" "j1 = j \<or> j1 = j\<lparr>job_Status := v\<rparr>"
    using l by (metis map_upd_triv)
  have s1: "same_static j1 j" using j1(2) by auto
  have same1: "same_job (j1\<lparr>job_Status := job_Status (h1 ! p)\<rparr>) (h1 ! p)"
    using same s1 h1p by (auto simp: same_job_def same_static_def)
  have id1: "job_ID (h1 ! p) = k" and l1: "look (h1, d) (job_ID (h1 ! p)) = Some j1"
    using j1(1) k(2) h1p(1) by simp_all
  have upd: "inv st \<and> (if e = None then (\<exists>j'. same_job j' (h1 ! p) \<and> look st = (look (h1, d))(k \<mapsto> j'))
      else look st = look (h1, d))"
    using update [OF inv1 h1p(2) l1 same1 st] unfolding id1 .
  have "carries (j\<lparr>job_Status := v\<rparr>) b" using j k by (simp add: carries_def k_def v_def)
  moreover have "\<exists>b0. carries j b0" using inv(2) l by (auto simp: jobs_ok_def)
  ultimately have c1: "\<exists>b1. carries j1 b1" using j1(2) by auto
  have c2: "carries j2 b" if "same_job j2 (h1 ! p)" for j2
    using \<open>carries (j\<lparr>job_Status := v\<rparr>) b\<close> that same h1p(1)
    by (auto simp: carries_def same_job_def same_static_def)
  obtain j2 where L: "look st = (look (h, d))(k \<mapsto> j2)" and j2: "same_static j j2" "\<exists>b2. carries j2 b2"
  proof (cases e)
    case None
    with upd obtain j2 where j2: "same_job j2 (h1 ! p)" "look st = (look (h1, d))(k \<mapsto> j2)" by auto
    have "same_static j j2" using j2(1) same h1p(1) by (simp add: same_job_def same_static_def)
    then show ?thesis using that [of j2] j2 j1(1) c2 by auto
  next
    case (Some err)
    then show ?thesis using that [of j1] upd j1(1) c1 same_static_sym [OF s1] by simp
  qed
  have jobs: "jobs_ok (look st)" using j2(2) jobs_ok_put [OF inv(2)] L by auto
  have kept: "jobs_kept (look (h, d)) (look st)" using L l j2(1) jobs_kept_put by auto
  have heap: "heap_kept h (fst st)"
    by (rule heap_kept_trans [OF heap_kept_status [of h p v]]) (use kept_Update [OF st] in \<open>simp add: h1_def\<close>)
  have "\<exists>res. a' = Finished res" "s' = s\<lparr>w_store := st\<rparr>"
    using call hd st clients by (auto simp: update_status_def Let_def h1_def v_def split: if_splits)
  then show ?thesis
    using s hd upd jobs kept heap queued_ok_kept [OF inv(3) kept] L l
    by (auto simp: advances_def base_ok_def)
qed

lemma activity_moves:
  assumes s: "base_ok s"
    and a: "activity_ok (look (w_store s)) (fst (w_store s)) (items (w_queue s)) a"
    and call: "activity_step c w a s = (a', s')"
  shows "moves a s a' s'"
proof (cases a)
  case (Creating uuid now1 now2 rq)
  then show ?thesis using Creating_moves [OF s] a call by simp
next
  case (Enqueueing x b)
  then show ?thesis using Enqueueing_moves [OF s] a call by simp
next
  case (Canceling now rq)
  then show ?thesis using Canceling_moves [OF s] a call by simp
next
  case (Removing now k p b)
  then show ?thesis using Removing_moves [OF s] a call by simp
next
  case (Sending now k p b)
  then show ?thesis using Sending_moves [OF s] a call by simp
next
  case (Updating p b)
  then show ?thesis using Updating_moves [OF s] a call by simp
next
  case (Finished res)
  then show ?thesis using moves_end [OF s] call by auto
qed (use a in simp)

lemma conc_ok_base:
  "conc_ok look inv items qinv einv (acts, s) \<longleftrightarrow>
     base_ok s \<and> distinct (concat (map claims acts)) \<and>
     (\<forall>a \<in> set acts. activity_ok (look (w_store s)) (fst (w_store s)) (items (w_queue s)) a)"
  by (simp add: conc_ok_def base_ok_def)

lemma dequeue_items:
  "qinv q0 \<Longrightarrow> pq_Dequeue pqc timeout 1 q0 = Returns ((js, e), q) \<Longrightarrow>
     qinv q \<and> (items q0 = items q \<or> items q0 = js @ items q)"
  using dequeue [of q0 timeout js e q] by (auto split: if_splits)

lemma conc_step_ok: "conc_step c look x y \<Longrightarrow> conc_ok look inv items qinv einv x \<Longrightarrow> conc_ok look inv items qinv einv y"
proof (induction rule: conc_step.induct)
  case (create_arrives s uuid acts now1 now2 rq)
  then show ?case by (auto simp: conc_ok_base claimed_def)
next
  case (cancel_arrives now acts s rq)
  then show ?case by (auto simp: conc_ok_base)
next
  case (proceeds a s a' s' before after)
  have ok: "base_ok s" "activity_ok (look (w_store s)) (fst (w_store s)) (items (w_queue s)) a"
    using proceeds(2) by (auto simp: conc_ok_base)
  note m = activity_moves [OF ok proceeds(1), unfolded advances_def]
  have others: "activity_ok (look (w_store s')) (fst (w_store s')) (items (w_queue s')) x"
    if x: "x \<in> set before \<union> set after" for x
  proof (rule activity_ok_kept)
    show "activity_ok (look (w_store s)) (fst (w_store s)) (items (w_queue s)) x"
      using proceeds(2) x by (auto simp: conc_ok_base)
    show "jobs_kept (look (w_store s)) (look (w_store s'))" "heap_kept (fst (w_store s)) (fst (w_store s'))"
      using m by simp_all
    have disj: "k \<notin> set (claims a)" if "k \<in> set (claims x)" for k
      using proceeds(2) x that by (auto simp: conc_ok_base)
    show "look (w_store s') k = None" if "k \<in> set (claims x)" "look (w_store s) k = None" for k
      using m disj [OF that(1)] that(2) by simp
    show "k \<in> jp_ID ` set (items (w_queue s))" if "k \<in> set (claims x)" "k \<in> jp_ID ` set (items (w_queue s'))" for k
      using m disj [OF that(1)] that(2) by simp
  qed
  have "distinct (concat (map claims (before @ a' # after)))"
    using proceeds(2) m by (auto simp: conc_ok_base)
  then show ?case using m others by (auto simp: conc_ok_base base_ok_def)
next
  case (dequeue timeout s js e q acts)
  have inv: "qinv (w_queue s)" using dequeue(2) by (simp add: conc_ok_base base_ok_def)
  have q: "qinv q" "items (w_queue s) = items q \<or> items (w_queue s) = js @ items q"
    using dequeue_items [OF inv] dequeue(1) clients by auto
  then have sub: "set (items q) \<subseteq> set (items (w_queue s))" by auto
  have "queued_ok (look (w_store s)) (items q)"
    using dequeue(2) q(2) by (auto simp: conc_ok_base base_ok_def queued_ok_def)
  moreover have "activity_ok (look (w_store s)) (fst (w_store s)) (items q) x"
    if "activity_ok (look (w_store s)) (fst (w_store s)) (items (w_queue s)) x" for x
    by (rule activity_ok_kept [OF that]) (use sub in auto)
  ultimately show ?case using dequeue(2) q(1) by (auto simp: conc_ok_base base_ok_def)
qed

lemma conc_run_ok:
  "(conc_step c look)\<^sup>*\<^sup>* x y \<Longrightarrow> conc_ok look inv items qinv einv x \<Longrightarrow> conc_ok look inv items qinv einv y"
  by (induction rule: rtranclp_induct) (auto intro: conc_step_ok)

end

section \<open>The in-memory clients\<close>

lemma mdb_kept:
  "db_Store (mock_db ord) p s = (r, s') \<Longrightarrow> heap_kept (fst s) (fst s')"
  "db_Get (mock_db ord) ks tags cond static start limit s = (r', s') \<Longrightarrow> heap_kept (fst s) (fst s')"
  "db_Update (mock_db ord) p s = (e, s') \<Longrightarrow> heap_kept (fst s) (fst s')"
  by (auto simp: mock_db_def mdb_Store_def mdb_Get_def mdb_Update_def Let_def split: if_splits option.splits prod.splits)

interpretation conc: concurrent_service "mock_db ord" mdb_look mdb_inv "mock_queue clock" mpq_queue mpq_inv
  "mock_event obs" mev_pending mev_inv "mock_handler cfg ord clock obs"
  for ord clock obs cfg
proof unfold_locales
  show "pq_Enqueue (mock_queue clock) x q = (e, q') \<Longrightarrow> e = None" for x q e q'
    using mock_enqueue_ok by blast
qed (fact mdb_kept)+

text \<open>The turns of a run, by the positions of the activities that take them.\<close>

fun run_turns ::
  "('d, 'q, 'e) BatchApiHandler \<Rightarrow> nat list \<Rightarrow> activity list \<times> ('d, 'q, 'e) world
    \<Rightarrow> activity list \<times> ('d, 'q, 'e) world" where
  "run_turns c [] (acts, s) = (acts, s)"
| "run_turns c (i # is) (acts, s) =
     (if i < length acts then
        (let (a, s') = activity_step c new_writer (acts ! i) s in run_turns c is (acts[i := a], s'))
      else run_turns c is (acts, s))"

lemma run_turns_steps: "(conc_step c look)\<^sup>*\<^sup>* x (run_turns c is x)"
proof (induction c "is" x rule: run_turns.induct)
  case (2 c i "is" acts s)
  show ?case
  proof (cases "i < length acts")
    case True
    obtain a s' where a: "activity_step c new_writer (acts ! i) s = (a, s')" by fastforce
    have "conc_step c look (take i acts @ acts ! i # drop (Suc i) acts, s) (take i acts @ a # drop (Suc i) acts, s')"
      by (rule conc_step.proceeds [OF a])
    then have "conc_step c look (acts, s) (acts[i := a], s')"
      using True by (simp add: id_take_nth_drop [symmetric] upd_conv_take_nth_drop)
    moreover have "(conc_step c look)\<^sup>*\<^sup>* (acts[i := a], s') (run_turns c is (acts[i := a], s'))"
      using 2(1) [OF True a [symmetric]] by simp
    ultimately show ?thesis using True a by (simp add: converse_rtranclp_into_rtranclp)
  next
    case False
    then show ?thesis using 2(2) by simp
  qed
qed simp

text \<open>The response of a request that has ended.\<close>

fun answer :: "activity \<Rightarrow> response_writer option" where
  "answer (Finished (Returns w)) = Some w"
| "answer _ = None"

definition status_of :: "activity \<Rightarrow> int option" where
  "status_of a = Option.bind (answer a) rw_status"

text \<open>What holds in every state that requests and workers can reach.\<close>

lemma reachable_conc:
  assumes "(conc_step (mock_handler cfg ord clock obs) mdb_look)\<^sup>*\<^sup>* ([], mock_world) (acts, s)"
  shows "mdb_inv (w_store s)" "mev_inv (w_events s)" "jobs_ok (mdb_look (w_store s))"
    "queued_ok (mdb_look (w_store s)) (mpq_queue (w_queue s))"
    "i < length acts \<Longrightarrow> acts ! i = a \<Longrightarrow>
       activity_ok (mdb_look (w_store s)) (fst (w_store s)) (mpq_queue (w_queue s)) a"
    "mpq_inv (w_queue s)"
proof -
  have "conc_ok mdb_look mdb_inv mpq_queue mpq_inv mev_inv ([], mock_world)"
    using mock_world_ok by (simp add: conc_ok_def service_ok_def queued_ok_def)
      (simp add: mock_world_def NewMockBatchPriorityQueueClient_def)
  from conc.conc_run_ok [OF assms this]
  show "mdb_inv (w_store s)" "mev_inv (w_events s)" "jobs_ok (mdb_look (w_store s))"
    "queued_ok (mdb_look (w_store s)) (mpq_queue (w_queue s))"
    "i < length acts \<Longrightarrow> acts ! i = a \<Longrightarrow>
       activity_ok (mdb_look (w_store s)) (fst (w_store s)) (mpq_queue (w_queue s)) a"
    "mpq_inv (w_queue s)"
    by (auto simp: conc_ok_def)
qed

section \<open>A run of overlapping requests\<close>

definition sample_create :: activity where
  "sample_create = Creating ''u1'' sample_now sample_now (sample_request sample_body [] [])"

definition sample_cancel :: activity where
  "sample_cancel = Canceling sample_now (sample_request [] [] ''batch_u1'')"

lemma sample_arrivals:
  "(conc_step sample_handler mdb_look)\<^sup>*\<^sup>* ([], mock_world) ([sample_create, sample_cancel], mock_world)"
  "(conc_step sample_handler mdb_look)\<^sup>*\<^sup>* ([], mock_world) ([sample_create, sample_cancel, sample_cancel], mock_world)"
proof -
  have create: "conc_step sample_handler mdb_look ([], mock_world) ([] @ [sample_create], mock_world)"
    unfolding sample_create_def
    by (rule conc_step.create_arrives) (simp_all add: sample_fresh sample_now_ok claimed_def)
  have cancel: "conc_step sample_handler mdb_look (acts, mock_world) (acts @ [sample_cancel], mock_world)" for acts
    unfolding sample_cancel_def by (rule conc_step.cancel_arrives) (rule sample_now_ok)
  show two: "(conc_step sample_handler mdb_look)\<^sup>*\<^sup>* ([], mock_world) ([sample_create, sample_cancel], mock_world)"
    using create cancel [of "[sample_create]"] by simp
  show "(conc_step sample_handler mdb_look)\<^sup>*\<^sup>* ([], mock_world) ([sample_create, sample_cancel, sample_cancel], mock_world)"
    using rtranclp.rtrancl_into_rtrancl [OF two cancel] by simp
qed

text \<open>A cancel request between the two writes of the create request, computed once.\<close>

definition overtaken :: "activity list \<times> mock_world" where
  "overtaken = run_turns sample_handler [0, 1, 1, 1, 1, 0] ([sample_create, sample_cancel], mock_world)"

lemma overtaken_run: "(conc_step sample_handler mdb_look)\<^sup>*\<^sup>* ([], mock_world) overtaken"
  unfolding overtaken_def by (rule rtranclp_trans [OF sample_arrivals(1) run_turns_steps])

lemma overtaken_end:
  "case overtaken of (acts, s) \<Rightarrow>
     map status_of acts = [Some 200, Some 200] \<and> map jp_ID (mpq_queue (w_queue s)) = [''batch_u1''] \<and>
     mev_pending (w_events s) ''batch_u1'' = [] \<and>
     map_option jobToBatch (mdb_look (w_store s) ''batch_u1'')
       = Some (Inr (mark_cancelling sample_now sample_batch))"
  by code_simp

section \<open>Properties\<close>

text \<open>Requests of the API may overlap in any way, with each other and with the workers'
  dequeues. In every state they reach the queue is ordered by deadline and has no identifier twice,
  each of its entries belongs to a stored job with that deadline, every stored job decodes to a
  batch, and no create request had to undo its insertion.\<close>

theorem concurrent_requests_safe:
  assumes "(conc_step (mock_handler cfg ord clock obs) mdb_look)\<^sup>*\<^sup>* ([], mock_world) (acts, s)"
  shows "sorted (map jp_SLO (mpq_queue (w_queue s))) \<and> distinct (map jp_ID (mpq_queue (w_queue s))) \<and>
    (\<forall>x \<in> set (mpq_queue (w_queue s)). \<exists>j. mdb_look (w_store s) (jp_ID x) = Some j \<and> job_SLO j = jp_SLO x) \<and>
    (\<forall>k j. mdb_look (w_store s) k = Some j \<longrightarrow> (\<exists>b. b_ID b = k \<and> jobToBatch j = Inr b)) \<and>
    (\<forall>k. Undoing k \<notin> set acts)"
proof -
  note ok = reachable_conc [OF assms]
  have "\<exists>b. b_ID b = k \<and> jobToBatch j = Inr b" if k: "mdb_look (w_store s) k = Some j" for k j
  proof -
    obtain b where "carries j b" using ok(3) k by (auto simp: jobs_ok_def)
    then show ?thesis using mdb.look_ID [OF ok(1) k] jobToBatch_carries by (auto simp: carries_def)
  qed
  moreover have "Undoing k \<notin> set acts" for k
    using ok(5) [of _ "Undoing k"] by (auto simp: in_set_conv_nth)
  ultimately show ?thesis using ok(4,6) by (auto simp: queued_ok_def mpq_inv_def)
qed

theorem concurrent_requests_safe_witness:
  "\<exists>acts s b. (conc_step sample_handler mdb_look)\<^sup>*\<^sup>* ([], mock_world) (acts, s) \<and>
     length acts = 2 \<and> length (mpq_queue (w_queue s)) = 1 \<and>
     jobToBatch (the (mdb_look (w_store s) ''batch_u1'')) = Inr b \<and> b_ID b = ''batch_u1''"
proof -
  obtain acts s where o: "overtaken = (acts, s)" by fastforce
  have run: "(conc_step sample_handler mdb_look)\<^sup>*\<^sup>* ([], mock_world) (acts, s)"
    using overtaken_run by (simp add: o)
  obtain j where j: "mdb_look (w_store s) ''batch_u1'' = Some j"
    using overtaken_end by (auto simp: o)
  have len: "length acts = 2" "length (mpq_queue (w_queue s)) = 1"
    using overtaken_end by (auto simp: o dest: arg_cong [where f = length])
  obtain b where b: "b_ID b = ''batch_u1''" "jobToBatch j = Inr b"
    using concurrent_requests_safe [OF run [unfolded sample_handler_def]] j by blast
  have look: "jobToBatch (the (mdb_look (w_store s) ''batch_u1'')) = Inr b"
    using j b(2) by simp
  show ?thesis
    by (intro exI conjI) (rule run len look b(1))+
qed

end
