(* ===== verification/Races.thy ===== *)
theory Races
  imports Interleaving
begin

text \<open>
  What two overlapping requests for one batch do to each other, on the in-memory clients: every
  schedule of a create and a cancel request, and of two cancel requests, from every state that requests
  and workers can reach. A small machine (\<open>race_step\<close>) that keeps the stored batch and whether it is
  queued follows the steps of the two requests.
\<close>

section \<open>One batch, as two requests see it\<close>

text \<open>The batch that is stored, and whether it is queued.\<close>

type_synonym race = "Batch \<times> bool"

definition sees :: "mock_world \<Rightarrow> string \<Rightarrow> ptr \<Rightarrow> race \<Rightarrow> bool" where
  "sees s k p r \<longleftrightarrow>
     mdb_inv (w_store s) \<and> mev_inv (w_events s) \<and> distinct (map jp_ID (mpq_queue (w_queue s))) \<and>
     map_of (mdb_jobs (snd (w_store s))) k = Some p \<and> carries (fst (w_store s) ! p) (fst r) \<and>
     b_ID (fst r) = k \<and> (k \<in> jp_ID ` set (mpq_queue (w_queue s)) \<longleftrightarrow> snd r)"

fun race_step :: "string \<Rightarrow> ptr \<Rightarrow> activity \<Rightarrow> race \<Rightarrow> activity \<times> race" where
  "race_step k p (Enqueueing x b) (B, Q) =
     (Finished (Returns (WriteJSONResponse 200 (Inr (jprint (enc_Batch b))) new_writer)), B, True)"
| "race_step k p (Canceling now rq) (B, Q) =
     (if IsFinal (st_Status (b_Status B))
      then Finished (Returns (bad_request
             (''Batch with status '' @ st_Status (b_Status B) @ '' cannot be cancelled'') new_writer))
      else Removing now k p B, B, Q)"
| "race_step k p (Removing now k' p' b) (B, Q) =
     (if Q then Updating p (mark_cancelled now b) else Sending now k p b, B, False)"
| "race_step k p (Sending now k' p' b) (B, Q) = (Updating p (mark_cancelling now b), B, Q)"
| "race_step k p (Updating p' b) (B, Q) =
     (Finished (Returns (WriteJSONResponse 200 (Inr (jprint (enc_Batch b))) new_writer)), b, Q)"
| "race_step k p a (B, Q) = (a, B, Q)"

text \<open>A copy of the batch that a request may hold.\<close>

definition copy_of :: "string \<Rightarrow> BatchSpec \<Rightarrow> Batch \<Rightarrow> bool" where
  "copy_of k sp b \<longleftrightarrow> b_ID b = k \<and> b_Spec b = sp \<and> BatchStatusInfo_ok (b_Status b)"

fun racer :: "string \<Rightarrow> ptr \<Rightarrow> BatchSpec \<Rightarrow> bool \<Rightarrow> activity \<Rightarrow> bool" where
  "racer k p sp Q (Enqueueing x b) \<longleftrightarrow> jp_ID x = k \<and> \<not> Q"
| "racer k p sp Q (Canceling now rq) \<longleftrightarrow> PathValue rq ''batch_id'' = k \<and> k \<noteq> [] \<and> int64_ok (Unix now)"
| "racer k p sp Q (Removing now k' p' b) \<longleftrightarrow> k' = k \<and> p' = p \<and> copy_of k sp b \<and> int64_ok (Unix now)"
| "racer k p sp Q (Sending now k' p' b) \<longleftrightarrow> k' = k \<and> p' = p \<and> copy_of k sp b \<and> int64_ok (Unix now)"
| "racer k p sp Q (Updating p' b) \<longleftrightarrow> p' = p \<and> copy_of k sp b"
| "racer k p sp Q (Finished res) \<longleftrightarrow> True"
| "racer k p sp Q a \<longleftrightarrow> False"

lemma copy_of_mark:
  "copy_of k sp b \<Longrightarrow> int64_ok (Unix now) \<Longrightarrow> copy_of k sp (mark_cancelled now b) \<and> copy_of k sp (mark_cancelling now b)"
  by (simp add: copy_of_def mark_ok)

lemma sees_copy: "sees s k p (B, Q) \<Longrightarrow> copy_of k (b_Spec B) B"
  by (auto simp: sees_def copy_of_def carries_def)

lemma sees_read:
  assumes "sees s k p (B, Q)" and "PathValue rq ''batch_id'' = k" and "k \<noteq> []"
  shows "activity_step (mock_handler cfg ord clock obs) new_writer (Canceling now rq) s =
    (fst (race_step k p (Canceling now rq) (B, Q)), s)"
  using assms jobToBatch_carries [of "fst (w_store s) ! p" B]
  by (simp add: sees_def mock_get_id Let_def)

lemma sees_remove:
  assumes "sees s k p (B, Q)"
  shows "\<exists>s'. activity_step (mock_handler cfg ord clock obs) new_writer (Removing now k p b) s =
    (fst (race_step k p (Removing now k p b) (B, Q)), s') \<and> sees s' k p (B, False)"
proof -
  obtain n q where q: "remove_first k (mpq_queue (w_queue s)) = (n, q)" by fastforce
  note spec = remove_first_spec [OF q]
  have "0 < n \<longleftrightarrow> k \<in> jp_ID ` set (mpq_queue (w_queue s))" using spec [THEN conjunct1] by (simp add: image_iff eq_commute)
  then have n: "0 < n \<longleftrightarrow> Q" using assms by (simp add: sees_def)
  have dist: "distinct (map jp_ID (mpq_queue (w_queue s)))" using assms by (simp add: sees_def)
  have "\<forall>x \<in> set q. jp_ID x \<noteq> k" using spec dist by simp
  then have "filter (\<lambda>x. jp_ID x \<noteq> k) q = q" by (rule filter_True)
  then have "q = filter (\<lambda>x. jp_ID x \<noteq> k) (mpq_queue (w_queue s))" using spec by simp
  then have "distinct (map jp_ID q)" "k \<notin> jp_ID ` set q" using dist by (auto simp: distinct_map_filter)
  then show ?thesis
    using assms q n by (auto simp: sees_def mock_queue_def mpq_Remove_def Let_def)
qed

lemma sees_send:
  assumes "sees s k p (B, Q)" and "\<forall>n. fst (obs n) = None"
  shows "\<exists>s'. activity_step (mock_handler cfg ord clock obs) new_writer (Sending now k p b) s =
    (Updating p (mark_cancelling now b), s') \<and> sees s' k p (B, Q)"
proof -
  let ?ev = "\<lparr>ev_ID = k, ev_Type = BatchEventCancel, ev_TTL = sv_BatchTTLSeconds cfg\<rparr>"
  have inv: "mev_inv (w_events s)" using assms(1) by (simp add: sees_def)
  from send_live [OF assms(2) inv, of ?ev] obtain sent m where
    m: "mev_ProducerSendEvents obs [?ev] (w_events s) = Returns ((sent, None), m)" by blast
  moreover have "mev_inv m" using mev.send [OF inv, of obs ?ev] m by (auto simp: mock_event_def)
  ultimately show ?thesis using assms(1) by (simp add: mock_event_def sees_def)
qed

lemma sees_update:
  assumes "sees s k p (B, Q)" and "copy_of k (b_Spec B) b"
  shows "\<exists>s'. activity_step (mock_handler cfg ord clock obs) new_writer (Updating p b) s =
    (fst (race_step k p (Updating p b) (B, Q)), s') \<and> sees s' k p (b, Q)"
proof -
  obtain h m where hm: "w_store s = (h, m)" by fastforce
  let ?v = "jprint (enc_BatchStatusInfo (b_Status b))"
  let ?h = "h[p := (h ! p)\<lparr>job_Status := ?v\<rparr>]" and ?m = "m\<lparr>mdb_jobs := AList.update k p (mdb_jobs m)\<rparr>"
  have inv: "mdb_inv (h, m)" and m: "map_of (mdb_jobs m) k = Some p" and c: "carries (h ! p) B"
    using assms(1) by (simp_all add: sees_def hm)
  have p: "p < length h" "job_ID (h ! p) = k" using mdb_inv_entry [OF inv, of k p] m by auto
  have run: "activity_step (mock_handler cfg ord clock obs) new_writer (Updating p b) s =
      (fst (race_step k p (Updating p b) (B, Q)), s\<lparr>w_store := (?h, ?m)\<rparr>)"
    using m p by (auto simp: update_status_def mock_db_def mdb_Update_def Let_def hm)
  have "mdb_inv (?h, m)" using mdb_put_status [OF inv p(1)] by blast
  from mdb_put(1) [OF this, of p] have "mdb_inv (?h, ?m)" using p by simp
  moreover have "carries (?h ! p) b"
    using p c assms by (simp add: carries_def copy_of_def sees_def)
  ultimately have "sees (s\<lparr>w_store := (?h, ?m)\<rparr>) k p (b, Q)"
    using assms by (simp add: sees_def AList.update_conv' copy_of_def)
  then show ?thesis using run by blast
qed

lemma sees_enqueue:
  assumes "sees s (jp_ID x) p (B, False)"
  shows "\<exists>s'. activity_step (mock_handler cfg ord clock obs) new_writer (Enqueueing x b) s =
    (fst (race_step (jp_ID x) p (Enqueueing x b) (B, False)), s') \<and> sees s' (jp_ID x) p (B, True)"
proof -
  let ?q = "snd (mpq_Enqueue x (w_queue s))"
  have perm: "mset (map jp_ID (mpq_queue ?q)) = mset (jp_ID x # map jp_ID (mpq_queue (w_queue s)))"
    by (simp add: Enqueue_mset)
  have "distinct (map jp_ID (mpq_queue ?q))" "jp_ID x \<in> jp_ID ` set (mpq_queue ?q)"
    using assms mset_eq_imp_distinct_iff [OF perm] mset_eq_setD [OF perm] by (simp_all add: sees_def)
  then have "sees (s\<lparr>w_queue := ?q\<rparr>) (jp_ID x) p (B, True)" using assms by (simp add: sees_def)
  moreover have "activity_step (mock_handler cfg ord clock obs) new_writer (Enqueueing x b) s =
    (fst (race_step (jp_ID x) p (Enqueueing x b) (B, False)), s\<lparr>w_queue := ?q\<rparr>)"
    by (simp add: mock_queue_def mpq_Enqueue_def)
  ultimately show ?thesis by blast
qed

text \<open>A step of a request on the batch is a step of the machine.\<close>

lemma race_simulates:
  assumes "sees s k p (B, Q)" and "racer k p (b_Spec B) Q a" and "\<forall>n. fst (obs n) = None"
    and "race_step k p a (B, Q) = (a', B', Q')"
  shows "\<exists>s'. activity_step (mock_handler cfg ord clock obs) new_writer a s = (a', s') \<and> sees s' k p (B', Q') \<and>
    b_Spec B' = b_Spec B \<and> racer k p (b_Spec B) Q' a' \<and> (Q' \<longrightarrow> Q \<or> (\<exists>x b. a = Enqueueing x b))"
proof (cases a)
  case (Enqueueing x b)
  then show ?thesis using assms sees_enqueue [of s x p B] by auto
next
  case (Canceling now rq)
  then show ?thesis using assms sees_read [OF assms(1), of rq] sees_copy [OF assms(1)]
    by (auto split: if_splits simp del: activity_step.simps)
next
  case (Removing now k' p' b)
  then show ?thesis using assms sees_remove [OF assms(1), of cfg ord clock obs now b] copy_of_mark [of k "b_Spec B" b now]
    by (auto split: if_splits simp del: activity_step.simps)
next
  case (Sending now k' p' b)
  then show ?thesis using assms sees_send [OF assms(1,3), of cfg ord clock now b] copy_of_mark [of k "b_Spec B" b now]
    by (auto simp del: activity_step.simps)
next
  case (Updating p' b)
  then show ?thesis using assms sees_update [OF assms(1), of b cfg ord clock obs]
    by (auto simp del: activity_step.simps simp: copy_of_def)
qed (use assms in auto)

section \<open>Two requests\<close>

text \<open>The turns of two requests: \<open>True\<close> is a turn of the first.\<close>

fun race_turns :: "string \<Rightarrow> ptr \<Rightarrow> bool list \<Rightarrow> activity \<times> activity \<times> race \<Rightarrow> activity \<times> activity \<times> race" where
  "race_turns k p [] x = x"
| "race_turns k p (t # ts) (a, a2, r) =
     (if t then (let (a', r') = race_step k p a r in race_turns k p ts (a', a2, r'))
      else (let (a', r') = race_step k p a2 r in race_turns k p ts (a, a', r')))"

lemma racer_waits: "racer k p sp Q a \<Longrightarrow> (Q' \<longrightarrow> Q \<or> \<not> (\<exists>x b. a = Enqueueing x b)) \<Longrightarrow> racer k p sp Q' a"
  by (cases a) auto

lemma race_run:
  assumes "sees s k p (B, Q)" and "\<forall>n. fst (obs n) = None" and "i < length acts" "j < length acts" "i \<noteq> j"
    and "racer k p (b_Spec B) Q (acts ! i)" "racer k p (b_Spec B) Q (acts ! j)"
    and "\<not> ((\<exists>x b. acts ! i = Enqueueing x b) \<and> (\<exists>x b. acts ! j = Enqueueing x b))"
    and "race_turns k p ts (acts ! i, acts ! j, B, Q) = (x, y, B', Q')"
  shows "\<exists>acts' s'. run_turns (mock_handler cfg ord clock obs) (map (\<lambda>t. if t then i else j) ts) (acts, s) = (acts', s') \<and>
    acts' ! i = x \<and> acts' ! j = y \<and> sees s' k p (B', Q')"
  using assms
proof (induction ts arbitrary: acts s B Q)
  case (Cons t ts)
  show ?case
  proof (cases t)
    case True
    obtain a B1 Q1 where st: "race_step k p (acts ! i) (B, Q) = (a, B1, Q1)" by (metis prod.exhaust)
    obtain s1 where s1: "activity_step (mock_handler cfg ord clock obs) new_writer (acts ! i) s = (a, s1)"
      "sees s1 k p (B1, Q1)" "b_Spec B1 = b_Spec B" "racer k p (b_Spec B) Q1 a"
      "Q1 \<longrightarrow> Q \<or> (\<exists>x b. acts ! i = Enqueueing x b)"
      using race_simulates [OF Cons.prems(1,6,2) st] by blast
    have "racer k p (b_Spec B) Q1 (acts ! j)" using racer_waits [OF Cons.prems(7)] s1(5) Cons.prems(8) by blast
    moreover have "\<not> (\<exists>x b. a = Enqueueing x b)"
      using st by (cases "acts ! i") (use Cons.prems(6) in \<open>auto split: if_splits\<close>)
    ultimately show ?thesis
      using Cons.IH [of s1 B1 Q1 "acts[i := a]"] Cons.prems s1 st True by (simp del: activity_step.simps)
  next
    case False
    obtain a B1 Q1 where st: "race_step k p (acts ! j) (B, Q) = (a, B1, Q1)" by (metis prod.exhaust)
    obtain s1 where s1: "activity_step (mock_handler cfg ord clock obs) new_writer (acts ! j) s = (a, s1)"
      "sees s1 k p (B1, Q1)" "b_Spec B1 = b_Spec B" "racer k p (b_Spec B) Q1 a"
      "Q1 \<longrightarrow> Q \<or> (\<exists>x b. acts ! j = Enqueueing x b)"
      using race_simulates [OF Cons.prems(1,7,2) st] by blast
    have "racer k p (b_Spec B) Q1 (acts ! i)" using racer_waits [OF Cons.prems(6)] s1(5) Cons.prems(8) by blast
    moreover have "\<not> (\<exists>x b. a = Enqueueing x b)"
      using st by (cases "acts ! j") (use Cons.prems(7) in \<open>auto split: if_splits\<close>)
    ultimately show ?thesis
      using Cons.IH [of s1 B1 Q1 "acts[j := a]"] Cons.prems s1 st False by (simp del: activity_step.simps)
  qed
qed simp

lemma run_turns_append: "run_turns c (is @ js) x = run_turns c js (run_turns c is x)"
  by (induction c "is" x rule: run_turns.induct) (auto simp: Let_def split: prod.split simp del: activity_step.simps)

lemma race_turns_ended:
  "race_turns k p (replicate l False @ ts) (a, Finished res, B, Q) = race_turns k p ts (a, Finished res, B, Q)"
  by (induction l) auto

lemma early_cancel:
  assumes "map_of (mdb_jobs (snd (w_store s))) k = None" and "k \<noteq> []"
    and "j < length acts" "acts ! j = Canceling now rq" "PathValue rq ''batch_id'' = k"
  shows "run_turns (mock_handler cfg ord clock obs) (replicate m j) (acts, s) =
    (if m = 0 then acts else acts[j := Finished (Returns (not_found k new_writer))], s)"
proof (cases m)
  case (Suc l)
  have ended: "run_turns c (replicate l j) (acts', s) = (acts', s)"
    if "acts' ! j = Finished res" for c acts' res and l :: nat
    using that list_update_id [of acts' j] by (induction l) auto
  have "activity_step (mock_handler cfg ord clock obs) new_writer (acts ! j) s = (Finished (Returns (not_found k new_writer)), s)"
    using assms by (simp add: mock_get_id Let_def)
  then show ?thesis using Suc assms(3) ended [of "acts[j := Finished (Returns (not_found k new_writer))]"]
    by (simp del: activity_step.simps)
qed simp

lemma created_seen:
  assumes inv: "mdb_inv (w_store s)" "mev_inv (w_events s)" "queued_ok (mdb_look (w_store s)) (mpq_queue (w_queue s))"
    and fresh: "mdb_look (w_store s) (batch_id uuid) = None" and now: "int64_ok (Unix now1)"
    and r: "decode_request (rq_Body rq) = Some (Some r)" "valid_request r"
  shows "\<exists>slo s' p. activity_step (mock_handler cfg ord clock obs) new_writer (Creating uuid now1 now2 rq) s =
      (Enqueueing \<lparr>jp_ID = batch_id uuid, jp_SLO = slo\<rparr> (created_batch uuid now1 r), s') \<and>
    sees s' (batch_id uuid) p (created_batch uuid now1 r, False)"
proof -
  obtain d where d: "ParseDuration (cr_CompletionWindow r) = Some d" using r(2) by (auto simp: valid_request_def)
  define job where "job = created_job cfg uuid now1 now2 r d"
  obtain h m where hm: "w_store s = (h, m)" by fastforce
  let ?k = "batch_id uuid"
  let ?s = "s\<lparr>w_store := (h @ [job], m\<lparr>mdb_jobs := AList.update ?k (length h) (mdb_jobs m)\<rparr>)\<rparr>"
  have v: "CreateBatchRequest_Validate (Some r) = Returns None" using r(2) by (simp add: Validate_accepts)
  have run: "activity_step (mock_handler cfg ord clock obs) new_writer (Creating uuid now1 now2 rq) s =
      (Enqueueing \<lparr>jp_ID = ?k, jp_SLO = now2 + d\<rparr> (created_batch uuid now1 r), ?s)"
    by (simp add: r v d hm mock_db_def mdb_Store_def Let_def job_def created_job_def created_batch_def)
  have id: "job_ID job = ?k" by (simp add: job_def)
  have "mdb_inv (w_store ?s)"
    using mdb_put(1) [OF mdb_alloc(1), of h m "length h" job] inv(1) hm by (simp add: id)
  moreover have "carries job (created_batch uuid now1 r)"
    unfolding job_def by (rule carries_created [OF decode_request_strings_ok [OF r(1)] now])
  moreover have "?k \<notin> jp_ID ` set (mpq_queue (w_queue s))" using inv(3) fresh by (auto simp: queued_ok_def)
  ultimately have "sees ?s ?k (length h) (created_batch uuid now1 r, False)"
    using inv(2,3) by (simp add: sees_def AList.update_conv' created_batch_def queued_ok_def)
  then show ?thesis using run by blast
qed

lemma sees_look:
  "sees s k p (B, Q) \<Longrightarrow> \<exists>job. mdb_look (w_store s) k = Some job \<and> jobToBatch job = Inr B"
  by (auto simp: sees_def mdb_look_def jobToBatch_carries)

lemma stored_seen:
  assumes "mdb_inv (w_store s)" "mev_inv (w_events s)" "jobs_ok (mdb_look (w_store s))"
    "queued_ok (mdb_look (w_store s)) (mpq_queue (w_queue s))"
    and "mdb_look (w_store s) k = Some job" and "jobToBatch job = Inr b"
  shows "\<exists>p. sees s k p (b, k \<in> jp_ID ` set (mpq_queue (w_queue s)))"
proof -
  obtain p where p: "map_of (mdb_jobs (snd (w_store s))) k = Some p" "job = fst (w_store s) ! p"
    using assms(5) by (auto simp: mdb_look_def)
  obtain b' where "carries job b'" using assms(3,5) by (auto simp: jobs_ok_def)
  moreover from this have "b' = b" using assms(6) jobToBatch_carries by fastforce
  moreover have "job_ID job = k" using mdb.look_ID [OF assms(1,5)] .
  ultimately show ?thesis using assms(1,2,4) p by (auto simp: sees_def carries_def queued_ok_def)
qed

lemma one_of_five: "n \<le> 4 \<Longrightarrow> n = 0 \<or> n = 1 \<or> n = 2 \<or> n = 3 \<or> n = (4::nat)"
  by arith

section \<open>Properties\<close>

text \<open>C32: a create request and a request to cancel the batch it makes, in every schedule of their steps,
  from any state that requests and workers can reach. The cancel request takes \<open>m\<close> of its at most
  four steps before the create request stores the batch and \<open>n\<close> before it queues it. The create request
  always answers 200. If the cancel request looked before the batch was stored it answers 404. If it
  removes after the batch was queued the batch is cancelled and out of the queue. But if its look and
  its removal come between the two writes of the create request, it answers 200, marks the batch
  cancelling as if it were running, and the batch is queued nevertheless.\<close>

theorem create_cancel_race:
  assumes "(conc_step (mock_handler cfg ord clock obs) mdb_look)\<^sup>*\<^sup>* ([], mock_world) (acts, s)"
    and "\<forall>n. fst (obs n) = None" and "i < length acts" "j < length acts"
    and "acts ! i = Creating uuid now1 now2 rq" "acts ! j = Canceling now rq2"
    and "decode_request (rq_Body rq) = Some (Some r)" "valid_request r"
    and "PathValue rq2 ''batch_id'' = batch_id uuid" and "m \<le> n" "n \<le> 4"
  shows "\<exists>acts' s' w1 w2 job.
     run_turns (mock_handler cfg ord clock obs)
       (replicate m j @ [i] @ replicate (n - m) j @ [i] @ replicate (4 - n) j) (acts, s) = (acts', s') \<and>
     acts' ! i = Finished (Returns w1) \<and> rw_status w1 = Some 200 \<and>
     acts' ! j = Finished (Returns w2) \<and> rw_status w2 = Some (if m = 0 then 200 else 404) \<and>
     mdb_look (w_store s') (batch_id uuid) = Some job \<and>
     jobToBatch job = Inr
       (if m > 0 then created_batch uuid now1 r
        else if n \<le> 1 then mark_cancelled now (created_batch uuid now1 r)
        else mark_cancelling now (created_batch uuid now1 r)) \<and>
     (batch_id uuid \<in> jp_ID ` set (mpq_queue (w_queue s')) \<longleftrightarrow> m > 0 \<or> n > 1)"
proof -
  let ?H = "mock_handler cfg ord clock obs" and ?k = "batch_id uuid" and ?B = "created_batch uuid now1 r"
  note conc = reachable_conc [OF assms(1)]
  have a: "mdb_look (w_store s) ?k = None" "int64_ok (Unix now1)" "int64_ok (Unix now)"
    using conc(5) [OF assms(3,5)] conc(5) [OF assms(4,6)] by simp_all
  have k: "?k \<noteq> []" and none: "map_of (mdb_jobs (snd (w_store s))) ?k = None"
    using a(1) by (simp_all add: batch_id_def mdb_look_def)
  have ij: "i \<noteq> j" using assms(5,6) by auto
  define acts1 where "acts1 = (if m = 0 then acts else acts[j := Finished (Returns (not_found ?k new_writer))])"
  have early: "run_turns ?H (replicate m j) (acts, s) = (acts1, s)"
    unfolding acts1_def by (rule early_cancel [OF none k assms(4,6,9)])
  have acts1: "acts1 ! i = Creating uuid now1 now2 rq" "length acts1 = length acts"
    "acts1 ! j = (if m = 0 then Canceling now rq2 else Finished (Returns (not_found ?k new_writer)))"
    using assms(4-6) ij by (simp_all add: acts1_def)
  obtain slo s1 p where s1: "activity_step ?H new_writer (Creating uuid now1 now2 rq) s =
      (Enqueueing \<lparr>jp_ID = ?k, jp_SLO = slo\<rparr> ?B, s1)" "sees s1 ?k p (?B, False)"
    using created_seen [OF conc(1,2,4) a(1,2) assms(7,8)] by blast
  define acts2 where "acts2 = acts1[i := Enqueueing \<lparr>jp_ID = ?k, jp_SLO = slo\<rparr> ?B]"
  have acts2: "acts2 ! i = Enqueueing \<lparr>jp_ID = ?k, jp_SLO = slo\<rparr> ?B" "acts2 ! j = acts1 ! j" "length acts2 = length acts"
    using assms(3) acts1 ij by (simp_all add: acts2_def)
  have two: "run_turns ?H (replicate m j @ [i]) (acts, s) = (acts2, s1)"
    using early s1(1) acts1 assms(3) by (simp add: run_turns_append acts2_def del: activity_step.simps)
  let ?ts = "replicate (n - m) False @ [True] @ replicate (4 - n) False"
  obtain x y B' Q' where race: "race_turns ?k p ?ts (acts2 ! i, acts2 ! j, ?B, False) = (x, y, B', Q')"
    by (metis prod.exhaust)
  have final: "\<not> IsFinal (st_Status (b_Status ?B))"
    by (simp add: created_batch_def create_status_def IsFinal_def BatchStatusValidating_def BatchStatusCompleted_def
        BatchStatusFailed_def BatchStatusExpired_def BatchStatusCancelled_def)
  have racers: "racer ?k p (b_Spec ?B) False (acts2 ! i)" "racer ?k p (b_Spec ?B) False (acts2 ! j)"
    using acts2 acts1 assms(9) a k by simp_all
  have "\<exists>acts' s'. run_turns ?H (map (\<lambda>t. if t then i else j) ?ts) (acts2, s1) = (acts', s') \<and>
    acts' ! i = x \<and> acts' ! j = y \<and> sees s' ?k p (B', Q')"
    by (rule race_run [OF s1(2) assms(2) _ _ ij racers _ race]) (use acts2 acts1 assms(3,4) in auto)
  then obtain acts' s' where run: "run_turns ?H (replicate (n - m) j @ [i] @ replicate (4 - n) j) (acts2, s1) = (acts', s')"
    and ends: "acts' ! i = x" "acts' ! j = y" "sees s' ?k p (B', Q')"
    by auto
  have "run_turns ?H (replicate m j @ [i] @ replicate (n - m) j @ [i] @ replicate (4 - n) j) (acts, s) = (acts', s')"
    using two run run_turns_append [of ?H "replicate m j @ [i]" "replicate (n - m) j @ [i] @ replicate (4 - n) j" "(acts, s)"]
    by simp
  moreover have "(\<exists>w1 w2. x = Finished (Returns w1) \<and> rw_status w1 = Some 200 \<and> y = Finished (Returns w2) \<and>
      rw_status w2 = Some (if m = 0 then 200 else 404)) \<and>
    B' = (if m > 0 then ?B else if n \<le> 1 then mark_cancelled now ?B else mark_cancelling now ?B) \<and>
    Q' = (m > 0 \<or> n > 1)"
  proof (cases "m = 0")
    case True
    then show ?thesis using race acts2 acts1 final one_of_five [OF assms(11)]
      by (elim disjE) (auto simp: numeral_eq_Suc rest_simps)
  next
    case False
    then have "race_turns ?k p ?ts (acts2 ! i, Finished (Returns (not_found ?k new_writer)), ?B, False) = (x, y, B', Q')"
      using race acts2(2) acts1(3) by simp
    then have "x = Finished (Returns (WriteJSONResponse 200 (Inr (jprint (enc_Batch ?B))) new_writer)) \<and>
        y = Finished (Returns (not_found ?k new_writer)) \<and> B' = ?B \<and> Q'"
      using race_turns_ended [of ?k p _ "[]"] by (auto simp: race_turns_ended acts2(1))
    moreover have "rw_status (not_found ?k new_writer) = Some 404" by (simp add: not_found_def rest_simps)
    ultimately show ?thesis using False by (simp add: rest_simps)
  qed
  moreover have "?k \<in> jp_ID ` set (mpq_queue (w_queue s')) \<longleftrightarrow> Q'" using ends(3) by (simp add: sees_def)
  ultimately show ?thesis using ends sees_look [OF ends(3)] by blast
qed

theorem create_cancel_race_witness:
  "\<exists>acts s job. (conc_step sample_handler mdb_look)\<^sup>*\<^sup>* ([], mock_world) (acts, s) \<and>
     mdb_look (w_store s) ''batch_u1'' = Some job \<and>
     jobToBatch job = Inr (mark_cancelling sample_now (created_batch ''u1'' sample_now sample_r)) \<and>
     ''batch_u1'' \<in> jp_ID ` set (mpq_queue (w_queue s))"
proof -
  have id: "batch_id ''u1'' = ''batch_u1''" by (simp add: batch_id_def)
  have "decode_request (rq_Body (sample_request sample_body [] [])) = Some (Some sample_r)"
    "PathValue (sample_request [] [] ''batch_u1'') ''batch_id'' = batch_id ''u1''"
    using sample_decodes by (simp_all add: sample_request_def id lookup_param_def)
  note race = create_cancel_race [OF sample_arrivals(1) [unfolded sample_handler_def] _ _ _ _ _ this(1) sample_valid(1) this(2),
      of 0 1 sample_now sample_now sample_now 0 4, unfolded sample_create_def sample_cancel_def]
  obtain acts s job where r: "run_turns sample_handler ([0] @ replicate 4 1 @ [0]) ([sample_create, sample_cancel], mock_world)
       = (acts, s)" "mdb_look (w_store s) ''batch_u1'' = Some job"
    "jobToBatch job = Inr (mark_cancelling sample_now (created_batch ''u1'' sample_now sample_r))"
    "''batch_u1'' \<in> jp_ID ` set (mpq_queue (w_queue s))"
    using race by (auto simp: sample_handler_def sample_create_def sample_cancel_def id)
  have "(conc_step sample_handler mdb_look)\<^sup>*\<^sup>* ([], mock_world) (acts, s)"
    using rtranclp_trans [OF sample_arrivals(1) run_turns_steps] r(1) by metis
  then show ?thesis using r by blast
qed

text \<open>C33: two requests to cancel a queued batch, in every schedule of their steps, from any state that
  requests and workers can reach; \<open>i\<close> is the one that takes the batch from the queue, and the other, \<open>j\<close>,
  has taken at most one step before that, and \<open>n\<close> before \<open>i\<close> writes. \<open>i\<close> always answers 200 with
  the cancelled batch, and the batch is not queued in the end. Only when \<open>j\<close> looks after that write
  it answers 400. When it looked before it also answers 200, and unless it ends before \<open>i\<close> writes, its
  write comes last: the final status \<open>cancelled\<close> is undone, and the batch stays \<open>cancelling\<close> though
  nothing is queued or running that would end it.\<close>

theorem cancel_cancel_race:
  assumes "(conc_step (mock_handler cfg ord clock obs) mdb_look)\<^sup>*\<^sup>* ([], mock_world) (acts, s)"
    and "\<forall>n. fst (obs n) = None" and "i < length acts" "j < length acts" "i \<noteq> j"
    and "acts ! i = Canceling now1 rq1" "acts ! j = Canceling now2 rq2"
    and "PathValue rq1 ''batch_id'' = k" "PathValue rq2 ''batch_id'' = k" "k \<noteq> []"
    and "mdb_look (w_store s) k = Some job" "jobToBatch job = Inr b" "\<not> IsFinal (st_Status (b_Status b))"
    and "k \<in> jp_ID ` set (mpq_queue (w_queue s))" and "l + m \<le> 1" "l + m \<le> n" "n \<le> 4"
  shows "\<exists>acts' s' w1 w2 job'.
     run_turns (mock_handler cfg ord clock obs)
       (replicate l j @ [i] @ replicate m j @ [i] @ replicate (n - l - m) j @ [i] @ replicate (4 - n) j) (acts, s)
       = (acts', s') \<and>
     acts' ! i = Finished (Returns w1) \<and> rw_status w1 = Some 200 \<and>
     rw_body w1 = jprint (enc_Batch (mark_cancelled now1 b)) \<and>
     acts' ! j = Finished (Returns w2) \<and> rw_status w2 = Some (if n = 0 then 400 else 200) \<and>
     mdb_look (w_store s') k = Some job' \<and>
     jobToBatch job' = Inr (if 1 \<le> n \<and> n \<le> 3 then mark_cancelling now2 b else mark_cancelled now1 b) \<and>
     k \<notin> jp_ID ` set (mpq_queue (w_queue s'))"
proof -
  let ?H = "mock_handler cfg ord clock obs"
  let ?ts = "replicate l False @ [True] @ replicate m False @ [True] @ replicate (n - l - m) False @ [True] @ replicate (4 - n) False"
  note conc = reachable_conc [OF assms(1)]
  have now: "int64_ok (Unix now1)" "int64_ok (Unix now2)"
    using conc(5) [OF assms(3,6)] conc(5) [OF assms(4,7)] by simp_all
  obtain p where p: "sees s k p (b, True)" using stored_seen [OF conc(1-4) assms(11,12)] assms(14) by auto
  obtain x y B' Q' where race: "race_turns k p ?ts (acts ! i, acts ! j, b, True) = (x, y, B', Q')"
    by (metis prod.exhaust)
  have "\<exists>acts' s'. run_turns ?H (map (\<lambda>t. if t then i else j) ?ts) (acts, s) = (acts', s') \<and>
    acts' ! i = x \<and> acts' ! j = y \<and> sees s' k p (B', Q')"
    by (rule race_run [OF p assms(2-5) _ _ _ race]) (use assms(6-10) now in auto)
  then obtain acts' s' where run: "run_turns ?H
       (replicate l j @ [i] @ replicate m j @ [i] @ replicate (n - l - m) j @ [i] @ replicate (4 - n) j) (acts, s) = (acts', s')"
    and ends: "acts' ! i = x" "acts' ! j = y" "sees s' k p (B', Q')"
    by auto
  have lm: "l = 0 \<and> m = 0 \<or> l = 1 \<and> m = 0 \<and> n \<noteq> 0 \<or> l = 0 \<and> m = 1 \<and> n \<noteq> 0" using assms(15,16) by arith
  have "\<exists>w1 w2. x = Finished (Returns w1) \<and> rw_status w1 = Some 200 \<and>
      rw_body w1 = jprint (enc_Batch (mark_cancelled now1 b)) \<and> y = Finished (Returns w2) \<and>
      rw_status w2 = Some (if n = 0 then 400 else 200)"
    "B' = (if 1 \<le> n \<and> n \<le> 3 then mark_cancelling now2 b else mark_cancelled now1 b)" "\<not> Q'"
    using race assms(6,7,13) lm one_of_five [OF assms(17)]
    by (elim disjE conjE; auto simp: numeral_eq_Suc rest_simps bad_request_def IsFinal_def)+
  then show ?thesis using run ends sees_look [OF ends(3)] ends(3) unfolding sees_def by auto
qed

definition sample_queued :: "activity list \<times> mock_world" where
  "sample_queued = run_turns sample_handler [0, 0] ([sample_create, sample_cancel, sample_cancel], mock_world)"

lemma sample_queued_run: "(conc_step sample_handler mdb_look)\<^sup>*\<^sup>* ([], mock_world) sample_queued"
  unfolding sample_queued_def by (rule rtranclp_trans [OF sample_arrivals(2) run_turns_steps])

lemma sample_queued_state:
  "case sample_queued of (acts, s) \<Rightarrow> acts ! 1 = sample_cancel \<and> acts ! 2 = sample_cancel \<and> length acts = 3 \<and>
     map jp_ID (mpq_queue (w_queue s)) = [''batch_u1''] \<and>
     map_option jobToBatch (mdb_look (w_store s) ''batch_u1'') = Some (Inr sample_batch) \<and>
     \<not> IsFinal (st_Status (b_Status sample_batch))"
  by code_simp

theorem cancel_cancel_race_witness:
  "\<exists>acts s job. (conc_step sample_handler mdb_look)\<^sup>*\<^sup>* ([], mock_world) (acts, s) \<and>
     status_of (acts ! 1) = Some 200 \<and> status_of (acts ! 2) = Some 200 \<and>
     mdb_look (w_store s) ''batch_u1'' = Some job \<and> jobToBatch job = Inr (mark_cancelling sample_now sample_batch) \<and>
     ''batch_u1'' \<notin> jp_ID ` set (mpq_queue (w_queue s))"
proof -
  obtain acts s where q: "sample_queued = (acts, s)" by fastforce
  have reach: "(conc_step sample_handler mdb_look)\<^sup>*\<^sup>* ([], mock_world) (acts, s)"
    using sample_queued_run by (simp add: q)
  have acts: "1 < length acts" "2 < length acts" "acts ! 1 = sample_cancel" "acts ! 2 = sample_cancel"
    and final: "\<not> IsFinal (st_Status (b_Status sample_batch))"
    and queue: "map jp_ID (mpq_queue (w_queue s)) = [''batch_u1'']"
    using sample_queued_state by (simp_all add: q)
  obtain job where job: "mdb_look (w_store s) ''batch_u1'' = Some job" "jobToBatch job = Inr sample_batch"
    using sample_queued_state by (auto simp: q)
  have k: "PathValue (sample_request [] [] ''batch_u1'') ''batch_id'' = ''batch_u1''" "''batch_u1'' \<noteq> []"
    by (simp_all add: sample_request_def lookup_param_def)
  have "''batch_u1'' \<in> jp_ID ` set (mpq_queue (w_queue s))" using arg_cong [OF queue, of set] by simp
  note race = cancel_cancel_race [OF reach [unfolded sample_handler_def] _ acts(1,2) _ acts(3,4) [unfolded sample_cancel_def]
      k(1,1,2) job final this, of 1 0 2]
  obtain acts' s' w1 w2 job' where r: "run_turns sample_handler ([2, 1, 1] @ [2] @ [1] @ [2, 2]) (acts, s) = (acts', s')"
    "acts' ! 1 = Finished (Returns w1)" "rw_status w1 = Some 200" "acts' ! 2 = Finished (Returns w2)" "rw_status w2 = Some 200"
    "mdb_look (w_store s') ''batch_u1'' = Some job'" "jobToBatch job' = Inr (mark_cancelling sample_now sample_batch)"
    "''batch_u1'' \<notin> jp_ID ` set (mpq_queue (w_queue s'))"
    using race by (auto simp: sample_handler_def numeral_eq_Suc)
  have "(conc_step sample_handler mdb_look)\<^sup>*\<^sup>* ([], mock_world) (acts', s')"
    using rtranclp_trans [OF reach run_turns_steps] r(1) by metis
  moreover have "status_of (acts' ! 1) = Some 200" "status_of (acts' ! 2) = Some 200"
    using r(2-5) by (simp_all add: status_of_def)
  ultimately show ?thesis using r(6-8) by blast
qed

end
