(* ===== verification/WorkerPool.thy ===== *)
theory WorkerPool
  imports Prelude "HOL-Library.Multiset"
begin

text \<open>
  The worker pool (\<open>internal/processor/worker/worker_pool.go\<close>): a buffered channel of worker
  identifiers and a wait group. \<open>pool_inv\<close> relates the pool to the identifiers its users hold;
  the locale \<open>id_pool\<close> is what the users rely on, \<open>wpool\<close> its interpretation.
\<close>

section \<open>State and operations\<close>

record WorkerPool =
  wp_workerIds :: "int list"
  wp_cap :: int
  wp_wg :: int

text \<open>\<open>make\<close> with a negative size panics; the loop fills the channel with 1 to the maximum.\<close>

definition NewWorkerPool :: "int \<Rightarrow> WorkerPool go_result" where
  "NewWorkerPool maxWorkers =
     (if maxWorkers < 0 then Panics ''makechan: size out of range''
      else Returns \<lparr>wp_workerIds = [1..maxWorkers], wp_cap = maxWorkers, wp_wg = 0\<rparr>)"

definition TryAcquire :: "WorkerPool \<Rightarrow> (int \<times> bool) \<times> WorkerPool" where
  "TryAcquire wp =
     (case wp_workerIds wp of
        [] \<Rightarrow> ((0, False), wp)
      | wid # ids \<Rightarrow> ((wid, True), wp\<lparr>wp_workerIds := ids, wp_wg := wp_wg wp + 1\<rparr>))"

text \<open>\<open>Done\<close> on a wait group.\<close>

definition wg_Done :: "WorkerPool \<Rightarrow> unit go_result \<times> WorkerPool" where
  "wg_Done wp =
     (let wp = wp\<lparr>wp_wg := wp_wg wp - 1\<rparr>
      in if wp_wg wp < 0 then (Panics ''sync: negative WaitGroup counter'', wp) else (Returns (), wp))"

text \<open>The identifier is sent first: a full channel blocks, and a panic comes after the send.\<close>

definition Release :: "int \<Rightarrow> WorkerPool \<Rightarrow> unit go_result \<times> WorkerPool" where
  "Release wid wp =
     (if int (length (wp_workerIds wp)) \<ge> wp_cap wp then (Blocks, wp)
      else wg_Done (wp\<lparr>wp_workerIds := wp_workerIds wp @ [wid]\<rparr>))"

definition WaitAll :: "WorkerPool \<Rightarrow> unit go_result" where
  "WaitAll wp = (if wp_wg wp > 0 then Blocks else Returns ())"

section \<open>The contract of a pool of identifiers\<close>

text \<open>
  \<open>held\<close> lists the identifiers that were acquired and not released. A user that releases only
  what it holds never blocks and never panics.
\<close>

locale id_pool =
  fixes acquire :: "'p \<Rightarrow> (int \<times> bool) \<times> 'p" and release :: "int \<Rightarrow> 'p \<Rightarrow> unit go_result \<times> 'p"
    and wait :: "'p \<Rightarrow> unit go_result" and pinv :: "'p \<Rightarrow> int list \<Rightarrow> bool" and size_of :: "'p \<Rightarrow> int"
  assumes held_ids: "pinv p held \<Longrightarrow> distinct held \<and> set held \<subseteq> {1..size_of p}"
    and acquire: "pinv p held \<Longrightarrow> acquire p = ((i, got), p')
      \<Longrightarrow> size_of p' = size_of p \<and>
          (got \<longleftrightarrow> int (length held) < size_of p) \<and>
          (if got then i \<notin> set held \<and> pinv p' (i # held) else i = 0 \<and> p' = p)"
    and release: "pinv p held \<Longrightarrow> i \<in> set held
      \<Longrightarrow> fst (release i p) = Returns () \<and> size_of (snd (release i p)) = size_of p \<and>
          pinv (snd (release i p)) (remove1 i held)"
    and wait: "pinv p held \<Longrightarrow> wait p = (if held = [] then Returns () else Blocks)"

text \<open>A run of a well-behaved user: acquire when possible, release what is held.\<close>

datatype pool_call = Acquire | Give_back nat

fun pool_run ::
  "('p \<Rightarrow> (int \<times> bool) \<times> 'p) \<Rightarrow> (int \<Rightarrow> 'p \<Rightarrow> unit go_result \<times> 'p) \<Rightarrow> pool_call list
    \<Rightarrow> 'p \<times> int list \<Rightarrow> ('p \<times> int list) go_result" where
  "pool_run acq rel [] s = Returns s"
| "pool_run acq rel (Acquire # cs) (p, held) =
     (let ((i, got), p') = acq p in pool_run acq rel cs (p', if got then i # held else held))"
| "pool_run acq rel (Give_back n # cs) (p, held) =
     (if n < length held
      then (case rel (held ! n) p of
          (Returns _, p') \<Rightarrow> pool_run acq rel cs (p', remove1 (held ! n) held)
        | (Panics msg, p') \<Rightarrow> Panics msg
        | (Blocks, p') \<Rightarrow> Blocks)
      else pool_run acq rel cs (p, held))"

context id_pool
begin

lemma run_inv:
  "pinv p held \<Longrightarrow> \<exists>p' held'. pool_run acquire release cs (p, held) = Returns (p', held') \<and>
     pinv p' held' \<and> size_of p' = size_of p"
proof (induction cs arbitrary: p held)
  case (Cons call cs)
  show ?case
  proof (cases call)
    case Acquire
    obtain i got p' where a: "acquire p = ((i, got), p')" by (metis prod.exhaust)
    have "pinv p' (if got then i # held else held)" "size_of p' = size_of p"
      using acquire [OF Cons.prems a] Cons.prems by auto
    then show ?thesis using Cons.IH [of p' "if got then i # held else held"] a Acquire by simp
  next
    case (Give_back n)
    show ?thesis
    proof (cases "n < length held")
      case True
      obtain r p' where rel: "release (held ! n) p = (r, p')" by fastforce
      have "r = Returns ()" "pinv p' (remove1 (held ! n) held)" "size_of p' = size_of p"
        using release [OF Cons.prems, of "held ! n"] True rel by auto
      then show ?thesis using Cons.IH [of p' "remove1 (held ! n) held"] rel Give_back True by simp
    next
      case False
      then show ?thesis using Cons.IH [OF Cons.prems] Give_back by simp
    qed
  qed
qed simp

end

section \<open>The pool keeps the contract\<close>

definition pool_inv :: "WorkerPool \<Rightarrow> int list \<Rightarrow> bool" where
  "pool_inv wp held \<longleftrightarrow>
     0 \<le> wp_cap wp \<and> mset (wp_workerIds wp) + mset held = mset [1..wp_cap wp] \<and>
     wp_wg wp = int (length held)"

lemma pool_inv_length: "pool_inv wp held \<Longrightarrow> int (length (wp_workerIds wp)) + int (length held) = wp_cap wp"
proof -
  assume inv: "pool_inv wp held"
  then have "size (mset (wp_workerIds wp)) + size (mset held) = size (mset [1..wp_cap wp])"
    by (metis pool_inv_def size_union)
  then have "int (length (wp_workerIds wp) + length held) = int (nat (wp_cap wp))" by simp
  then show ?thesis using inv by (simp add: pool_inv_def)
qed

lemma pool_inv_distinct: "pool_inv wp held \<Longrightarrow> distinct (wp_workerIds wp @ held)"
  by (metis distinct_upto mset_append mset_eq_imp_distinct_iff pool_inv_def)

lemma pool_inv_new: "NewWorkerPool n = Returns wp \<Longrightarrow> pool_inv wp []"
  by (auto simp: NewWorkerPool_def pool_inv_def split: if_splits)

interpretation wpool: id_pool TryAcquire Release WaitAll pool_inv wp_cap
proof
  fix p :: WorkerPool and held i got p'
  assume inv: "pool_inv p held"
  show "distinct held \<and> set held \<subseteq> {1..wp_cap p}"
  proof
    show "distinct held" using pool_inv_distinct [OF inv] by simp
    have "set_mset (mset held) \<subseteq> set_mset (mset [1..wp_cap p])"
      using inv unfolding pool_inv_def by (metis mset_subset_eq_add_right set_mset_mono)
    then show "set held \<subseteq> {1..wp_cap p}" by simp
  qed
  show "wp_cap p' = wp_cap p \<and> (got \<longleftrightarrow> int (length held) < wp_cap p) \<and>
      (if got then i \<notin> set held \<and> pool_inv p' (i # held) else i = 0 \<and> p' = p)"
    if "TryAcquire p = ((i, got), p')"
    using that inv pool_inv_length [OF inv] pool_inv_distinct [OF inv]
    by (cases "wp_workerIds p") (auto simp: TryAcquire_def pool_inv_def)
  show "fst (Release i p) = Returns () \<and> wp_cap (snd (Release i p)) = wp_cap p \<and>
      pool_inv (snd (Release i p)) (remove1 i held)" if "i \<in> set held"
  proof -
    have pos: "0 < length held" using that by auto
    moreover from this have "int (length (wp_workerIds p)) < wp_cap p"
      using pool_inv_length [OF inv] by linarith
    moreover have "mset (wp_workerIds p @ [i]) + mset (remove1 i held) = mset [1..wp_cap p]"
    proof -
      have "mset held = add_mset i (mset (remove1 i held))" using that by simp
      then show ?thesis using inv unfolding pool_inv_def by (metis add_mset_add_single mset.simps(2)
            mset_append union_assoc union_commute union_mset_add_mset_right mset.simps(1))
    qed
    moreover have "length held = Suc (length (remove1 i held))" using that pos by (simp add: length_remove1)
    ultimately show ?thesis
      using inv by (simp add: Release_def wg_Done_def pool_inv_def Let_def del: mset_remove1)
  qed
  show "WaitAll p = (if held = [] then Returns () else Blocks)"
    using inv by (simp add: WaitAll_def pool_inv_def)
qed

section \<open>Properties\<close>

text \<open>C23: from a new pool, any sequence of \<open>TryAcquire\<close> and of \<open>Release\<close> of a held identifier runs
  through without blocking or panicking; the identifiers held are then different numbers from 1
  to the maximum, and \<open>WaitAll\<close> returns exactly when none is held.\<close>

theorem pool_sequences:
  assumes "NewWorkerPool n = Returns wp"
  shows "\<exists>wp' held. pool_run TryAcquire Release calls (wp, []) = Returns (wp', held) \<and>
     distinct held \<and> set held \<subseteq> {1..n} \<and>
     WaitAll wp' = (if held = [] then Returns () else Blocks)"
proof -
  have n: "wp_cap wp = n" using assms by (auto simp: NewWorkerPool_def split: if_splits)
  obtain wp' held where r: "pool_run TryAcquire Release calls (wp, []) = Returns (wp', held)"
    and inv: "pool_inv wp' held" and "wp_cap wp' = wp_cap wp"
    using wpool.run_inv [OF pool_inv_new [OF assms], of calls] by blast
  then show ?thesis using wpool.held_ids [OF inv] wpool.wait [OF inv] n by auto
qed

theorem pool_sequences_witness:
  "\<exists>wp' held. pool_run TryAcquire Release [Acquire, Acquire, Give_back 0, Acquire]
       (\<lparr>wp_workerIds = [1, 2], wp_cap = 2, wp_wg = 0\<rparr>, []) = Returns (wp', held) \<and>
     distinct held \<and> set held \<subseteq> {1..2}"
proof -
  have "NewWorkerPool 2 = Returns \<lparr>wp_workerIds = [1, 2], wp_cap = 2, wp_wg = 0\<rparr>" by code_simp
  from pool_sequences [OF this] show ?thesis by blast
qed

text \<open>\<open>TryAcquire\<close> succeeds exactly while fewer than the maximum are held, and the identifier
  it gives is held by no one else.\<close>

theorem acquire_exclusive:
  assumes "pool_inv wp held" and "TryAcquire wp = ((i, got), wp')"
  shows "(got \<longleftrightarrow> int (length held) < wp_cap wp) \<and> i \<notin> set held \<and>
     pool_inv wp' (if got then i # held else held)"
proof -
  have "0 \<notin> set held" using wpool.held_ids [OF assms(1)] by auto
  then show ?thesis using wpool.acquire [OF assms] assms(1) by auto
qed

theorem acquire_exclusive_witness:
  "fst (TryAcquire \<lparr>wp_workerIds = [2], wp_cap = 2, wp_wg = 1\<rparr>) = (2, True) \<and>
   pool_inv (snd (TryAcquire \<lparr>wp_workerIds = [2], wp_cap = 2, wp_wg = 1\<rparr>)) [2, 1]"
proof -
  have i: "pool_inv \<lparr>wp_workerIds = [2], wp_cap = 2, wp_wg = 1\<rparr> [1]" by code_simp
  have a: "TryAcquire \<lparr>wp_workerIds = [2], wp_cap = 2, wp_wg = 1\<rparr>
      = ((2, True), \<lparr>wp_workerIds = [], wp_cap = 2, wp_wg = 2\<rparr>)" by code_simp
  show ?thesis using acquire_exclusive [OF i a] a by simp
qed

end
