(* ===== verification/Inference.thy ===== *)
theory Inference
  imports GoJson
begin

text \<open>
  The inference client (\<open>internal/inference/client.go\<close>, \<open>errors.go\<close>, \<open>interface.go\<close>). The HTTP
  library (resty), the file system and the certificate parsers are parameters: \<open>post\<close> is a whole
  call of \<open>Post\<close> with the library's own retries, \<open>ReadFile\<close>, \<open>AppendCertsFromPEM\<close> and
  \<open>LoadX509KeyPair\<close> are the functions of that name. What is modelled is everything the client
  does around them: the defaults, the TLS settings, the retry condition, the request it builds
  and the classification of every outcome.
\<close>

section \<open>Errors\<close>

type_synonym ErrorCategory = string

definition ErrCategoryRateLimit :: ErrorCategory where "ErrCategoryRateLimit = ''RATE_LIMIT''"
definition ErrCategoryServer :: ErrorCategory where "ErrCategoryServer = ''SERVER_ERROR''"
definition ErrCategoryInvalidReq :: ErrorCategory where "ErrCategoryInvalidReq = ''INVALID_REQ''"
definition ErrCategoryAuth :: ErrorCategory where "ErrCategoryAuth = ''AUTH_ERROR''"
definition ErrCategoryUnknown :: ErrorCategory where "ErrCategoryUnknown = ''UNKNOWN''"

lemmas category_defs =
  ErrCategoryRateLimit_def ErrCategoryServer_def ErrCategoryInvalidReq_def ErrCategoryAuth_def
  ErrCategoryUnknown_def

record ClientError =
  ce_Category :: ErrorCategory
  ce_Message :: string
  ce_RawError :: "error option"

definition ClientError_Error :: "ClientError \<Rightarrow> string" where
  "ClientError_Error e = ce_Message e"

definition IsRetryable :: "ClientError \<Rightarrow> bool" where
  "IsRetryable e \<longleftrightarrow> ce_Category e = ErrCategoryRateLimit \<or> ce_Category e = ErrCategoryServer"

section \<open>Requests and responses\<close>

record GenerateRequest =
  gr_RequestID :: string
  gr_Endpoint :: string
  gr_Params :: "(string \<times> json) list"

record GenerateResponse =
  gs_RequestID :: string
  gs_Response :: bytes
  gs_RawData :: "json option"

section \<open>TLS\<close>

record HTTPClientConfig =
  hc_BaseURL :: string
  hc_Timeout :: duration
  hc_MaxIdleConns :: int
  hc_IdleConnTimeout :: duration
  hc_APIKey :: string
  hc_TLSInsecureSkipVerify :: bool
  hc_TLSCACertFile :: string
  hc_TLSClientCertFile :: string
  hc_TLSClientKeyFile :: string
  hc_TLSMinVersion :: int
  hc_TLSMaxVersion :: int
  hc_MaxRetries :: int
  hc_InitialBackoff :: duration
  hc_MaxBackoff :: duration

text \<open>The fields of \<open>tls.Config\<close> the client sets; \<open>'p\<close> are pools and \<open>'c\<close> certificates.\<close>

record ('p, 'c) tls_config =
  tls_InsecureSkipVerify :: bool
  tls_RootCAs :: "'p option"
  tls_Certificates :: "'c list"
  tls_MinVersion :: int
  tls_MaxVersion :: int

record ('p, 'c) cert_files =
  cf_ReadFile :: "string \<Rightarrow> error + bytes"
  cf_AppendCertsFromPEM :: "bytes \<Rightarrow> 'p option"
  cf_LoadX509KeyPair :: "string \<Rightarrow> string \<Rightarrow> error + 'c"

definition load_roots ::
  "('p, 'c) cert_files \<Rightarrow> HTTPClientConfig \<Rightarrow> ('p, 'c) tls_config \<Rightarrow> error + ('p, 'c) tls_config" where
  "load_roots fs config t =
     (if hc_TLSCACertFile config \<noteq> [] then
        (case cf_ReadFile fs (hc_TLSCACertFile config) of
           Inl err \<Rightarrow> Inl (''failed to read CA certificate file '' @ hc_TLSCACertFile config @ '': '' @ err)
         | Inr caCert \<Rightarrow>
             (case cf_AppendCertsFromPEM fs caCert of
                None \<Rightarrow> Inl (''failed to parse CA certificate from '' @ hc_TLSCACertFile config)
              | Some caCertPool \<Rightarrow> Inr (t\<lparr>tls_RootCAs := Some caCertPool\<rparr>)))
      else Inr t)"

definition load_client_cert ::
  "('p, 'c) cert_files \<Rightarrow> HTTPClientConfig \<Rightarrow> ('p, 'c) tls_config \<Rightarrow> error + ('p, 'c) tls_config" where
  "load_client_cert fs config t =
     (if hc_TLSClientCertFile config \<noteq> [] \<and> hc_TLSClientKeyFile config \<noteq> [] then
        (case cf_LoadX509KeyPair fs (hc_TLSClientCertFile config) (hc_TLSClientKeyFile config) of
           Inl err \<Rightarrow> Inl (''failed to load client certificate/key pair: '' @ err)
         | Inr clientCert \<Rightarrow> Inr (t\<lparr>tls_Certificates := [clientCert]\<rparr>))
      else if hc_TLSClientCertFile config \<noteq> [] \<or> hc_TLSClientKeyFile config \<noteq> [] then
        Inl ''both TLSClientCertFile and TLSClientKeyFile must be specified for mTLS''
      else Inr t)"

definition buildTLSConfig ::
  "('p, 'c) cert_files \<Rightarrow> HTTPClientConfig \<Rightarrow> error + ('p, 'c) tls_config option" where
  "buildTLSConfig fs config =
     (if \<not> hc_TLSInsecureSkipVerify config \<and> hc_TLSCACertFile config = [] \<and>
         hc_TLSClientCertFile config = [] \<and> hc_TLSClientKeyFile config = [] \<and>
         hc_TLSMinVersion config = 0 \<and> hc_TLSMaxVersion config = 0 then Inr None
      else
        (let t = \<lparr>tls_InsecureSkipVerify = False, tls_RootCAs = None, tls_Certificates = [],
                  tls_MinVersion = 0, tls_MaxVersion = 0\<rparr>;
             t = (if hc_TLSInsecureSkipVerify config then t\<lparr>tls_InsecureSkipVerify := True\<rparr> else t)
         in case load_roots fs config t of
              Inl err \<Rightarrow> Inl err
            | Inr t \<Rightarrow>
                (case load_client_cert fs config t of
                   Inl err \<Rightarrow> Inl err
                 | Inr t \<Rightarrow>
                     (let t = (if hc_TLSMinVersion config \<noteq> 0
                               then t\<lparr>tls_MinVersion := hc_TLSMinVersion config\<rparr> else t);
                          t = (if hc_TLSMaxVersion config \<noteq> 0
                               then t\<lparr>tls_MaxVersion := hc_TLSMaxVersion config\<rparr> else t)
                      in Inr (Some t)))))"

section \<open>The client\<close>

text \<open>What \<open>NewHTTPClient\<close> sets on the HTTP library's client.\<close>

record ('p, 'c) HTTPClient =
  cl_BaseURL :: string
  cl_Timeout :: duration
  cl_Headers :: "(string \<times> string) list"
  cl_AuthToken :: "string option"
  cl_MaxIdleConns :: int
  cl_MaxIdleConnsPerHost :: int
  cl_IdleConnTimeout :: duration
  cl_ResponseHeaderTimeout :: duration
  cl_TLS :: "('p, 'c) tls_config option"
  cl_RetryCount :: int
  cl_RetryWaitTime :: "duration option"
  cl_RetryMaxWaitTime :: "duration option"
  cl_RetryOn :: "(error + int) \<Rightarrow> bool"

abbreviation seconds_ns :: "int \<Rightarrow> duration" where
  "seconds_ns n \<equiv> n * 1000000000"

text \<open>The retry condition: a network error, a 429 or any 5xx (and above).\<close>

definition retry_condition :: "(error + int) \<Rightarrow> bool" where
  "retry_condition outcome =
     (case outcome of
        Inl err \<Rightarrow> True
      | Inr statusCode \<Rightarrow> statusCode = 429 \<or> statusCode \<ge> 500)"

definition NewHTTPClient :: "('p, 'c) cert_files \<Rightarrow> HTTPClientConfig \<Rightarrow> error + ('p, 'c) HTTPClient" where
  "NewHTTPClient fs config =
     (let config = (if hc_Timeout config = 0 then config\<lparr>hc_Timeout := seconds_ns 300\<rparr> else config);
          config = (if hc_MaxIdleConns config = 0 then config\<lparr>hc_MaxIdleConns := 100\<rparr> else config);
          config = (if hc_IdleConnTimeout config = 0 then config\<lparr>hc_IdleConnTimeout := seconds_ns 90\<rparr> else config);
          config = (if hc_MaxRetries config > 0 then
              (let config = (if hc_InitialBackoff config = 0 then config\<lparr>hc_InitialBackoff := seconds_ns 1\<rparr> else config)
               in if hc_MaxBackoff config = 0 then config\<lparr>hc_MaxBackoff := seconds_ns 60\<rparr> else config)
            else config)
      in case buildTLSConfig fs config of
           Inl err \<Rightarrow> Inl (''failed to build TLS config: '' @ err)
         | Inr tlsConfig \<Rightarrow>
             Inr \<lparr>cl_BaseURL = hc_BaseURL config, cl_Timeout = hc_Timeout config,
                  cl_Headers = [(''Content-Type'', ''application/json'')],
                  cl_AuthToken = (if hc_APIKey config \<noteq> [] then Some (hc_APIKey config) else None),
                  cl_MaxIdleConns = hc_MaxIdleConns config,
                  cl_MaxIdleConnsPerHost = hc_MaxIdleConns config,
                  cl_IdleConnTimeout = hc_IdleConnTimeout config,
                  cl_ResponseHeaderTimeout = seconds_ns 30,
                  cl_TLS = tlsConfig,
                  cl_RetryCount = (if hc_MaxRetries config > 0 then hc_MaxRetries config else 0),
                  cl_RetryWaitTime = (if hc_MaxRetries config > 0 then Some (hc_InitialBackoff config) else None),
                  cl_RetryMaxWaitTime = (if hc_MaxRetries config > 0 then Some (hc_MaxBackoff config) else None),
                  cl_RetryOn = (if hc_MaxRetries config > 0 then retry_condition else (\<lambda>_. False))\<rparr>)"

section \<open>Generate\<close>

datatype ctx_error = Canceled | DeadlineExceeded

record resty_request =
  rr_Endpoint :: string
  rr_Headers :: "(string \<times> string) list"
  rr_Body :: json

record resty_response =
  rs_StatusCode :: int
  rs_Body :: bytes

definition mapStatusCodeToCategory :: "int \<Rightarrow> ErrorCategory" where
  "mapStatusCodeToCategory statusCode =
     (if statusCode = 400 then ErrCategoryInvalidReq
      else if statusCode = 401 \<or> statusCode = 403 then ErrCategoryAuth
      else if statusCode = 429 then ErrCategoryRateLimit
      else if statusCode = 500 \<or> statusCode = 502 \<or> statusCode = 503 \<or> statusCode = 504 then ErrCategoryServer
      else if statusCode \<ge> 500 then ErrCategoryServer
      else ErrCategoryUnknown)"

record openai_error =
  oe_Code :: int
  oe_Type :: string
  oe_Message :: string
  oe_Param :: string

definition zero_openai_error :: openai_error where
  "zero_openai_error = \<lparr>oe_Code = 0, oe_Type = [], oe_Message = [], oe_Param = []\<rparr>"

definition openai_error_fields :: "openai_error field_table" where
  "openai_error_fields =
     [field ''code'' dec_int64 oe_Code oe_Code_update,
      field ''type'' dec_string oe_Type oe_Type_update,
      field ''message'' dec_string oe_Message oe_Message_update,
      field ''param'' dec_string oe_Param oe_Param_update]"

record error_body =
  eb_Error :: openai_error

definition error_body_fields :: "error_body field_table" where
  "error_body_fields = [field ''error'' (dec_struct openai_error_fields) eb_Error eb_Error_update]"

definition handleErrorResponse :: "int \<Rightarrow> bytes \<Rightarrow> ClientError" where
  "handleErrorResponse statusCode body =
     (let parsed = (case json_parse body of
            None \<Rightarrow> None
          | Some j \<Rightarrow> dec_struct error_body_fields j \<lparr>eb_Error = zero_openai_error\<rparr>);
          message = (case parsed of
            Some r \<Rightarrow> (if oe_Message (eb_Error r) \<noteq> [] then oe_Message (eb_Error r) else body)
          | None \<Rightarrow> body)
      in \<lparr>ce_Category = mapStatusCodeToCategory statusCode,
          ce_Message = ''HTTP '' @ show_int statusCode @ '': '' @ message,
          ce_RawError = Some (''status code: '' @ show_int statusCode @ '', body: '' @ body)\<rparr>)"

definition handleRequestError :: "ctx_error option \<Rightarrow> error \<Rightarrow> ClientError" where
  "handleRequestError ctxErr err =
     (if ctxErr = Some Canceled then
        \<lparr>ce_Category = ErrCategoryUnknown, ce_Message = ''request cancelled'', ce_RawError = Some err\<rparr>
      else if ctxErr = Some DeadlineExceeded then
        \<lparr>ce_Category = ErrCategoryServer, ce_Message = ''request timeout'', ce_RawError = Some err\<rparr>
      else
        \<lparr>ce_Category = ErrCategoryServer, ce_Message = ''failed to execute request: '' @ err,
         ce_RawError = Some err\<rparr>)"

text \<open>
  \<open>ctxErr\<close> is the context's error after the call. The decoded body is kept as the JSON tree;
  \<open>None\<close> is the nil of an empty or undecodable body.
\<close>

definition Generate ::
  "(resty_request \<Rightarrow> error + resty_response) \<Rightarrow> ctx_error option \<Rightarrow> GenerateRequest option
    \<Rightarrow> ClientError + GenerateResponse" where
  "Generate post ctxErr req =
     (case req of
        None \<Rightarrow>
          Inl \<lparr>ce_Category = ErrCategoryInvalidReq, ce_Message = ''request cannot be nil'', ce_RawError = None\<rparr>
      | Some req \<Rightarrow>
          (if gr_Endpoint req = [] then
             Inl \<lparr>ce_Category = ErrCategoryInvalidReq, ce_Message = ''endpoint cannot be empty'', ce_RawError = None\<rparr>
           else
             (let restyReq =
                \<lparr>rr_Endpoint = gr_Endpoint req,
                 rr_Headers = (if gr_RequestID req \<noteq> [] then [(''X-Request-ID'', gr_RequestID req)] else []),
                 rr_Body = JObj (gr_Params req)\<rparr>
              in case post restyReq of
                   Inl err \<Rightarrow> Inl (handleRequestError ctxErr err)
                 | Inr resp \<Rightarrow>
                     (if rs_StatusCode resp \<noteq> 200 then
                        Inl (handleErrorResponse (rs_StatusCode resp) (rs_Body resp))
                      else
                        (let rawData = (if length (rs_Body resp) > 0 then json_parse (rs_Body resp) else None)
                         in Inr \<lparr>gs_RequestID = gr_RequestID req, gs_Response = rs_Body resp,
                                 gs_RawData = rawData\<rparr>)))))"

text \<open>Which statuses give a retryable error.\<close>

lemma retryable_status: "IsRetryable (handleErrorResponse c b) \<longleftrightarrow> c = 429 \<or> 500 \<le> c"
  by (auto simp: IsRetryable_def handleErrorResponse_def Let_def mapStatusCodeToCategory_def category_defs)

section \<open>Properties\<close>

text \<open>The two places that decide whether a failed status is worth a retry agree: the retry
  condition of the HTTP client holds for a status code exactly when the error the client makes of
  that status says it is retryable, whatever the body.\<close>

theorem retry_agrees:
  "retry_condition (Inr statusCode) \<longleftrightarrow> IsRetryable (handleErrorResponse statusCode body)"
  by (simp add: retry_condition_def retryable_status)

text \<open>C22: \<open>Generate\<close> succeeds exactly for a request with an endpoint whose call comes back with
  status 200, and then returns the request's identifier and the unchanged body; it fails with
  \<open>INVALID_REQ\<close> and without calling the gateway when there is no endpoint, and every other error
  is retryable exactly when the call's outcome is one the client retries, except that a cancelled
  context is never retried.\<close>

theorem generate_outcomes:
  "(case Generate post ctxErr req of
      Inr resp \<Rightarrow> (\<exists>r. req = Some r \<and> gr_Endpoint r \<noteq> [] \<and> gs_RequestID resp = gr_RequestID r \<and>
        post \<lparr>rr_Endpoint = gr_Endpoint r,
              rr_Headers = (if gr_RequestID r \<noteq> [] then [(''X-Request-ID'', gr_RequestID r)] else []),
              rr_Body = JObj (gr_Params r)\<rparr> = Inr \<lparr>rs_StatusCode = 200, rs_Body = gs_Response resp\<rparr>)
    | Inl e \<Rightarrow>
        (case req of
           None \<Rightarrow> ce_Category e = ErrCategoryInvalidReq
         | Some r \<Rightarrow>
             (if gr_Endpoint r = [] then ce_Category e = ErrCategoryInvalidReq
              else case post \<lparr>rr_Endpoint = gr_Endpoint r,
                  rr_Headers = (if gr_RequestID r \<noteq> [] then [(''X-Request-ID'', gr_RequestID r)] else []),
                  rr_Body = JObj (gr_Params r)\<rparr> of
                Inl err \<Rightarrow> (IsRetryable e \<longleftrightarrow> ctxErr \<noteq> Some Canceled)
              | Inr resp \<Rightarrow> rs_StatusCode resp \<noteq> 200 \<and>
                  (IsRetryable e \<longleftrightarrow> retry_condition (Inr (rs_StatusCode resp))))))"
proof (cases req)
  case None
  then show ?thesis by (simp add: Generate_def)
next
  case (Some r)
  let ?rq = "\<lparr>rr_Endpoint = gr_Endpoint r,
     rr_Headers = (if gr_RequestID r \<noteq> [] then [(''X-Request-ID'', gr_RequestID r)] else []),
     rr_Body = JObj (gr_Params r)\<rparr>"
  show ?thesis
  proof (cases "post ?rq")
    case (Inl err)
    then show ?thesis
      using Some by (auto simp: Generate_def Let_def handleRequestError_def IsRetryable_def category_defs)
  next
    case (Inr resp)
    then show ?thesis
      using Some by (cases resp) (auto simp: Generate_def Let_def retryable_status retry_condition_def)
  qed
qed

text \<open>The TLS settings: none are built when no option is set; a client certificate without
  its key (or a key without its certificate) is an error; and settings that are built verify the
  server unless told not to, use the given roots and the client certificate exactly when files
  are named, and carry the version bounds.\<close>

theorem tls_settings:
  "case buildTLSConfig fs config of
     Inl err \<Rightarrow> \<not> (hc_TLSCACertFile config = [] \<and> hc_TLSClientCertFile config = [] \<and> hc_TLSClientKeyFile config = [])
   | Inr None \<Rightarrow> \<not> hc_TLSInsecureSkipVerify config \<and> hc_TLSCACertFile config = [] \<and>
       hc_TLSClientCertFile config = [] \<and> hc_TLSClientKeyFile config = [] \<and>
       hc_TLSMinVersion config = 0 \<and> hc_TLSMaxVersion config = 0
   | Inr (Some t) \<Rightarrow>
       (hc_TLSClientCertFile config = [] \<longleftrightarrow> hc_TLSClientKeyFile config = []) \<and>
       tls_InsecureSkipVerify t = hc_TLSInsecureSkipVerify config \<and>
       (tls_RootCAs t = None \<longleftrightarrow> hc_TLSCACertFile config = []) \<and>
       (tls_Certificates t = [] \<longleftrightarrow> hc_TLSClientCertFile config = []) \<and>
       tls_MinVersion t = hc_TLSMinVersion config \<and> tls_MaxVersion t = hc_TLSMaxVersion config"
  by (auto simp: buildTLSConfig_def load_roots_def load_client_cert_def Let_def
      split: sum.splits option.splits if_splits)

end
