(* ===== verification/ProcessorConf.thy ===== *)
theory ProcessorConf
  imports Prelude
begin

text \<open>
  The configuration of the batch processor (\<open>internal/processor/config/config.go\<close>). \<open>stat\<close> is
  \<open>os.Stat\<close>, \<open>open_file\<close> opens and reads a file and \<open>yaml\<close> decodes a text into a configuration
  that has its defaults. A floating point literal is kept as written: a mantissa and a power of ten.
\<close>

type_synonym decimal = "int \<times> int"

record BucketConfig =
  bk_BucketStart :: decimal
  bk_BucketFactor :: decimal
  bk_BucketCount :: int

record ProcessorConfig =
  pc_TaskWaitTime :: duration
  pc_NumWorkers :: int
  pc_MaxJobConcurrency :: int
  pc_PollInterval :: duration
  pc_QueueTimeBucket :: BucketConfig
  pc_ProcessTimeBucket :: BucketConfig
  pc_Addr :: string
  pc_SSLCertFile :: string
  pc_SSLKeyFile :: string
  pc_InferenceGatewayURL :: string
  pc_InferenceRequestTimeout :: duration
  pc_InferenceAPIKey :: string
  pc_InferenceMaxRetries :: int
  pc_InferenceInitialBackoff :: duration
  pc_InferenceMaxBackoff :: duration
  pc_InferenceTLSInsecureSkipVerify :: bool
  pc_InferenceTLSCACertFile :: string
  pc_InferenceTLSClientCertFile :: string
  pc_InferenceTLSClientKeyFile :: string

definition ProcessorConfig_New :: ProcessorConfig where
  "ProcessorConfig_New =
     \<lparr>pc_TaskWaitTime = 1 * 1000000000, pc_NumWorkers = 1, pc_MaxJobConcurrency = 10,
      pc_PollInterval = 5 * 1000000000,
      pc_QueueTimeBucket = \<lparr>bk_BucketStart = (1, -1), bk_BucketFactor = (2, 0), bk_BucketCount = 10\<rparr>,
      pc_ProcessTimeBucket = \<lparr>bk_BucketStart = (1, -1), bk_BucketFactor = (2, 0), bk_BucketCount = 15\<rparr>,
      pc_Addr = '':9090'', pc_SSLCertFile = [], pc_SSLKeyFile = [],
      pc_InferenceGatewayURL = ''http://localhost:8000'',
      pc_InferenceRequestTimeout = 300 * 1000000000, pc_InferenceAPIKey = [],
      pc_InferenceMaxRetries = 3, pc_InferenceInitialBackoff = 1 * 1000000000,
      pc_InferenceMaxBackoff = 60 * 1000000000, pc_InferenceTLSInsecureSkipVerify = False,
      pc_InferenceTLSCACertFile = [], pc_InferenceTLSClientCertFile = [],
      pc_InferenceTLSClientKeyFile = []\<rparr>"

definition ProcessorConfig_SSLEnabled :: "ProcessorConfig \<Rightarrow> bool" where
  "ProcessorConfig_SSLEnabled pc \<longleftrightarrow> pc_SSLCertFile pc \<noteq> [] \<and> pc_SSLKeyFile pc \<noteq> []"

definition LoadFromYAML ::
  "(string \<Rightarrow> error + bytes) \<Rightarrow> (bytes \<Rightarrow> ProcessorConfig \<Rightarrow> error + ProcessorConfig)
    \<Rightarrow> string \<Rightarrow> ProcessorConfig \<Rightarrow> error + ProcessorConfig" where
  "LoadFromYAML open_file yaml filePath pc =
     (case open_file filePath of
        Inl err \<Rightarrow> Inl err
      | Inr data \<Rightarrow> (case yaml data pc of Inl err \<Rightarrow> Inl err | Inr pc' \<Rightarrow> Inr pc'))"

definition ProcessorConfig_Validate :: "(string \<Rightarrow> error option) \<Rightarrow> ProcessorConfig \<Rightarrow> error option" where
  "ProcessorConfig_Validate stat c =
     (if ProcessorConfig_SSLEnabled c then
        (case stat (pc_SSLCertFile c) of
           Some err \<Rightarrow> Some err
         | None \<Rightarrow> (case stat (pc_SSLKeyFile c) of Some err \<Rightarrow> Some err | None \<Rightarrow> None))
      else None)"

text \<open>The processor's check looks at the TLS files only when both are named: a configuration with
  a certificate and no key (or a key and no certificate) passes whatever the file system holds, and
  TLS is then off.\<close>

theorem one_tls_file_passes:
  assumes "(pc_SSLCertFile c = []) \<noteq> (pc_SSLKeyFile c = [])"
  shows "ProcessorConfig_Validate stat c = None \<and> \<not> ProcessorConfig_SSLEnabled c"
  using assms by (auto simp: ProcessorConfig_Validate_def ProcessorConfig_SSLEnabled_def)

theorem one_tls_file_passes_witness:
  "ProcessorConfig_Validate (\<lambda>_. Some ''no such file'') (ProcessorConfig_New\<lparr>pc_SSLCertFile := ''cert.pem''\<rparr>) = None"
  using one_tls_file_passes [of "ProcessorConfig_New\<lparr>pc_SSLCertFile := ''cert.pem''\<rparr>"]
  by (simp add: ProcessorConfig_New_def)

end
