(* ===== verification/MockStatus.thy ===== *)
theory MockStatus
  imports StoreApi "HOL-Library.AList"
begin

text \<open>
  The in-memory \<open>BatchStatusClient\<close> (\<open>internal/database/mock/mock_status_client.go\<close>): a map from
  job identifiers to copies of the data. The time to live is not used. \<open>mst\<close> interprets the
  contract \<open>status_store\<close> on this client.
\<close>

record MockBatchStatusClient =
  mst_status :: "(string \<times> bytes) list"

definition NewMockBatchStatusClient :: MockBatchStatusClient where
  "NewMockBatchStatusClient = \<lparr>mst_status = []\<rparr>"

definition mst_Set ::
  "string \<Rightarrow> int \<Rightarrow> bytes \<Rightarrow> MockBatchStatusClient \<Rightarrow> error option \<times> MockBatchStatusClient" where
  "mst_Set ID TTL data m = (None, m\<lparr>mst_status := AList.update ID data (mst_status m)\<rparr>)"

text \<open>No data is \<open>(nil, nil)\<close>: no slice and no error.\<close>

definition mst_Get :: "string \<Rightarrow> MockBatchStatusClient \<Rightarrow> bytes option \<times> error option" where
  "mst_Get ID m = (case map_of (mst_status m) ID of None \<Rightarrow> (None, None) | Some data \<Rightarrow> (Some data, None))"

definition mst_Delete :: "string \<Rightarrow> MockBatchStatusClient \<Rightarrow> error option \<times> MockBatchStatusClient" where
  "mst_Delete ID m = (None, m\<lparr>mst_status := AList.delete ID (mst_status m)\<rparr>)"

definition mst_Close :: "MockBatchStatusClient \<Rightarrow> error option \<times> MockBatchStatusClient" where
  "mst_Close m = (None, m\<lparr>mst_status := []\<rparr>)"

definition mock_status :: "MockBatchStatusClient status_client" where
  "mock_status = \<lparr>sc_Set = mst_Set, sc_Get = mst_Get, sc_Delete = mst_Delete\<rparr>"

definition mst_content :: "MockBatchStatusClient \<Rightarrow> string \<Rightarrow> bytes option" where
  "mst_content m = map_of (mst_status m)"

lemmas mst_op_defs [store_simps] =
  mock_status_def mst_Set_def mst_Get_def mst_Delete_def mst_content_def

interpretation mst: status_store mock_status mst_content
  by unfold_locales
    (auto simp: store_simps AList.update_conv' AList.delete_conv' split: option.splits)

section \<open>Property\<close>

lemma set_then_content:
  "mst_content (snd (mst_Set ID ttl v m)) = (mst_content m)(ID \<mapsto> v)"
  using mst.set [of ID ttl v m] by (simp add: mock_status_def mst_Set_def)

text \<open>After any sequence of \<open>Set\<close> calls, \<open>Get\<close> gives for every job the data of the last call for
  that job, and \<open>(nil, nil)\<close> for a job that was never set.\<close>

theorem status_last_write:
  "mst_Get k (fold (\<lambda>(ID, ttl, v) m. snd (mst_Set ID ttl v m)) writes NewMockBatchStatusClient)
     = (map_of (rev (map (\<lambda>(ID, ttl, v). (ID, v)) writes)) k, None)"
proof -
  have "mst_content (fold (\<lambda>(ID, ttl, v) m. snd (mst_Set ID ttl v m)) writes m)
      = mst_content m ++ map_of (rev (map (\<lambda>(ID, ttl, v). (ID, v)) writes))" for m
    by (induction writes arbitrary: m) (auto simp: set_then_content)
  then have "mst_content (fold (\<lambda>(ID, ttl, v) m. snd (mst_Set ID ttl v m)) writes NewMockBatchStatusClient)
      = map_of (rev (map (\<lambda>(ID, ttl, v). (ID, v)) writes))"
    by (simp add: mst_content_def NewMockBatchStatusClient_def)
  then show ?thesis by (simp add: mst_Get_def mst_content_def split: option.split)
qed

end
