(* ===== verification/JobRun.thy ===== *)
theory JobRun
  imports StoreApi OpenAI Inference ProcessorConf MockStatus
begin

text \<open>
  Processing one job (\<open>internal/shared/batch/batch_job.go\<close> and \<open>processJob\<close> of
  \<open>internal/processor/worker/worker.go\<close>). \<open>processJob\<close> is the whole function, with the outcome
  of every line given; \<open>job_step\<close> is its concurrent execution, a reader that starts a goroutine
  per line under a semaphore. \<open>job_run_refines\<close> shows that every complete run ends as the
  function says.
\<close>

section \<open>Results of a job\<close>

record JobResultMetadata =
  rm_Total :: int
  rm_Succeeded :: int
  rm_Failed :: int

definition JobResultMetadata_Validate :: "JobResultMetadata \<Rightarrow> bool" where
  "JobResultMetadata_Validate rm \<longleftrightarrow> rm_Succeeded rm + rm_Failed rm = rm_Total rm"

text \<open>\<open>RequestStatus\<close> is an integer; \<open>String\<close> indexes an array of two and panics outside it.\<close>

type_synonym RequestStatus = int

definition StatusOK :: RequestStatus where "StatusOK = 0"
definition RequestStatus_Error :: RequestStatus where "RequestStatus_Error = 1"

definition RequestStatus_String :: "RequestStatus \<Rightarrow> string go_result" where
  "RequestStatus_String rs =
     (if rs < 0 \<or> rs \<ge> 2 then Panics (''runtime error: index out of range ['' @ show_int rs @ ''] with length 2'')
      else Returns ([''OK'', ''ERROR''] ! nat rs))"

definition StatusValidating :: bytes where "StatusValidating = BatchStatusValidating"
definition StatusInProgress :: bytes where "StatusInProgress = BatchStatusInProgress"
definition StatusFinalizing :: bytes where "StatusFinalizing = BatchStatusFinalizing"
definition StatusCompleted :: bytes where "StatusCompleted = BatchStatusCompleted"
definition StatusFailed :: bytes where "StatusFailed = BatchStatusFailed"
definition StatusExpired :: bytes where "StatusExpired = BatchStatusExpired"
definition StatusCancelling :: bytes where "StatusCancelling = BatchStatusCancelling"
definition StatusCancelled :: bytes where "StatusCancelled = BatchStatusCancelled"

text \<open>The structs of a job and of a line of its input, which the code does not fill yet.\<close>

record Job =
  jb_ID :: string
  jb_Location :: string
  jb_SLO :: gotime
  jb_ResultMetadata :: JobResultMetadata

record Request =
  rl_RequestId :: string
  rl_Model :: string
  rl_JobID :: string
  rl_EndPoint :: string
  rl_RequestBody :: bytes
  rl_Status :: RequestStatus

section \<open>The function\<close>

text \<open>
  How a line ends: with the answer of the inference client, or skipped because the context was
  done when its goroutine looked. \<open>handleError\<close> only logs and \<open>handleResponse\<close> never fails.
\<close>

datatype line_outcome = Answered "ClientError + GenerateResponse" | Skipped

definition handleResponse :: "GenerateResponse \<Rightarrow> error option" where
  "handleResponse r = None"

fun account :: "line_outcome \<Rightarrow> JobResultMetadata \<Rightarrow> JobResultMetadata" where
  "account Skipped m = m"
| "account (Answered (Inl err)) m = m\<lparr>rm_Failed := rm_Failed m + 1\<rparr>"
| "account (Answered (Inr r)) m =
     (case handleResponse r of
        Some err \<Rightarrow> m\<lparr>rm_Failed := rm_Failed m + 1\<rparr>
      | None \<Rightarrow> m\<lparr>rm_Succeeded := rm_Succeeded m + 1\<rparr>)"

definition job_lines :: "string list" where
  "job_lines = [''req1'', ''req2'', ''req3'']"

definition initial_metadata :: JobResultMetadata where
  "initial_metadata = \<lparr>rm_Total = int (length job_lines), rm_Succeeded = 0, rm_Failed = 0\<rparr>"

text \<open>The request every line sends for now.\<close>

definition mockRequest :: GenerateRequest where
  "mockRequest = \<lparr>gr_RequestID = [], gr_Endpoint = [], gr_Params = []\<rparr>"

text \<open>\<open>status.Set\<close> for a day; the error is dropped.\<close>

definition set_status :: "'t status_client \<Rightarrow> string \<Rightarrow> bytes \<Rightarrow> 't \<Rightarrow> 't" where
  "set_status scl ID st t = snd (sc_Set scl ID (24 * 60 * 60) st t)"

definition job_begin :: "'t status_client \<Rightarrow> string \<Rightarrow> 't \<Rightarrow> 't" where
  "job_begin scl ID t = set_status scl ID StatusValidating (set_status scl ID StatusInProgress t)"

definition job_end ::
  "'d db_client \<Rightarrow> 't status_client \<Rightarrow> ptr \<Rightarrow> (heap \<times> 'd) \<times> 't \<Rightarrow> (heap \<times> 'd) \<times> 't" where
  "job_end dbc scl p s =
     (let (store, t) = s;
          ID = job_ID (fst store ! p);
          t = set_status scl ID StatusFinalizing t;
          (_, store') = db_Update dbc p store;
          finalStatus = StatusCompleted
      in (store', set_status scl ID finalStatus t))"

text \<open>
  \<open>ends_at\<close> is the number of lines read before the reader saw the context done, if it did;
  \<open>outcomes\<close> the outcomes of the lines. With no room in the semaphore the reader waits for ever.
\<close>

definition processJob ::
  "'d db_client \<Rightarrow> 't status_client \<Rightarrow> ProcessorConfig \<Rightarrow> nat option \<Rightarrow> line_outcome list \<Rightarrow> ptr
    \<Rightarrow> (heap \<times> 'd) \<times> 't \<Rightarrow> JobResultMetadata go_result \<times> (heap \<times> 'd) \<times> 't" where
  "processJob dbc scl cfg ends_at outcomes p s =
     (let (store, t) = s;
          t = job_begin scl (job_ID (fst store ! p)) t
      in if pc_MaxJobConcurrency cfg < 0 then (Panics ''makechan: size out of range'', store, t)
         else case ends_at of
             Some n \<Rightarrow> (Returns (fold account outcomes initial_metadata), store, t)
           | None \<Rightarrow>
               (if pc_MaxJobConcurrency cfg = 0 then (Blocks, store, t)
                else (let metadata = fold account outcomes initial_metadata
                      in (Returns metadata, job_end dbc scl p (store, t)))))"

section \<open>The concurrent execution\<close>

datatype job_pc = Reading | Waiting_lines | Finished | Aborted

record job_state =
  js_pc :: job_pc
  js_unread :: "string list"
  js_inflight :: "string list"
  js_metadata :: JobResultMetadata
  js_outcomes :: "line_outcome list"

definition job_start :: job_state where
  "job_start = \<lparr>js_pc = Reading, js_unread = job_lines, js_inflight = [],
     js_metadata = initial_metadata, js_outcomes = []\<rparr>"

text \<open>
  \<open>live\<close> says whether the context is still alive when the step is taken; a live context rules out
  the steps that give up. \<open>js_outcomes\<close> records the outcomes in the order the lines ended.
\<close>

inductive job_step :: "int \<Rightarrow> bool \<Rightarrow> job_state \<Rightarrow> job_state \<Rightarrow> bool" for maxConcurrency live where
  spawn: "js_pc s = Reading \<Longrightarrow> js_unread s = l # ls \<Longrightarrow> int (length (js_inflight s)) < maxConcurrency \<Longrightarrow>
     job_step maxConcurrency live s (s\<lparr>js_unread := ls, js_inflight := l # js_inflight s\<rparr>)"
| abort: "js_pc s = Reading \<Longrightarrow> js_unread s = l # ls \<Longrightarrow> \<not> live \<Longrightarrow>
     job_step maxConcurrency live s (s\<lparr>js_pc := Aborted\<rparr>)"
| drained: "js_pc s = Reading \<Longrightarrow> js_unread s = [] \<Longrightarrow>
     job_step maxConcurrency live s (s\<lparr>js_pc := Waiting_lines\<rparr>)"
| answer: "l \<in> set (js_inflight s) \<Longrightarrow>
     job_step maxConcurrency live s
       (s\<lparr>js_inflight := remove1 l (js_inflight s),
         js_metadata := account (Answered r) (js_metadata s),
         js_outcomes := js_outcomes s @ [Answered r]\<rparr>)"
| skip: "l \<in> set (js_inflight s) \<Longrightarrow> \<not> live \<Longrightarrow>
     job_step maxConcurrency live s
       (s\<lparr>js_inflight := remove1 l (js_inflight s), js_outcomes := js_outcomes s @ [Skipped]\<rparr>)"
| finish: "js_pc s = Waiting_lines \<Longrightarrow> js_inflight s = [] \<Longrightarrow>
     job_step maxConcurrency live s (s\<lparr>js_pc := Finished\<rparr>)"

inductive_cases job_stepE: "job_step n live s s'"

definition some_job_step :: "int \<Rightarrow> job_state \<Rightarrow> job_state \<Rightarrow> bool" where
  "some_job_step n s s' \<longleftrightarrow> job_step n True s s' \<or> job_step n False s s'"

section \<open>Invariants of a run\<close>

definition job_inv :: "int \<Rightarrow> job_state \<Rightarrow> bool" where
  "job_inv n s \<longleftrightarrow>
     int (length (js_inflight s)) \<le> max 0 n \<and>
     length (js_unread s) + length (js_inflight s) + length (js_outcomes s) = length job_lines \<and>
     js_metadata s = fold account (js_outcomes s) initial_metadata \<and>
     (js_pc s \<in> {Waiting_lines, Finished} \<longrightarrow> js_unread s = []) \<and>
     (js_pc s = Finished \<longrightarrow> js_inflight s = [])"

lemma job_inv_start: "job_inv n job_start"
  by (simp add: job_inv_def job_start_def)

lemma account_Skipped_fold: "fold account (os @ [Skipped]) m = fold account os m"
  by simp

lemma length_remove1_in: "x \<in> set xs \<Longrightarrow> length xs = Suc (length (remove1 x xs))"
  by (simp add: length_remove1) (metis Suc_pred length_pos_if_in_set)

lemma job_step_inv: "job_step n live s s' \<Longrightarrow> job_inv n s \<Longrightarrow> job_inv n s'"
  by (induction rule: job_step.induct)
    (auto simp: job_inv_def dest!: length_remove1_in)

lemma job_run_inv: "(some_job_step n)\<^sup>*\<^sup>* job_start s \<Longrightarrow> job_inv n s"
  by (induction rule: rtranclp_induct) (auto simp: job_inv_start some_job_step_def intro: job_step_inv)

text \<open>Every line that was answered is counted once.\<close>

definition answered :: "line_outcome list \<Rightarrow> nat" where
  "answered os = length (filter (\<lambda>x. x \<noteq> Skipped) os)"

lemma account_counts:
  "rm_Total (account x m) = rm_Total m"
  "rm_Succeeded (account x m) + rm_Failed (account x m)
     = rm_Succeeded m + rm_Failed m + (if x = Skipped then 0 else 1)"
  by (cases "(x, m)" rule: account.cases; simp add: handleResponse_def)+

lemma fold_account_counts:
  "rm_Total (fold account os m) = rm_Total m"
  "rm_Succeeded (fold account os m) + rm_Failed (fold account os m)
     = rm_Succeeded m + rm_Failed m + int (answered os)"
  by (induction os arbitrary: m) (simp_all add: account_counts answered_def)

lemma live_outcomes:
  "(job_step n True)\<^sup>*\<^sup>* job_start s \<Longrightarrow> Skipped \<notin> set (js_outcomes s) \<and> js_pc s \<noteq> Aborted \<and> job_inv n s"
proof (induction rule: rtranclp_induct)
  case base
  then show ?case by (simp add: job_inv_start) (simp add: job_start_def)
next
  case (step s s')
  then have "job_inv n s'" using job_step_inv by blast
  with step show ?case by (auto elim: job_stepE)
qed

text \<open>A measure that every step decreases.\<close>

definition job_measure :: "job_state \<Rightarrow> nat" where
  "job_measure s = 2 * length (js_unread s) + length (js_inflight s) +
     (case js_pc s of Reading \<Rightarrow> 2 | Waiting_lines \<Rightarrow> 1 | _ \<Rightarrow> 0)"

lemma job_step_measure: "job_step n live s s' \<Longrightarrow> job_measure s' < job_measure s"
  by (induction rule: job_step.induct)
    (auto simp: job_measure_def dest!: length_remove1_in)


text \<open>With room in the semaphore a run is never stuck before its end.\<close>

lemma job_progress:
  assumes "0 < n" and "job_inv n s" and "js_pc s \<noteq> Finished" and "js_pc s \<noteq> Aborted"
  shows "\<exists>s'. job_step n live s s'"
proof (cases "js_inflight s")
  case Nil
  show ?thesis
  proof (cases "js_pc s")
    case Reading
    show ?thesis
    proof (cases "js_unread s")
      case Nil
      then show ?thesis using Reading by (blast intro: job_step.drained)
    next
      case (Cons l ls)
      have "int (length (js_inflight s)) < n" using \<open>js_inflight s = []\<close> assms(1) by simp
      from job_step.spawn [OF Reading Cons this] show ?thesis by blast
    qed
  next
    case Waiting_lines
    then show ?thesis using Nil by (auto intro: job_step.finish)
  qed (use assms in auto)
next
  case (Cons l ls)
  then have "l \<in> set (js_inflight s)" by simp
  then show ?thesis by (blast intro: job_step.answer)
qed

section \<open>Properties\<close>

text \<open>C20: at no moment of a job are more lines in flight than the configured concurrency, no line
  is lost or counted twice, and whatever the order in which the lines end, a run that finishes
  has the result metadata the sequential account of its outcomes gives.\<close>

theorem job_run_refines:
  assumes "(some_job_step n)\<^sup>*\<^sup>* job_start s"
  shows "int (length (js_inflight s)) \<le> max 0 n \<and>
     length (js_unread s) + length (js_inflight s) + length (js_outcomes s) = length job_lines \<and>
     js_metadata s = fold account (js_outcomes s) initial_metadata"
  using job_run_inv [OF assms] by (simp add: job_inv_def)

theorem job_run_refines_witness:
  "\<exists>s. (some_job_step 1)\<^sup>*\<^sup>* job_start s \<and> js_inflight s = [''req1''] \<and> int (length (js_inflight s)) \<le> max 0 1"
proof -
  let ?s = "job_start\<lparr>js_unread := [''req2'', ''req3''], js_inflight := [''req1'']\<rparr>"
  have "job_step 1 True job_start ?s"
    using job_step.spawn [of job_start "''req1''" "[''req2'', ''req3'']" 1 True]
    by (simp add: job_start_def job_lines_def)
  then have r: "(some_job_step 1)\<^sup>*\<^sup>* job_start ?s" by (auto simp: some_job_step_def)
  then show ?thesis using job_run_refines [OF r] by (intro exI [of _ ?s]) simp
qed

text \<open>In a job whose context stays alive every line is answered: when the run has finished, the
  succeeded and the failed lines add up to the total, so the metadata validate.\<close>

theorem live_job_counts:
  assumes "(job_step n True)\<^sup>*\<^sup>* job_start s" and "js_pc s = Finished"
  shows "JobResultMetadata_Validate (js_metadata s) \<and> rm_Total (js_metadata s) = 3"
proof -
  have l: "Skipped \<notin> set (js_outcomes s)" "job_inv n s" using live_outcomes [OF assms(1)] by auto
  have "answered (js_outcomes s) = length (js_outcomes s)"
    using l(1) by (auto simp: answered_def intro!: arg_cong [where f = length] filter_True)
  moreover have "length (js_outcomes s) = 3"
    using l(2) assms(2) by (auto simp: job_inv_def job_lines_def)
  ultimately show ?thesis
    using l(2)
    by (simp add: job_inv_def JobResultMetadata_Validate_def fold_account_counts initial_metadata_def job_lines_def)
qed

text \<open>C21: every run of a job ends: with a concurrency of at least one it takes at most eight steps,
  and in a state that is neither finished nor aborted another step is always possible.\<close>

theorem job_terminates:
  assumes "(some_job_step n ^^ k) job_start s" and "0 < n"
  shows "k \<le> 8 \<and> (js_pc s \<in> {Finished, Aborted} \<or> (\<exists>s'. job_step n live s s'))"
proof
  have "k + job_measure s \<le> job_measure job_start"
    using assms(1)
  proof (induction k arbitrary: s)
    case (Suc k)
    then obtain u where u: "(some_job_step n ^^ k) job_start u" "some_job_step n u s" by auto
    then have "job_measure s < job_measure u" using job_step_measure by (auto simp: some_job_step_def)
    then show ?case using Suc.IH [OF u(1)] by simp
  qed simp
  also have "job_measure job_start = 8" by (simp add: job_start_def job_measure_def job_lines_def)
  finally show "k \<le> 8" by simp
  have "job_inv n s" using job_run_inv [OF relpowp_imp_rtranclp [OF assms(1)]] .
  then show "js_pc s \<in> {Finished, Aborted} \<or> (\<exists>s'. job_step n live s s')"
    using job_progress [OF assms(2)] by blast
qed

theorem job_terminates_witness: "\<exists>s'. job_step 10 True job_start s'"
proof -
  have "(some_job_step 10 ^^ 0) job_start job_start" by simp
  from job_terminates [OF this, of True] show ?thesis by (simp add: job_start_def)
qed

text \<open>With a concurrency of zero, which the configuration allows, a job whose context stays
  alive is stuck at its first line: the processor never gets its worker back.\<close>

theorem zero_concurrency_stuck:
  assumes "(job_step 0 True)\<^sup>*\<^sup>* job_start s"
  shows "s = job_start \<and> \<not> (\<exists>s'. job_step 0 True s s')"
proof -
  have stuck: "\<not> job_step 0 True job_start s'" for s'
    by (auto simp: job_start_def job_lines_def elim!: job_stepE)
  from assms have "s = job_start" by (induction rule: rtranclp_induct) (auto simp: stuck)
  then show ?thesis using stuck by blast
qed

theorem zero_concurrency_stuck_witness: "\<not> (\<exists>s'. job_step 0 True job_start s')"
  using zero_concurrency_stuck [OF rtranclp.rtrancl_refl] by blast

section \<open>Witness of a finished run\<close>

definition ok_response :: "ClientError + GenerateResponse" where
  "ok_response = Inr \<lparr>gs_RequestID = [], gs_Response = [], gs_RawData = None\<rparr>"

text \<open>Three times: start a line and answer it.\<close>

lemma one_line:
  assumes "js_pc s = Reading" and "js_unread s = l # ls" and "js_inflight s = []"
  shows "(job_step 1 True)\<^sup>*\<^sup>* s
     (s\<lparr>js_unread := ls, js_metadata := account (Answered ok_response) (js_metadata s),
        js_outcomes := js_outcomes s @ [Answered ok_response]\<rparr>)"
proof -
  let ?u = "s\<lparr>js_unread := ls, js_inflight := [l]\<rparr>"
  have "job_step 1 True s ?u" using job_step.spawn [OF assms(1,2), of 1 True] assms(3) by simp
  moreover have "job_step 1 True ?u
     (s\<lparr>js_unread := ls, js_metadata := account (Answered ok_response) (js_metadata s),
        js_outcomes := js_outcomes s @ [Answered ok_response]\<rparr>)"
    using job_step.answer [of l ?u 1 True ok_response] assms(3) by (cases s) simp
  ultimately show ?thesis by auto
qed

lemma three_lines:
  "\<exists>s. (job_step 1 True)\<^sup>*\<^sup>* job_start s \<and> js_pc s = Finished"
proof -
  let ?m = "\<lambda>k. (account (Answered ok_response) ^^ k) initial_metadata"
  let ?s = "\<lambda>pc ls k. \<lparr>js_pc = pc, js_unread = ls, js_inflight = [], js_metadata = ?m k,
     js_outcomes = replicate k (Answered ok_response)\<rparr>"
  have line: "(job_step 1 True)\<^sup>*\<^sup>* (?s Reading (l # ls) k) (?s Reading ls (Suc k))" for l ls k
    using one_line [of "?s Reading (l # ls) k" l ls] by (simp add: replicate_append_same)
  have "job_start = ?s Reading [''req1'', ''req2'', ''req3''] 0" by (simp add: job_start_def job_lines_def)
  also have "(job_step 1 True)\<^sup>*\<^sup>* \<dots> (?s Reading [] (Suc (Suc (Suc 0))))"
    by (rule rtranclp_trans [OF rtranclp_trans [OF line line] line])
  also have "job_step 1 True \<dots> (?s Waiting_lines [] (Suc (Suc (Suc 0))))"
    using job_step.drained [of "?s Reading [] (Suc (Suc (Suc 0)))"] by simp
  also have "job_step 1 True \<dots> (?s Finished [] (Suc (Suc (Suc 0))))"
    using job_step.finish [of "?s Waiting_lines [] (Suc (Suc (Suc 0)))"] by simp
  finally have run: "(job_step 1 True)\<^sup>*\<^sup>* job_start (?s Finished [] (Suc (Suc (Suc 0))))" .
  show ?thesis by (intro exI conjI) (rule run, simp)
qed

theorem live_job_counts_witness:
  "\<exists>s. (job_step 1 True)\<^sup>*\<^sup>* job_start s \<and> JobResultMetadata_Validate (js_metadata s) \<and> rm_Total (js_metadata s) = 3"
  using three_lines live_job_counts by blast

end
