(* ===== verification/Processor.thy ===== *)
theory Processor
  imports WorkerPool JobRun MockDB MockQueue
begin

text \<open>
  The batch processor (\<open>internal/processor/worker/worker.go\<close>): its clients and their check, and
  \<open>RunPollingLoop\<close> as a step relation. A turn of the loop, from a received worker identifier to
  the next \<open>select\<close>, is the function \<open>poll_body\<close>; the goroutines it starts are listed in
  \<open>ps_running\<close> with the worker and the job each one has. The effects a goroutine has on the stores
  are taken when it ends; \<^verbatim>\<open>JobSteps\<close> and \<^verbatim>\<open>System\<close> cut them at its calls. Its metrics are added in
  \<^verbatim>\<open>JobMetrics\<close>; logging is left out.
\<close>

section \<open>Clients\<close>

text \<open>An absent client is a nil interface.\<close>

record ('d, 'q, 't, 'e) ProcessorClients =
  px_database :: "'d db_client option"
  px_priorityQueue :: "'q queue_client option"
  px_status :: "'t status_client option"
  px_event :: "'e event_client option"
  px_inference :: "(GenerateRequest option \<Rightarrow> ClientError + GenerateResponse) option"

definition NewProcessorClients ::
  "'d db_client option \<Rightarrow> 'q queue_client option \<Rightarrow> 't status_client option \<Rightarrow> 'e event_client option
    \<Rightarrow> (GenerateRequest option \<Rightarrow> ClientError + GenerateResponse) option
    \<Rightarrow> ('d, 'q, 't, 'e) ProcessorClients" where
  "NewProcessorClients db pq status event inference =
     \<lparr>px_database = db, px_priorityQueue = pq, px_status = status, px_event = event,
      px_inference = inference\<rparr>"

definition ProcessorClients_Validate :: "('d, 'q, 't, 'e) ProcessorClients \<Rightarrow> error option" where
  "ProcessorClients_Validate pc =
     (if px_database pc = None then Some ''database client is missing''
      else if px_priorityQueue pc = None then Some ''priority queue client is missing''
      else if px_status pc = None then Some ''status client is missing''
      else if px_event pc = None then Some ''event channel client is missing''
      else if px_inference pc = None then Some ''inference client is missing''
      else None)"

definition prepare :: "('d, 'q, 't, 'e) ProcessorClients \<Rightarrow> error option" where
  "prepare clients =
     (case ProcessorClients_Validate clients of
        Some err \<Rightarrow> Some (''critical clients are missing in processor: '' @ err)
      | None \<Rightarrow> None)"

section \<open>The polling loop\<close>

datatype loop_pc = Waiting | Sleeping | Stopped | Crashed error | Stuck

record ('d, 'q, 't) proc_state =
  ps_pc :: loop_pc
  ps_pool :: WorkerPool
  ps_store :: "heap \<times> 'd"
  ps_queue :: 'q
  ps_status :: 't
  ps_running :: "(int \<times> ptr) list"

definition RunPollingLoop_start ::
  "('d, 'q, 't, 'e) ProcessorClients \<Rightarrow> ('d, 'q, 't) proc_state \<Rightarrow> error + ('d, 'q, 't) proc_state" where
  "RunPollingLoop_start clients s =
     (case prepare clients of Some err \<Rightarrow> Inl err | None \<Rightarrow> Inr (s\<lparr>ps_pc := Waiting\<rparr>))"

definition NewProcessor ::
  "ProcessorConfig \<Rightarrow> heap \<times> 'd \<Rightarrow> 'q \<Rightarrow> 't \<Rightarrow> ('d, 'q, 't) proc_state go_result" where
  "NewProcessor cfg store queue status =
     (case NewWorkerPool (pc_NumWorkers cfg) of
        Returns pool \<Rightarrow> Returns \<lparr>ps_pc = Waiting, ps_pool = pool, ps_store = store, ps_queue = queue,
          ps_status = status, ps_running = []\<rparr>
      | Panics msg \<Rightarrow> Panics msg
      | Blocks \<Rightarrow> Blocks)"

definition getTaskFromQueue :: "'q queue_client \<Rightarrow> 'q \<Rightarrow> (BatchJobPriority option \<times> 'q) go_result" where
  "getTaskFromQueue pqc q =
     (case pq_Dequeue pqc 0 1 q of
        Returns ((tasks, err), q) \<Rightarrow>
          Returns (if err \<noteq> None then None else if length tasks = 0 then None else Some (tasks ! 0), q)
      | Panics msg \<Rightarrow> Panics msg
      | Blocks \<Rightarrow> Blocks)"

text \<open>A job that is not found goes back to the queue; the error of putting it back is only logged.\<close>

definition getJobData ::
  "'d db_client \<Rightarrow> 'q queue_client \<Rightarrow> BatchJobPriority \<Rightarrow> (heap \<times> 'd) \<times> 'q
    \<Rightarrow> (error + ptr) \<times> (heap \<times> 'd) \<times> 'q" where
  "getJobData dbc pqc task s =
     (let (store, q) = s;
          ((jobs, _, err), store) = db_Get dbc [jp_ID task] [] TagsLogicalCondNa True 0 1 store
      in if err \<noteq> None \<or> length jobs = 0 then
           (let jobDataErr = (if length jobs = 0 then ''Job data for '' @ jp_ID task @ '' does not exist'' else the err);
                (_, q) = pq_Enqueue pqc task q
            in (Inl jobDataErr, store, q))
         else (Inr (jobs ! 0), store, q))"

text \<open>\<open>Release\<close> in the loop or in a goroutine: a panic there is recovered by no one.\<close>

definition release_then :: "loop_pc \<Rightarrow> int \<Rightarrow> ('d, 'q, 't) proc_state \<Rightarrow> ('d, 'q, 't) proc_state" where
  "release_then pc wid s =
     (case Release wid (ps_pool s) of
        (Returns _, pool) \<Rightarrow> s\<lparr>ps_pool := pool, ps_pc := pc\<rparr>
      | (Panics msg, pool) \<Rightarrow> s\<lparr>ps_pool := pool, ps_pc := Crashed msg\<rparr>
      | (Blocks, pool) \<Rightarrow> s\<lparr>ps_pc := Stuck\<rparr>)"

definition poll_body ::
  "'d db_client \<Rightarrow> 'q queue_client \<Rightarrow> int \<Rightarrow> ('d, 'q, 't) proc_state \<Rightarrow> ('d, 'q, 't) proc_state" where
  "poll_body dbc pqc workerId s =
     (case getTaskFromQueue pqc (ps_queue s) of
        Panics msg \<Rightarrow> s\<lparr>ps_pc := Crashed msg\<rparr>
      | Blocks \<Rightarrow> s\<lparr>ps_pc := Stuck\<rparr>
      | Returns (None, q) \<Rightarrow> release_then Sleeping workerId (s\<lparr>ps_queue := q\<rparr>)
      | Returns (Some task, q) \<Rightarrow>
          (let (r, store, q) = getJobData dbc pqc task (ps_store s, q);
               s = s\<lparr>ps_store := store, ps_queue := q\<rparr>
           in case r of
                Inl _ \<Rightarrow> release_then Waiting workerId s
              | Inr job \<Rightarrow> s\<lparr>ps_pc := Waiting, ps_running := (workerId, job) # ps_running s\<rparr>))"

definition loop_alive :: "loop_pc \<Rightarrow> bool" where
  "loop_alive pc \<longleftrightarrow> pc \<in> {Waiting, Sleeping, Stopped}"

inductive poll_step ::
  "'d db_client \<Rightarrow> 'q queue_client \<Rightarrow> 't status_client \<Rightarrow> ProcessorConfig
    \<Rightarrow> ('d, 'q, 't) proc_state \<Rightarrow> ('d, 'q, 't) proc_state \<Rightarrow> bool"
  for dbc pqc scl cfg where
  stop: "ps_pc s \<in> {Waiting, Sleeping} \<Longrightarrow> poll_step dbc pqc scl cfg s (s\<lparr>ps_pc := Stopped\<rparr>)"
| take_worker: "ps_pc s = Waiting \<Longrightarrow> wp_workerIds (ps_pool s) = wid # ids \<Longrightarrow>
     poll_step dbc pqc scl cfg s
       (poll_body dbc pqc wid (s\<lparr>ps_pool := (ps_pool s)\<lparr>wp_workerIds := ids\<rparr>\<rparr>))"
| wake: "ps_pc s = Sleeping \<Longrightarrow> poll_step dbc pqc scl cfg s (s\<lparr>ps_pc := Waiting\<rparr>)"
| worker_ends: "loop_alive (ps_pc s) \<Longrightarrow> ps_running s = before @ (wid, job) # after \<Longrightarrow>
     processJob dbc scl cfg ends_at outcomes job (ps_store s, ps_status s) = (r, store, status) \<Longrightarrow>
     r \<noteq> Blocks \<Longrightarrow>
     poll_step dbc pqc scl cfg s
       (release_then (ps_pc s) wid
          (s\<lparr>ps_store := store, ps_status := status, ps_running := before @ after\<rparr>))"

text \<open>\<open>Stop\<close> waits for the wait group of the pool.\<close>

definition Stop :: "('d, 'q, 't) proc_state \<Rightarrow> unit go_result" where
  "Stop s = WaitAll (ps_pool s)"

section \<open>Invariant\<close>

text \<open>
  The identifiers in the pool and those of the running goroutines are 1 to the maximum. The loop
  takes identifiers from the channel itself, so the wait group counts none of them.
\<close>

definition poll_inv :: "int \<Rightarrow> ('d, 'q, 't) proc_state \<Rightarrow> bool" where
  "poll_inv n s \<longleftrightarrow>
     wp_cap (ps_pool s) = n \<and>
     (ps_pc s \<in> {Waiting, Stopped} \<and> wp_wg (ps_pool s) = 0 \<and>
        mset (wp_workerIds (ps_pool s)) + mset (map fst (ps_running s)) = mset [1..n] \<or>
      ps_pc s = Crashed ''sync: negative WaitGroup counter'' \<and> wp_wg (ps_pool s) = -1 \<and>
        mset (wp_workerIds (ps_pool s)) + mset (map fst (ps_running s)) = mset [1..n])"

text \<open>Releasing a worker that the wait group never counted.\<close>

lemma release_uncounted:
  assumes "wp_cap (ps_pool s) = n" and "wp_wg (ps_pool s) = 0"
    and "mset (wp_workerIds (ps_pool s)) + mset (map fst (ps_running s)) + {#wid#} = mset [1..n]"
  shows "poll_inv n (release_then pc wid s)"
    and "ps_pc (release_then pc wid s) = Crashed ''sync: negative WaitGroup counter''"
proof -
  have "size (mset (wp_workerIds (ps_pool s)) + mset (map fst (ps_running s)) + {#wid#}) = nat n"
    unfolding assms(3) by simp
  then have "int (length (wp_workerIds (ps_pool s))) < n" by (simp; linarith)
  then show "poll_inv n (release_then pc wid s)"
    "ps_pc (release_then pc wid s) = Crashed ''sync: negative WaitGroup counter''"
    using assms by (simp_all add: release_then_def Release_def wg_Done_def poll_inv_def Let_def)
qed

lemma poll_inv_start: "NewProcessor cfg store queue status = Returns s \<Longrightarrow> poll_inv (pc_NumWorkers cfg) s"
  by (auto simp: NewProcessor_def NewWorkerPool_def poll_inv_def split: if_splits)

text \<open>With a queue that answers at once (its timeout is zero) the loop keeps the invariant.\<close>

definition answers :: "'q queue_client \<Rightarrow> bool" where
  "answers pqc \<longleftrightarrow> (\<forall>q. \<exists>r. pq_Dequeue pqc 0 1 q = Returns r)"

lemma poll_step_inv:
  assumes "poll_step dbc pqc scl cfg s s'" and "answers pqc" and "poll_inv n s"
  shows "poll_inv n s'"
  using assms
proof (induction rule: poll_step.induct)
  case (take_worker s wid ids)
  let ?s = "s\<lparr>ps_pool := (ps_pool s)\<lparr>wp_workerIds := ids\<rparr>\<rparr>"
  have inv: "wp_cap (ps_pool s) = n" "wp_wg (ps_pool s) = 0"
    "mset ids + mset (map fst (ps_running s)) + {#wid#} = mset [1..n]"
    using take_worker by (auto simp: poll_inv_def)
  obtain tasks err q where d: "pq_Dequeue pqc 0 1 (ps_queue s) = Returns ((tasks, err), q)"
    using take_worker(3) unfolding answers_def by (metis prod.exhaust)
  define t where "t = (if err \<noteq> None then None else if length tasks = 0 then None else Some (tasks ! 0))"
  have g: "getTaskFromQueue pqc (ps_queue ?s) = Returns (t, q)"
    using d by (simp add: getTaskFromQueue_def t_def)
  show ?case
  proof (cases t)
    case None
    have "poll_inv n (release_then Sleeping wid (?s\<lparr>ps_queue := q\<rparr>))"
      by (rule release_uncounted) (use inv in simp_all)
    then show ?thesis using g None by (simp add: poll_body_def)
  next
    case (Some task)
    obtain r st q2 where j: "getJobData dbc pqc task (ps_store ?s, q) = (r, st, q2)"
      by (metis prod.exhaust)
    show ?thesis
    proof (cases r)
      case (Inl e)
      have "poll_inv n (release_then Waiting wid (?s\<lparr>ps_store := st, ps_queue := q2\<rparr>))"
        by (rule release_uncounted) (use inv in simp_all)
      then show ?thesis using g Some j Inl by (simp add: poll_body_def)
    next
      case (Inr job)
      then show ?thesis using g Some j inv by (simp add: poll_body_def poll_inv_def)
    qed
  qed
next
  case (worker_ends s before wid job after ends_at outcomes r store status)
  then have "wp_cap (ps_pool s) = n" "wp_wg (ps_pool s) = 0"
    "mset (wp_workerIds (ps_pool s)) + mset (map fst (before @ after)) + {#wid#} = mset [1..n]"
    by (auto simp: poll_inv_def loop_alive_def)
  then show ?case by (intro release_uncounted) simp_all
qed (auto simp: poll_inv_def)

lemma poll_run_inv:
  assumes "(poll_step dbc pqc scl cfg)\<^sup>*\<^sup>* s s'" and "answers pqc" and "poll_inv n s"
  shows "poll_inv n s'"
  using assms by (induction rule: rtranclp_induct) (auto intro: poll_step_inv)

lemma poll_inv_workers:
  assumes "poll_inv n s"
  shows "distinct (map fst (ps_running s)) \<and> set (map fst (ps_running s)) \<subseteq> {1..n}"
proof -
  have m: "mset (wp_workerIds (ps_pool s)) + mset (map fst (ps_running s)) = mset [1..n]"
    using assms by (auto simp: poll_inv_def)
  have "mset (wp_workerIds (ps_pool s) @ map fst (ps_running s)) = mset [1..n]" using m by simp
  then have "distinct (wp_workerIds (ps_pool s) @ map fst (ps_running s))"
    by (metis distinct_upto mset_eq_imp_distinct_iff)
  moreover have "set_mset (mset (map fst (ps_running s))) \<subseteq> set_mset (mset [1..n])"
    unfolding m [symmetric] by (rule set_mset_mono) simp
  ultimately show ?thesis by simp
qed

lemma mock_queue_answers: "answers (mock_queue clock)"
proof -
  have "\<exists>r. mpq_Dequeue ticks 0 1 q = Returns r" for ticks q
    by (subst mpq_Dequeue.simps) (simp add: Let_def min_def)
  then show ?thesis by (simp add: answers_def mock_queue_def)
qed

section \<open>A processor with one job\<close>

definition sample_job :: BatchJob where
  "sample_job = \<lparr>job_ID = ''a'', job_SLO = 7, job_TTL = 1, job_Tags = [], job_Spec = [], job_Status = []\<rparr>"

definition sample_proc :: "(MockBatchDBClient, MockBatchPriorityQueueClient, MockBatchStatusClient) proc_state" where
  "sample_proc =
     \<lparr>ps_pc = Waiting, ps_pool = \<lparr>wp_workerIds = [1], wp_cap = 1, wp_wg = 0\<rparr>,
      ps_store = ([sample_job], \<lparr>mdb_jobs = [(''a'', 0)]\<rparr>),
      ps_queue = \<lparr>mpq_queue = [\<lparr>jp_ID = ''a'', jp_SLO = 7\<rparr>]\<rparr>,
      ps_status = NewMockBatchStatusClient, ps_running = []\<rparr>"

definition sample_busy :: "(MockBatchDBClient, MockBatchPriorityQueueClient, MockBatchStatusClient) proc_state" where
  "sample_busy =
     poll_body (mock_db id) (mock_queue (\<lambda>_. [])) 1
       (sample_proc\<lparr>ps_pool := (ps_pool sample_proc)\<lparr>wp_workerIds := []\<rparr>\<rparr>)"

lemma sample_proc_new:
  "NewProcessor ProcessorConfig_New (ps_store sample_proc) (ps_queue sample_proc) NewMockBatchStatusClient
     = Returns sample_proc"
  by code_simp

lemma sample_busy_running: "ps_running sample_busy = [(1, 0)]"
  by code_simp

lemma sample_takes:
  "poll_step (mock_db id) (mock_queue (\<lambda>_. [])) mock_status ProcessorConfig_New sample_proc sample_busy"
  unfolding sample_busy_def by (rule poll_step.take_worker) (simp_all add: sample_proc_def)

lemma sample_run:
  "(poll_step (mock_db id) (mock_queue (\<lambda>_. [])) mock_status ProcessorConfig_New)\<^sup>*\<^sup>* sample_proc sample_busy"
  by (rule r_into_rtranclp) (rule sample_takes)

lemma sample_store: "mdb_inv (ps_store sample_proc)" "mdb_look (ps_store sample_proc) ''a'' = Some sample_job"
  by (auto simp: sample_proc_def mdb_inv_def mdb_look_def sample_job_def)

section \<open>Properties\<close>

lemma mock_run_inv:
  assumes "NewProcessor cfg store queue status = Returns s0"
    and "(poll_step dbc (mock_queue clock) scl cfg)\<^sup>*\<^sup>* s0 s"
  shows "poll_inv (pc_NumWorkers cfg) s"
  by (rule poll_run_inv [OF assms(2) mock_queue_answers poll_inv_start [OF assms(1)]])

text \<open>At any moment of the polling loop, whatever the database and the status client do, no two
  jobs in progress have the same worker, every worker is one of the configured ones, and no more
  jobs are in progress than there are workers.\<close>

theorem workers_exclusive:
  assumes "NewProcessor cfg store queue status = Returns s0"
    and "(poll_step dbc (mock_queue clock) scl cfg)\<^sup>*\<^sup>* s0 s"
  shows "distinct (map fst (ps_running s)) \<and> set (map fst (ps_running s)) \<subseteq> {1..pc_NumWorkers cfg} \<and>
     int (length (ps_running s)) \<le> pc_NumWorkers cfg"
proof -
  note inv = mock_run_inv [OF assms]
  have d: "distinct (map fst (ps_running s))" "set (map fst (ps_running s)) \<subseteq> {1..pc_NumWorkers cfg}"
    using poll_inv_workers [OF inv] by auto
  then have "card (set (map fst (ps_running s))) \<le> card {1..pc_NumWorkers cfg}" by (intro card_mono) auto
  moreover have "card (set (map fst (ps_running s))) = length (ps_running s)"
    using distinct_card [OF d(1)] by simp
  moreover have "0 \<le> pc_NumWorkers cfg"
    using assms(1) by (auto simp: NewProcessor_def NewWorkerPool_def split: if_splits)
  ultimately show ?thesis using d by simp
qed

theorem workers_exclusive_witness:
  "distinct (map fst (ps_running sample_busy)) \<and> set (map fst (ps_running sample_busy)) \<subseteq> {1..1} \<and>
   ps_running sample_busy = [(1, 0)]"
  using workers_exclusive [OF sample_proc_new sample_run] sample_busy_running
  by (simp add: ProcessorConfig_New_def)

text \<open>C16: the loop never gets a worker back: it takes identifiers from the channel without counting
  them, so the first \<open>Release\<close>, of a finished job or of a turn that found no job, panics with a
  negative counter. In no run does the loop come to its wait for the poll interval, and a step that
  ends a job ends the process.\<close>

theorem release_crashes:
  assumes "NewProcessor cfg store queue status = Returns s0"
    and "(poll_step dbc (mock_queue clock) scl cfg)\<^sup>*\<^sup>* s0 s"
    and "poll_step dbc (mock_queue clock) scl cfg s s'"
  shows "ps_pc s \<noteq> Sleeping \<and>
     (ps_pc s' = Crashed ''sync: negative WaitGroup counter'' \<or>
      ps_pc s' \<in> {Waiting, Stopped} \<and> length (ps_running s) \<le> length (ps_running s'))"
proof -
  note inv = mock_run_inv [OF assms(1,2)]
  have inv': "poll_inv (pc_NumWorkers cfg) s'"
    by (rule mock_run_inv [OF assms(1) rtranclp.rtrancl_into_rtrancl [OF assms(2,3)]])
  show ?thesis
  proof (cases "ps_pc s' = Crashed ''sync: negative WaitGroup counter''")
    case True
    then show ?thesis using inv by (auto simp: poll_inv_def)
  next
    case False
    have "length (ps_running s) \<le> length (ps_running s')"
      using assms(3) False
    proof (cases rule: poll_step.cases)
      case (take_worker wid ids)
      then show ?thesis
        by (auto simp: poll_body_def release_then_def Let_def split: go_result.splits option.splits sum.splits prod.splits)
    next
      case (worker_ends before wid job after ends_at outcomes r store status)
      have "ps_pc s' = Crashed ''sync: negative WaitGroup counter''"
        unfolding worker_ends(1)
        by (rule release_uncounted(2) [where n = "pc_NumWorkers cfg"])
          (use inv worker_ends in \<open>auto simp: poll_inv_def loop_alive_def\<close>)
      then show ?thesis using False by simp
    qed auto
    then show ?thesis using inv inv' False by (auto simp: poll_inv_def)
  qed
qed

theorem release_crashes_witness:
  "\<exists>s. poll_step (mock_db id) (mock_queue (\<lambda>_. [])) mock_status ProcessorConfig_New sample_busy s \<and>
     ps_pc s = Crashed ''sync: negative WaitGroup counter''"
proof -
  obtain r store status where e: "processJob (mock_db id) mock_status ProcessorConfig_New None [] 0
      (ps_store sample_busy, ps_status sample_busy) = (r, store, status)" and r: "r \<noteq> Blocks"
    by (cases "processJob (mock_db id) mock_status ProcessorConfig_New None [] 0
      (ps_store sample_busy, ps_status sample_busy)")
      (auto simp: processJob_def ProcessorConfig_New_def Let_def split: prod.splits)
  have alive: "loop_alive (ps_pc sample_busy)" by code_simp
  let ?s = "release_then (ps_pc sample_busy) 1
    (sample_busy\<lparr>ps_store := store, ps_status := status, ps_running := [] @ []\<rparr>)"
  have step: "poll_step (mock_db id) (mock_queue (\<lambda>_. [])) mock_status ProcessorConfig_New sample_busy ?s"
    by (rule poll_step.worker_ends [OF alive _ e r]) (simp add: sample_busy_running)
  have "ps_running ?s = []" by (simp add: release_then_def split: go_result.split prod.split)
  then show ?thesis
    using release_crashes [OF sample_proc_new sample_run step] step
    by (auto simp: sample_busy_running)
qed

text \<open>\<open>Stop\<close> does not wait: in every state of every run it returns at once, also while jobs
  are in progress.\<close>

theorem stop_does_not_wait:
  assumes "NewProcessor cfg store queue status = Returns s0"
    and "(poll_step dbc (mock_queue clock) scl cfg)\<^sup>*\<^sup>* s0 s"
  shows "Stop s = Returns ()"
  using mock_run_inv [OF assms] by (auto simp: poll_inv_def Stop_def WaitAll_def)

theorem stop_does_not_wait_witness: "Stop sample_busy = Returns () \<and> ps_running sample_busy \<noteq> []"
  using stop_does_not_wait [OF sample_proc_new sample_run] sample_busy_running by simp

text \<open>C17: a worker gets the waiting job with the earliest deadline: the entry leaves the queue, every
  entry that stays has a deadline that is not earlier, and the goroutine is started with the stored
  job of that entry.\<close>

theorem earliest_job_first:
  assumes "mpq_inv (ps_queue s)" and "mpq_queue (ps_queue s) = x # rest"
    and "mdb_inv (ps_store s)" and "mdb_look (ps_store s) (jp_ID x) = Some j"
  shows "\<exists>p. ps_running (poll_body (mock_db ord) (mock_queue clock) wid s) = (wid, p) # ps_running s \<and>
     fst (ps_store s) ! p = j \<and>
     mpq_queue (ps_queue (poll_body (mock_db ord) (mock_queue clock) wid s)) = rest \<and>
     (\<forall>y \<in> set rest. jp_SLO x \<le> jp_SLO y) \<and>
     ps_pc (poll_body (mock_db ord) (mock_queue clock) wid s) = Waiting"
proof -
  obtain p where p: "map_of (mdb_jobs (snd (ps_store s))) (jp_ID x) = Some p" "fst (ps_store s) ! p = j"
    using assms(4) by (auto simp: mdb_look_def)
  have "mpq_Dequeue ticks 0 1 (ps_queue s) = Returns (([x], None), (ps_queue s)\<lparr>mpq_queue := rest\<rparr>)" for ticks
    using Dequeue_nonempty [of "ps_queue s" 1 ticks 0] assms(2) by simp
  then have "getTaskFromQueue (mock_queue clock) (ps_queue s) = Returns (Some x, (ps_queue s)\<lparr>mpq_queue := rest\<rparr>)"
    by (simp add: getTaskFromQueue_def mock_queue_def)
  moreover have "getJobData (mock_db ord) (mock_queue clock) x (ps_store s, q) = (Inr p, ps_store s, q)" for q
    using p by (simp add: getJobData_def mock_db_def mdb_Get_def Let_def)
  ultimately have "poll_body (mock_db ord) (mock_queue clock) wid s =
      s\<lparr>ps_queue := (ps_queue s)\<lparr>mpq_queue := rest\<rparr>, ps_pc := Waiting, ps_running := (wid, p) # ps_running s\<rparr>"
    by (cases s) (simp add: poll_body_def)
  then show ?thesis using p assms(1,2) by (auto simp: mpq_inv_def)
qed

theorem earliest_job_first_witness:
  "\<exists>p. ps_running (poll_body (mock_db id) (mock_queue (\<lambda>_. [])) 1 sample_proc) = [(1, p)] \<and>
     fst (ps_store sample_proc) ! p = sample_job"
  using earliest_job_first [of sample_proc "\<lparr>jp_ID = ''a'', jp_SLO = 7\<rparr>" "[]" sample_job id "\<lambda>_. []" 1]
    sample_store
  by (simp add: mpq_inv_def) (auto simp: sample_proc_def)

text \<open>C18: a job the database cannot give is not lost: after the turn, which starts no goroutine, the
  queue holds the same entries as before, whatever the database client is.\<close>

theorem failed_fetch_requeues:
  assumes "mpq_queue (ps_queue s) = x # rest"
    and "db_Get dbc [jp_ID x] [] TagsLogicalCondNa True 0 1 (ps_store s) = ((ps, cur, e), store)"
    and "e \<noteq> None \<or> ps = []"
  shows "mset (mpq_queue (ps_queue (poll_body dbc (mock_queue clock) wid s))) = mset (mpq_queue (ps_queue s)) \<and>
     ps_running (poll_body dbc (mock_queue clock) wid s) = ps_running s"
proof -
  let ?q = "(ps_queue s)\<lparr>mpq_queue := rest\<rparr>"
  have "mpq_Dequeue ticks 0 1 (ps_queue s) = Returns (([x], None), ?q)" for ticks
    using Dequeue_nonempty [of "ps_queue s" 1 ticks 0] assms(1) by simp
  then have t: "getTaskFromQueue (mock_queue clock) (ps_queue s) = Returns (Some x, ?q)"
    by (simp add: getTaskFromQueue_def mock_queue_def)
  obtain err where "getJobData dbc (mock_queue clock) x (ps_store s, ?q)
      = (Inl err, store, snd (mpq_Enqueue x ?q))"
    using assms(2,3) by (auto simp: getJobData_def Let_def mock_queue_def mpq_Enqueue_def)
  then have "poll_body dbc (mock_queue clock) wid s =
      release_then Waiting wid (s\<lparr>ps_store := store, ps_queue := snd (mpq_Enqueue x ?q)\<rparr>)"
    using t by (simp add: poll_body_def)
  moreover have "ps_queue (release_then pc wid s') = ps_queue s'" "ps_running (release_then pc wid s') = ps_running s'"
    for pc and s' :: "('a, MockBatchPriorityQueueClient, 'b) proc_state"
    by (simp_all add: release_then_def split: go_result.splits prod.splits)
  ultimately show ?thesis using assms(1) by (simp add: Enqueue_mset)
qed

theorem failed_fetch_requeues_witness:
  "mset (mpq_queue (ps_queue (poll_body (mock_db id) (mock_queue (\<lambda>_. [])) 1
       (sample_proc\<lparr>ps_store := ([], NewMockBatchDBClient)\<rparr>)))) = {#\<lparr>jp_ID = ''a'', jp_SLO = 7\<rparr>#}"
proof -
  let ?s = "sample_proc\<lparr>ps_store := ([], NewMockBatchDBClient)\<rparr>"
  have q: "mpq_queue (ps_queue ?s) = [\<lparr>jp_ID = ''a'', jp_SLO = 7\<rparr>]" by (simp add: sample_proc_def)
  have g: "db_Get (mock_db id) [''a''] [] TagsLogicalCondNa True 0 1 (ps_store ?s)
      = (([], 0, None), ([], NewMockBatchDBClient))"
    by (simp add: mock_db_def mdb_Get_def NewMockBatchDBClient_def Let_def)
  show ?thesis using failed_fetch_requeues [OF q, of "mock_db id" "[]" 0 None] g q by simp
qed

text \<open>Whatever becomes of the lines, a job that is not aborted ends with the status
  \<open>completed\<close> in the status store, and the batch in the database stays as it was: a client that
  retrieves it never sees it complete.\<close>

theorem job_always_completed:
  assumes "0 < pc_MaxJobConcurrency cfg" and "mdb_inv (h, m)" and "mdb_look (h, m) (job_ID (h ! p)) = Some (h ! p)"
    and "p < length h"
  shows "\<exists>store' t'. processJob (mock_db ord) mock_status cfg None outcomes p ((h, m), t)
       = (Returns (fold account outcomes initial_metadata), store', t') \<and>
     mst_content t' (job_ID (h ! p)) = Some BatchStatusCompleted \<and>
     mdb_look store' = mdb_look (h, m)"
proof -
  have "map_of (mdb_jobs m) (job_ID (h ! p)) \<noteq> None" using assms(3) by (auto simp: mdb_look_def)
  then have u: "mdb_Update p (h, m) = (None, h, m\<lparr>mdb_jobs := AList.update (job_ID (h ! p)) p (mdb_jobs m)\<rparr>)"
    by (auto simp: mdb_Update_def Let_def)
  have "mdb_look (h, m\<lparr>mdb_jobs := AList.update (job_ID (h ! p)) p (mdb_jobs m)\<rparr>) = mdb_look (h, m)"
    using mdb_put(2) [OF assms(2,4)] assms(3) by (simp add: fun_upd_idem)
  then show ?thesis
    using assms(1) u
    by (simp add: processJob_def job_end_def job_begin_def set_status_def Let_def mock_db_def mock_status_def
        mst_Set_def mst_content_def AList.update_conv' StatusCompleted_def)
qed

theorem job_always_completed_witness:
  "\<exists>store' t'. processJob (mock_db id) mock_status ProcessorConfig_New None
       (replicate 3 (Answered (Inl \<lparr>ce_Category = ErrCategoryServer, ce_Message = [], ce_RawError = None\<rparr>))) 0
       (([sample_job], \<lparr>mdb_jobs = [(''a'', 0)]\<rparr>), NewMockBatchStatusClient)
       = (Returns \<lparr>rm_Total = 3, rm_Succeeded = 0, rm_Failed = 3\<rparr>, store', t') \<and>
     mst_content t' ''a'' = Some BatchStatusCompleted"
  using job_always_completed [of ProcessorConfig_New "[sample_job]" "\<lparr>mdb_jobs = [(''a'', 0)]\<rparr>" 0 id
      "replicate 3 (Answered (Inl \<lparr>ce_Category = ErrCategoryServer, ce_Message = [], ce_RawError = None\<rparr>))"
      NewMockBatchStatusClient] sample_store
  by (auto simp: sample_proc_def ProcessorConfig_New_def sample_job_def initial_metadata_def job_lines_def
      numeral_3_eq_3)

text \<open>With the HTTP inference client every line of a job fails, because the request each line
  sends has no endpoint: three failures of three lines (and the job still ends as \<open>completed\<close>).\<close>

theorem every_line_fails:
  "fold account (replicate 3 (Answered (Generate post ctxErr (Some mockRequest)))) initial_metadata
     = \<lparr>rm_Total = 3, rm_Succeeded = 0, rm_Failed = 3\<rparr>"
  by (simp add: Generate_def mockRequest_def initial_metadata_def job_lines_def numeral_3_eq_3)

end
