(* ===== verification/JobSteps.thy ===== *)
theory JobSteps
  imports Processor
begin

text \<open>
  \<open>processJob\<close> (\<open>internal/processor/worker/worker.go\<close>) one store call at a time. A \<open>job_phase\<close> is the
  place a worker's goroutine has come to: between two of its calls of the status store and the
  database, or in the middle of its lines, whose steps are those of \<open>JobRun\<close>. \<open>processJob_as_steps\<close>
  puts the calls together again.
\<close>

section \<open>Phases\<close>

datatype job_phase =
    Taken
  | Begun
  | Working job_state
  | Closing job_state
  | Stored job_state
  | Ended "JobResultMetadata go_result"

type_synonym ('d, 't) job_stores = "(heap \<times> 'd) \<times> 't"

text \<open>The object of the job is read through its pointer at every call.\<close>

definition phase_status :: "'t status_client \<Rightarrow> ptr \<Rightarrow> bytes \<Rightarrow> ('d, 't) job_stores \<Rightarrow> ('d, 't) job_stores" where
  "phase_status scl p st = (\<lambda>(store, t). (store, set_status scl (job_ID (fst store ! p)) st t))"

inductive phase_step ::
  "'d db_client \<Rightarrow> 't status_client \<Rightarrow> ProcessorConfig \<Rightarrow> ptr
    \<Rightarrow> job_phase \<times> ('d, 't) job_stores \<Rightarrow> job_phase \<times> ('d, 't) job_stores \<Rightarrow> bool"
  for dbc scl cfg p where
  begin_job: "phase_step dbc scl cfg p (Taken, s) (Begun, phase_status scl p StatusInProgress s)"
| validate: "0 \<le> pc_MaxJobConcurrency cfg \<Longrightarrow>
     phase_step dbc scl cfg p (Begun, s) (Working job_start, phase_status scl p StatusValidating s)"
| no_semaphore: "pc_MaxJobConcurrency cfg < 0 \<Longrightarrow>
     phase_step dbc scl cfg p (Begun, s) (Ended (Panics ''makechan: size out of range''), phase_status scl p StatusValidating s)"
| line: "some_job_step (pc_MaxJobConcurrency cfg) js js' \<Longrightarrow>
     phase_step dbc scl cfg p (Working js, s) (Working js', s)"
| give_up: "js_pc js = Aborted \<Longrightarrow> phase_step dbc scl cfg p (Working js, s) (Ended (Returns (js_metadata js)), s)"
| finalize: "js_pc js = Finished \<Longrightarrow>
     phase_step dbc scl cfg p (Working js, s) (Closing js, phase_status scl p StatusFinalizing s)"
| store: "phase_step dbc scl cfg p (Closing js, (st, t)) (Stored js, (snd (db_Update dbc p st), t))"
| complete: "phase_step dbc scl cfg p (Stored js, s)
     (Ended (Returns (js_metadata js)), phase_status scl p StatusCompleted s)"

inductive_cases phase_stepE: "phase_step dbc scl cfg p (ph, s) (ph', s')"

lemma Update_keeps_heap [simp]: "fst (snd (db_Update (mock_db ord) p s)) = fst s"
  by (auto simp: mock_db_def mdb_Update_def Let_def split: prod.split)

section \<open>A worker that is alone\<close>

text \<open>What the stores have become at each phase, from the state \<open>(st, t)\<close> in which the job was taken.\<close>

definition lines_done :: "int \<Rightarrow> job_state \<Rightarrow> bool" where
  "lines_done n js \<longleftrightarrow> 0 < n \<and> (some_job_step n)\<^sup>*\<^sup>* job_start js \<and> js_pc js = Finished"

fun phase_at ::
  "'d db_client \<Rightarrow> 't status_client \<Rightarrow> ProcessorConfig \<Rightarrow> ptr \<Rightarrow> heap \<times> 'd \<Rightarrow> 't \<Rightarrow> job_phase \<times> ('d, 't) job_stores \<Rightarrow> bool" where
  "phase_at dbc scl cfg p st t (Taken, s) \<longleftrightarrow> s = (st, t)"
| "phase_at dbc scl cfg p st t (Begun, s) \<longleftrightarrow> s = phase_status scl p StatusInProgress (st, t)"
| "phase_at dbc scl cfg p st t (Working js, s) \<longleftrightarrow>
     s = (st, job_begin scl (job_ID (fst st ! p)) t) \<and> 0 \<le> pc_MaxJobConcurrency cfg \<and>
     (some_job_step (pc_MaxJobConcurrency cfg))\<^sup>*\<^sup>* job_start js"
| "phase_at dbc scl cfg p st t (Closing js, s) \<longleftrightarrow>
     s = phase_status scl p StatusFinalizing (st, job_begin scl (job_ID (fst st ! p)) t) \<and>
     lines_done (pc_MaxJobConcurrency cfg) js"
| "phase_at dbc scl cfg p st t (Stored js, s) \<longleftrightarrow>
     s = (snd (db_Update dbc p st), set_status scl (job_ID (fst st ! p)) StatusFinalizing (job_begin scl (job_ID (fst st ! p)) t)) \<and>
     lines_done (pc_MaxJobConcurrency cfg) js"
| "phase_at dbc scl cfg p st t (Ended r, s) \<longleftrightarrow>
     r \<noteq> Blocks \<and>
     (\<exists>ends_at os. processJob dbc scl cfg ends_at os p (st, t) = (r, s) \<and>
        length os \<le> length job_lines \<and> (ends_at = None \<and> r \<noteq> Panics ''makechan: size out of range'' \<longrightarrow>
          length os = length job_lines))"

lemma finished_concurrency:
  assumes "(some_job_step n)\<^sup>*\<^sup>* job_start js" and "js_pc js = Finished"
  shows "0 < n"
proof (rule ccontr)
  assume "\<not> 0 < n"
  have "js_unread js = job_lines \<and> js_inflight js = [] \<and> js_pc js \<in> {Reading, Aborted}"
    using assms(1)
  proof (induction rule: rtranclp_induct)
    case base
    then show ?case by (simp add: job_start_def)
  next
    case (step y z)
    then show ?case using \<open>\<not> 0 < n\<close>
      by (auto simp: some_job_step_def job_lines_def elim!: job_stepE)
  qed
  then show False using assms(2) by simp
qed

lemma phase_step_at:
  assumes "phase_step dbc scl cfg p x y" and "phase_at dbc scl cfg p st t x"
    and ids: "\<And>s. job_ID (fst (snd (db_Update dbc p s)) ! p) = job_ID (fst s ! p)"
  shows "phase_at dbc scl cfg p st t y"
  using assms(1,2)
proof (induction rule: phase_step.induct)
  case (validate s)
  then show ?case by (simp add: phase_status_def job_begin_def)
next
  case (no_semaphore s)
  then have "processJob dbc scl cfg None [] p (st, t)
      = (Panics ''makechan: size out of range'', phase_status scl p StatusValidating s)"
    by (simp add: processJob_def phase_status_def job_begin_def)
  then show ?case unfolding phase_at.simps by (intro conjI exI) auto
next
  case (line js js' s)
  then show ?case by (auto intro: rtranclp.rtrancl_into_rtrancl)
next
  case (give_up js s)
  then have "job_inv (pc_MaxJobConcurrency cfg) js" by (auto intro: job_run_inv)
  then have "length (js_outcomes js) \<le> length job_lines"
    "js_metadata js = fold account (js_outcomes js) initial_metadata" by (simp_all add: job_inv_def)
  moreover have "processJob dbc scl cfg (Some 0) (js_outcomes js) p (st, t)
      = (Returns (fold account (js_outcomes js) initial_metadata), s)"
    using give_up by (simp add: processJob_def)
  ultimately show ?case unfolding phase_at.simps by (intro conjI exI) auto
next
  case (finalize js s)
  then show ?case using finished_concurrency by (auto simp: lines_done_def)
next
  case (store s t')
  then show ?case by (auto simp: phase_status_def)
next
  case (complete js s)
  then have inv: "0 < pc_MaxJobConcurrency cfg" "js_pc js = Finished" "job_inv (pc_MaxJobConcurrency cfg) js"
    by (auto simp: lines_done_def intro: job_run_inv)
  then have "length (js_outcomes js) = length job_lines"
    "js_metadata js = fold account (js_outcomes js) initial_metadata" by (auto simp: job_inv_def)
  moreover have "processJob dbc scl cfg None (js_outcomes js) p (st, t)
    = (Returns (fold account (js_outcomes js) initial_metadata), phase_status scl p StatusCompleted s)"
    using complete inv(1) ids [of st]
    by (auto simp: processJob_def job_end_def phase_status_def Let_def split: prod.split)
  ultimately show ?case unfolding phase_at.simps by (intro conjI exI) auto
qed simp_all

lemma phase_run_at:
  assumes "(phase_step dbc scl cfg p)\<^sup>*\<^sup>* x y" and "phase_at dbc scl cfg p st t x"
    and ids: "\<And>s. job_ID (fst (snd (db_Update dbc p s)) ! p) = job_ID (fst s ! p)"
  shows "phase_at dbc scl cfg p st t y"
  using assms(1,2) by (induction rule: rtranclp_induct) (auto intro: phase_step_at [OF _ _ ids])

text \<open>C19: a worker whose job is cut at its calls of the stores, with its lines running concurrently,
  does what \<open>processJob\<close> does: when it has ended, the result and the stores are those \<open>processJob\<close>
  gives, for some outcomes of the lines, all three of them unless the job was aborted or could not
  make its semaphore.\<close>

theorem processJob_as_steps:
  assumes "(phase_step (mock_db ord) scl cfg p)\<^sup>*\<^sup>* (Taken, s) (Ended r, s')"
  shows "\<exists>ends_at os. processJob (mock_db ord) scl cfg ends_at os p s = (r, s') \<and> r \<noteq> Blocks \<and>
     length os \<le> length job_lines \<and>
     (ends_at \<noteq> None \<or> pc_MaxJobConcurrency cfg < 0 \<or>
        0 < pc_MaxJobConcurrency cfg \<and> length os = length job_lines)"
proof -
  obtain st t where s: "s = (st, t)" by fastforce
  have "phase_at (mock_db ord) scl cfg p st t (Ended r, s')"
    by (rule phase_run_at [OF assms]) (simp_all add: s)
  then obtain ends_at os where run: "processJob (mock_db ord) scl cfg ends_at os p s = (r, s')"
    "r \<noteq> Blocks" "length os \<le> length job_lines"
    "ends_at = None \<and> r \<noteq> Panics ''makechan: size out of range'' \<longrightarrow> length os = length job_lines"
    by (auto simp: s)
  moreover have "r \<noteq> Panics ''makechan: size out of range'' \<or> pc_MaxJobConcurrency cfg < 0"
    using run(1) by (auto simp: processJob_def Let_def split: prod.splits option.splits if_splits)
  moreover have "ends_at \<noteq> None \<or> pc_MaxJobConcurrency cfg \<noteq> 0"
    using run(1,2) by (auto simp: processJob_def Let_def split: prod.splits option.splits if_splits)
  ultimately show ?thesis by (intro exI [of _ ends_at] exI [of _ os]) auto
qed

lemma lines_rtranclp:
  "(job_step (pc_MaxJobConcurrency cfg) live)\<^sup>*\<^sup>* js js' \<Longrightarrow>
     (phase_step dbc scl cfg p)\<^sup>*\<^sup>* (Working js, s) (Working js', s)"
proof (induction rule: rtranclp_induct)
  case (step y z)
  have "some_job_step (pc_MaxJobConcurrency cfg) y z"
    using step(2) by (cases live) (auto simp: some_job_step_def)
  then show ?case using step(3) phase_step.line by (metis rtranclp.rtrancl_into_rtrancl)
qed simp

definition sample_stores :: "(MockBatchDBClient, MockBatchStatusClient) job_stores" where
  "sample_stores = (ps_store sample_proc, NewMockBatchStatusClient)"

abbreviation one_at_a_time :: ProcessorConfig where
  "one_at_a_time \<equiv> ProcessorConfig_New\<lparr>pc_MaxJobConcurrency := 1\<rparr>"

lemma sample_phases:
  "\<exists>r u. (phase_step (mock_db ord) scl one_at_a_time p)\<^sup>*\<^sup>* (Taken, s) (Ended r, phase_status scl p StatusCompleted u) \<and>
     fst (fst u) = fst (fst s)"
proof -
  let ?step = "phase_step (mock_db ord) scl one_at_a_time p"
  obtain js where js: "(job_step 1 True)\<^sup>*\<^sup>* job_start js" "js_pc js = Finished" using three_lines by blast
  let ?s1 = "phase_status scl p StatusInProgress s"
  let ?s2 = "phase_status scl p StatusValidating ?s1"
  let ?s3 = "phase_status scl p StatusFinalizing ?s2"
  obtain st t where s3: "?s3 = (st, t)" by fastforce
  let ?s4 = "(snd (db_Update (mock_db ord) p st), t)"
  have "fst ?s3 = fst s" by (simp add: phase_status_def split: prod.split)
  then have heap: "fst (fst ?s4) = fst (fst s)" using s3 by simp
  have "?step\<^sup>*\<^sup>* (Taken, s) (Begun, ?s1)" by (rule r_into_rtranclp) (rule phase_step.begin_job)
  also have "?step (Begun, ?s1) (Working job_start, ?s2)" by (rule phase_step.validate) simp
  also have "?step\<^sup>*\<^sup>* (Working job_start, ?s2) (Working js, ?s2)"
    by (rule lines_rtranclp [where live = True]) (use js(1) in simp)
  also have "?step (Working js, ?s2) (Closing js, ?s3)" by (rule phase_step.finalize [OF js(2)])
  also have "?step (Closing js, ?s3) (Stored js, ?s4)" unfolding s3 by (rule phase_step.store)
  also have "?step (Stored js, ?s4) (Ended (Returns (js_metadata js)), phase_status scl p StatusCompleted ?s4)"
    by (rule phase_step.complete)
  finally show ?thesis using heap by blast
qed

theorem processJob_as_steps_witness:
  "\<exists>ends_at os r s'. (phase_step (mock_db id) mock_status one_at_a_time 0)\<^sup>*\<^sup>* (Taken, sample_stores) (Ended r, s') \<and>
     processJob (mock_db id) mock_status one_at_a_time ends_at os 0 sample_stores = (r, s')"
proof -
  obtain r s' where run:
    "(phase_step (mock_db id) mock_status one_at_a_time 0)\<^sup>*\<^sup>* (Taken, sample_stores) (Ended r, s')"
    using sample_phases by blast
  show ?thesis using processJob_as_steps [OF run] run by blast
qed

end
