(* ===== verification/System.thy ===== *)
theory System
  imports Interleaving JobSteps
begin

text \<open>
  The two halves of the gateway together, on one set of in-memory stores: requests of the Batch API
  that overlap in any way (\<open>Interleaving\<close>), the polling loop of the processor (\<open>Processor\<close>), and its
  workers, each at some call of its job or at some step of its lines (\<open>JobSteps\<close>). Any of them may
  take the next step. A turn of the loop is one step here; \<^verbatim>\<open>WholeSystem\<close> cuts it at its two calls.
\<close>

section \<open>State and steps\<close>

record system =
  sy_acts :: "activity list"
  sy_events :: MockBatchEventChannelClient
  sy_proc :: "(MockBatchDBClient, MockBatchPriorityQueueClient, MockBatchStatusClient) proc_state"
  sy_phase :: "int \<Rightarrow> job_phase"

text \<open>What the handlers of the API see of it, and the state they leave.\<close>

definition api_world :: "system \<Rightarrow> mock_world" where
  "api_world sy = \<lparr>w_store = ps_store (sy_proc sy), w_queue = ps_queue (sy_proc sy), w_events = sy_events sy\<rparr>"

definition put_world :: "mock_world \<Rightarrow> system \<Rightarrow> system" where
  "put_world w sy =
     sy\<lparr>sy_proc := (sy_proc sy)\<lparr>ps_store := w_store w, ps_queue := w_queue w\<rparr>, sy_events := w_events w\<rparr>"

definition system_start :: "ProcessorConfig \<Rightarrow> system go_result" where
  "system_start pcfg =
     (case NewProcessor pcfg ([], NewMockBatchDBClient) NewMockBatchPriorityQueueClient NewMockBatchStatusClient of
        Returns p \<Rightarrow> Returns \<lparr>sy_acts = [], sy_events = NewMockBatchEventChannelClient, sy_proc = p, sy_phase = \<lambda>_. Taken\<rparr>
      | Panics msg \<Rightarrow> Panics msg
      | Blocks \<Rightarrow> Blocks)"

text \<open>The steps beside the loop, of requests and of workers.\<close>

inductive side_step :: "ServerConfig \<Rightarrow> ProcessorConfig \<Rightarrow> system \<Rightarrow> system \<Rightarrow> bool" for scfg pcfg where
  create_arrives: "mdb_look (ps_store (sy_proc sy)) (batch_id uuid) = None \<Longrightarrow>
     batch_id uuid \<notin> claimed (sy_acts sy) \<Longrightarrow> int64_ok (Unix now1) \<Longrightarrow>
     side_step scfg pcfg sy (sy\<lparr>sy_acts := sy_acts sy @ [Creating uuid now1 now2 rq]\<rparr>)"
| cancel_arrives: "int64_ok (Unix now) \<Longrightarrow>
     side_step scfg pcfg sy (sy\<lparr>sy_acts := sy_acts sy @ [Canceling now rq]\<rparr>)"
| request_proceeds: "sy_acts sy = before @ a # after \<Longrightarrow>
     activity_step (mock_handler scfg ord clock obs) new_writer a (api_world sy) = (a', w) \<Longrightarrow>
     side_step scfg pcfg sy ((put_world w sy)\<lparr>sy_acts := before @ a' # after\<rparr>)"
| worker_works: "loop_alive (ps_pc (sy_proc sy)) \<Longrightarrow> (wid, p) \<in> set (ps_running (sy_proc sy)) \<Longrightarrow>
     phase_step (mock_db ord) mock_status pcfg p
       (sy_phase sy wid, ps_store (sy_proc sy), ps_status (sy_proc sy)) (ph, store, status) \<Longrightarrow>
     side_step scfg pcfg sy
       (sy\<lparr>sy_proc := (sy_proc sy)\<lparr>ps_store := store, ps_status := status\<rparr>,
           sy_phase := (sy_phase sy)(wid := ph)\<rparr>)"
| worker_ends: "loop_alive (ps_pc (sy_proc sy)) \<Longrightarrow> ps_running (sy_proc sy) = before @ (wid, p) # after \<Longrightarrow>
     sy_phase sy wid = Ended r \<Longrightarrow>
     side_step scfg pcfg sy
       (sy\<lparr>sy_proc := release_then (ps_pc (sy_proc sy)) wid ((sy_proc sy)\<lparr>ps_running := before @ after\<rparr>)\<rparr>)"

inductive sys_step :: "ServerConfig \<Rightarrow> ProcessorConfig \<Rightarrow> system \<Rightarrow> system \<Rightarrow> bool" for scfg pcfg where
  beside: "side_step scfg pcfg sy sy' \<Longrightarrow> sys_step scfg pcfg sy sy'"
| loop_stops: "ps_pc (sy_proc sy) \<in> {Waiting, Sleeping} \<Longrightarrow>
     sys_step scfg pcfg sy (sy\<lparr>sy_proc := (sy_proc sy)\<lparr>ps_pc := Stopped\<rparr>\<rparr>)"
| loop_wakes: "ps_pc (sy_proc sy) = Sleeping \<Longrightarrow>
     sys_step scfg pcfg sy (sy\<lparr>sy_proc := (sy_proc sy)\<lparr>ps_pc := Waiting\<rparr>\<rparr>)"
| loop_takes: "ps_pc (sy_proc sy) = Waiting \<Longrightarrow> wp_workerIds (ps_pool (sy_proc sy)) = wid # ids \<Longrightarrow>
     sys_step scfg pcfg sy
       (sy\<lparr>sy_proc := poll_body (mock_db ord) (mock_queue clock) wid
             ((sy_proc sy)\<lparr>ps_pool := (ps_pool (sy_proc sy))\<lparr>wp_workerIds := ids\<rparr>\<rparr>),
           sy_phase := (sy_phase sy)(wid := Taken)\<rparr>)"

section \<open>Accounts of the batches\<close>

text \<open>
  Where a batch can be: stored (\<open>D\<close>, with its status \<open>V\<close>), in the queue (\<open>Q\<close>), in the hands of a
  create request that has yet to queue it (\<open>C\<close>), of a worker (\<open>B\<close>), known to the status store (\<open>G\<close>)
  because a worker has begun it, and waiting for the write of a cancellation (\<open>U\<close>) that took it out
  of the queue (\<open>R\<close>).
\<close>

definition accounts ::
  "string set \<Rightarrow> (string \<Rightarrow> string option) \<Rightarrow> string set \<Rightarrow> string set \<Rightarrow> string set \<Rightarrow> string set
    \<Rightarrow> string set \<Rightarrow> string set \<Rightarrow> bool" where
  "accounts D V Q C B G R U \<longleftrightarrow>
     Q \<union> B \<union> G \<union> R \<union> U \<subseteq> D \<and> dom V = D \<and> Q \<inter> C = {} \<and> (B \<union> G) \<inter> (Q \<union> C) = {} \<and> R \<inter> (Q \<union> C \<union> B \<union> G) = {} \<and>
     ran V \<subseteq> {BatchStatusValidating, BatchStatusCancelling, BatchStatusCancelled} \<and>
     (\<forall>k. V k = Some BatchStatusCancelled \<longrightarrow> k \<notin> Q \<union> C \<union> B \<union> G) \<and>
     (\<forall>k. V k = Some BatchStatusValidating \<longrightarrow> k \<in> Q \<union> C \<union> B \<union> G \<union> U)"

fun updates :: "activity \<Rightarrow> string set" where
  "updates (Updating p b) = {b_ID b}"
| "updates _ = {}"

fun removals :: "activity \<Rightarrow> string set" where
  "removals (Updating p b) = (if st_Status (b_Status b) = BatchStatusCancelled then {b_ID b} else {})"
| "removals _ = {}"

definition ptrs :: "heap \<times> MockBatchDBClient \<Rightarrow> string \<Rightarrow> ptr option" where
  "ptrs st = map_of (mdb_jobs (snd st))"

definition status_at :: "heap \<times> MockBatchDBClient \<Rightarrow> string \<Rightarrow> string option" where
  "status_at st k =
     (case mdb_look st k of
        None \<Rightarrow> None
      | Some j \<Rightarrow> (case jobToBatch j of Inl _ \<Rightarrow> None | Inr b \<Rightarrow> Some (st_Status (b_Status b))))"

abbreviation queued_ids :: "MockBatchPriorityQueueClient \<Rightarrow> string set" where
  "queued_ids q \<equiv> jp_ID ` set (mpq_queue q)"

definition job_at :: "heap \<times> 'd \<Rightarrow> ptr \<Rightarrow> string" where
  "job_at st p = job_ID (fst st ! p)"

text \<open>An activity that holds a pointer holds the one that is stored.\<close>

fun owns :: "(string \<Rightarrow> ptr option) \<Rightarrow> activity \<Rightarrow> bool" where
  "owns P (Removing now k p b) \<longleftrightarrow> P k = Some p"
| "owns P (Sending now k p b) \<longleftrightarrow> P k = Some p"
| "owns P (Updating p b) \<longleftrightarrow> P (b_ID b) = Some p \<and>
     st_Status (b_Status b) \<in> {BatchStatusCancelled, BatchStatusCancelling}"
| "owns P _ \<longleftrightarrow> True"

text \<open>The effect of one step of a request on these accounts.\<close>

inductive act_effect ::
  "activity \<Rightarrow> heap \<times> MockBatchDBClient \<Rightarrow> string set \<Rightarrow> activity \<Rightarrow> heap \<times> MockBatchDBClient \<Rightarrow> string set \<Rightarrow> bool"
where
  quiet: "ptrs st' = ptrs st \<Longrightarrow> status_at st' = status_at st \<Longrightarrow> updates a = {} \<Longrightarrow> removals a' = {} \<Longrightarrow>
     owns (ptrs st') a' \<Longrightarrow> claims a' = [] \<Longrightarrow> set (claims a) \<inter> dom (ptrs st) = {} \<Longrightarrow> updates a' \<subseteq> dom (ptrs st) \<Longrightarrow>
     act_effect a st Q a' st' Q"
| stores: "ptrs st k = None \<Longrightarrow> ptrs st' = (ptrs st)(k \<mapsto> p) \<Longrightarrow>
     status_at st' = (status_at st)(k \<mapsto> BatchStatusValidating) \<Longrightarrow>
     claims a = [k] \<Longrightarrow> updates a = {} \<Longrightarrow> jp_ID x = k \<Longrightarrow>
     act_effect a st Q (Enqueueing x b) st' Q"
| queues: "jp_ID x \<in> dom (ptrs st) \<Longrightarrow>
     act_effect (Enqueueing x b) st Q (activity.Finished res) st (insert (jp_ID x) Q)"
| removes: "k \<in> Q \<Longrightarrow> ptrs st k = Some p \<Longrightarrow> b_ID b' = k \<Longrightarrow> st_Status (b_Status b') = BatchStatusCancelled \<Longrightarrow>
     act_effect (Removing now k p b) st Q (Updating p b') st (Q - {k})"
| marks: "ptrs st' = ptrs st \<Longrightarrow> status_at st' = (status_at st)(b_ID b \<mapsto> st_Status (b_Status b)) \<Longrightarrow>
     act_effect (Updating p b) st Q (activity.Finished res) st' Q"

lemma mdb_look_ptrs: "mdb_look st k = map_option (\<lambda>p. fst st ! p) (ptrs st k)"
  by (simp add: mdb_look_def ptrs_def)

lemma owns_kept: "owns P a \<Longrightarrow> P \<subseteq>\<^sub>m P' \<Longrightarrow> owns P' a"
  by (cases a) (auto simp: map_le_def dom_def)

lemma status_at_carries: "mdb_look st k = Some j \<Longrightarrow> carries j b \<Longrightarrow> status_at st k = Some (st_Status (b_Status b))"
  by (simp add: status_at_def jobToBatch_carries)

lemma status_at_look: "mdb_look st' = mdb_look st \<Longrightarrow> status_at st' = status_at st"
  by (simp add: status_at_def fun_eq_iff)

lemma status_at_upd:
  "mdb_look st' = (mdb_look st)(k \<mapsto> j) \<Longrightarrow> carries j b \<Longrightarrow> status_at st' = (status_at st)(k \<mapsto> st_Status (b_Status b))"
  by (simp add: status_at_def fun_eq_iff jobToBatch_carries)

lemma create_effect_on:
  assumes s: "conc.base_ok w" and a: "mdb_look (w_store w) (batch_id uuid) = None" "int64_ok (Unix now1)"
    and call: "activity_step (mock_handler scfg ord clock obs) new_writer (Creating uuid now1 now2 rq) w = (a', w')"
  shows "act_effect (Creating uuid now1 now2 rq) (w_store w) (queued_ids (w_queue w)) a' (w_store w') (queued_ids (w_queue w'))"
proof (rule Creating_total [of "mock_handler scfg ord clock obs" new_writer uuid now1 now2 rq w])
  fix res
  assume "activity_step (mock_handler scfg ord clock obs) new_writer (Creating uuid now1 now2 rq) w = (activity.Finished res, w)"
  moreover have "ptrs (w_store w) (batch_id uuid) = None" using a(1) by (simp add: mdb_look_ptrs)
  ultimately show ?thesis using call by (auto intro!: act_effect.quiet simp del: activity_step.simps)
next
  fix r d
  assume r: "decode_request (rq_Body rq) = Some (Some r)" "valid_request r"
    "ParseDuration (cr_CompletionWindow r) = Some d"
  define job where "job = created_job scfg uuid now1 now2 r d"
  obtain h m where hm: "w_store w = (h, m)" by fastforce
  let ?k = "batch_id uuid"
  let ?m = "m\<lparr>mdb_jobs := AList.update ?k (length h) (mdb_jobs m)\<rparr>"
  have v: "CreateBatchRequest_Validate (Some r) = Returns None" using r(2) by (simp add: Validate_accepts)
  have run: "a' = Enqueueing \<lparr>jp_ID = ?k, jp_SLO = now2 + d\<rparr> (created_batch uuid now1 r)"
    "w' = w\<lparr>w_store := (h @ [job], ?m)\<rparr>"
    using call by (auto simp: r v hm mock_db_def mdb_Store_def Let_def job_def created_job_def created_batch_def)
  have inv: "mdb_inv (h, m)" using s hm by (simp add: conc.base_ok_def)
  have new: "ptrs (h, m) ?k = None" using a(1) hm by (simp add: mdb_look_ptrs)
  have p: "ptrs (h @ [job], ?m) = (ptrs (h, m))(?k \<mapsto> length h)"
    by (simp add: ptrs_def AList.update_conv')
  have "mdb_look (h @ [job], ?m) = (mdb_look (h @ [job], m))(?k \<mapsto> job)"
    using mdb_put(2) [OF mdb_alloc(1) [OF inv], of "length h" job] by (simp add: job_def)
  then have look: "mdb_look (h @ [job], ?m) = (mdb_look (h, m))(?k \<mapsto> job)"
    using mdb_alloc(2) [OF inv] by simp
  have "carries job (created_batch uuid now1 r)"
    unfolding job_def by (rule carries_created [OF decode_request_strings_ok [OF r(1)] a(2)])
  from status_at_upd [OF look this]
  have "status_at (h @ [job], ?m) = (status_at (h, m))(?k \<mapsto> BatchStatusValidating)"
    by (simp add: created_batch_def create_status_def)
  then show ?thesis using new p unfolding run by (auto simp: hm intro!: act_effect.stores)
qed

lemma cancel_effect_on:
  assumes s: "conc.base_ok w"
    and call: "activity_step (mock_handler scfg ord clock obs) new_writer (Canceling now rq) w = (a', w')"
  shows "act_effect (Canceling now rq) (w_store w) (queued_ids (w_queue w)) a' (w_store w') (queued_ids (w_queue w'))"
proof -
  have "w' = w \<and> updates a' = {} \<and> removals a' = {} \<and> claims a' = [] \<and> owns (ptrs (w_store w)) a'"
  proof (cases "map_of (mdb_jobs (snd (w_store w))) (PathValue rq ''batch_id'')")
    case None
    then show ?thesis using call by (auto simp: mock_get_id Let_def split: if_splits)
  next
    case (Some p)
    then show ?thesis using call
      by (auto simp: mock_get_id Let_def ptrs_def split: if_splits sum.splits)
  qed
  then show ?thesis by (auto intro: act_effect.quiet)
qed

lemma queue_effect_on:
  assumes stored: "mdb_look (w_store w) (jp_ID x) \<noteq> None"
    and call: "activity_step (mock_handler scfg ord clock obs) new_writer (Enqueueing x b) w = (a', w')"
  shows "act_effect (Enqueueing x b) (w_store w) (queued_ids (w_queue w)) a' (w_store w') (queued_ids (w_queue w'))"
proof -
  have "set (mpq_queue (snd (mpq_Enqueue x (w_queue w)))) = insert x (set (mpq_queue (w_queue w)))"
    using Enqueue_mset [of x "w_queue w"] by (metis set_mset_add_mset_insert set_mset_mset)
  then have "queued_ids (w_queue w') = insert (jp_ID x) (queued_ids (w_queue w))" "w_store w' = w_store w"
    "\<exists>res. a' = activity.Finished res"
    using call by (auto simp: mock_queue_def mpq_Enqueue_def split: prod.splits if_splits)
  moreover have "jp_ID x \<in> dom (ptrs (w_store w))" using stored by (auto simp: mdb_look_ptrs)
  ultimately show ?thesis by (auto intro: act_effect.queues)
qed

lemma remove_effect_on:
  assumes s: "conc.base_ok w" and owned: "ptrs (w_store w) k = Some p" and id: "b_ID b = k"
    and call: "activity_step (mock_handler scfg ord clock obs) new_writer (Removing now k p b) w = (a', w')"
  shows "act_effect (Removing now k p b) (w_store w) (queued_ids (w_queue w)) a' (w_store w') (queued_ids (w_queue w'))"
proof -
  obtain n q where q: "remove_first k (mpq_queue (w_queue w)) = (n, q)" by fastforce
  have dist: "distinct (map jp_ID (mpq_queue (w_queue w)))" using s by (simp add: conc.base_ok_def queued_ok_def)
  note spec = remove_first_spec [OF q]
  have run: "w_store w' = w_store w" "mpq_queue (w_queue w') = q"
    "a' = (if 0 < n then Updating p (mark_cancelled now b) else Sending now k p b)"
    using call q by (auto simp: mock_queue_def mpq_Remove_def Let_def split: if_splits)
  show ?thesis
  proof (cases "0 < n")
    case True
    have "filter (\<lambda>x. jp_ID x \<noteq> k) q = filter (\<lambda>x. jp_ID x \<noteq> k) (mpq_queue (w_queue w))" using spec by simp
    moreover have "\<forall>x \<in> set q. jp_ID x \<noteq> k" using spec True dist by auto
    ultimately have "q = filter (\<lambda>x. jp_ID x \<noteq> k) (mpq_queue (w_queue w))" by (simp add: filter_True)
    then have "queued_ids (w_queue w') = queued_ids (w_queue w) - {k}" using run(2) by auto
    moreover have "k \<in> queued_ids (w_queue w)" using spec True by auto
    ultimately show ?thesis using True owned id unfolding run(1,3) by (auto intro!: act_effect.removes)
  next
    case False
    then have "queued_ids (w_queue w') = queued_ids (w_queue w)" using spec run(2) by simp
    then show ?thesis using False owned unfolding run(1,3) by (auto intro!: act_effect.quiet)
  qed
qed

lemma send_effect_on:
  assumes owned: "ptrs (w_store w) k = Some p" and id: "b_ID b = k"
    and call: "activity_step (mock_handler scfg ord clock obs) new_writer (Sending now k p b) w = (a', w')"
  shows "act_effect (Sending now k p b) (w_store w) (queued_ids (w_queue w)) a' (w_store w') (queued_ids (w_queue w'))"
proof -
  have "w_store w' = w_store w \<and> w_queue w' = w_queue w \<and>
      (a' = Updating p (mark_cancelling now b) \<or> (\<exists>res. a' = activity.Finished res))"
    using call by (auto simp: Let_def split: go_result.splits if_splits)
  then show ?thesis using owned id
    by (auto intro!: act_effect.quiet simp: BatchStatusCancelling_def BatchStatusCancelled_def)
qed

lemma update_effect_on:
  assumes s: "conc.base_ok w" and owned: "ptrs (w_store w) (b_ID b) = Some p"
    and held: "held (mdb_look (w_store w)) (fst (w_store w)) (b_ID b) p b"
    and call: "activity_step (mock_handler scfg ord clock obs) new_writer (Updating p b) w = (a', w')"
  shows "act_effect (Updating p b) (w_store w) (queued_ids (w_queue w)) a' (w_store w') (queued_ids (w_queue w'))"
proof -
  obtain h m where hm: "w_store w = (h, m)" by fastforce
  let ?k = "b_ID b" and ?v = "jprint (enc_BatchStatusInfo (b_Status b))"
  let ?h = "h[p := (h ! p)\<lparr>job_Status := ?v\<rparr>]"
  have inv: "mdb_inv (h, m)" using s hm by (simp add: conc.base_ok_def)
  have m: "map_of (mdb_jobs m) ?k = Some p" using owned hm by (simp add: ptrs_def)
  have p: "p < length h" "job_ID (h ! p) = ?k" using mdb_inv_entry [OF inv, of ?k p] m by auto
  let ?m = "m\<lparr>mdb_jobs := AList.update ?k p (mdb_jobs m)\<rparr>"
  have run: "\<exists>res. a' = activity.Finished res" "w' = w\<lparr>w_store := (?h, ?m)\<rparr>"
    using call m p by (auto simp: update_status_def mock_db_def mdb_Update_def Let_def hm split: if_splits)
  have pt: "ptrs (?h, ?m) = ptrs (h, m)" using m by (simp add: ptrs_def AList.update_conv' fun_upd_idem)
  have job: "?h ! p = (h ! p)\<lparr>job_Status := ?v\<rparr>" "carries (?h ! p) b"
    using p held m by (auto simp: held_def hm mdb_look_def carries_def same_static_def)
  have "mdb_look (?h, ?m) k = ((mdb_look (h, m))(?k \<mapsto> ?h ! p)) k" for k
  proof (cases "ptrs (h, m) k")
    case (Some q)
    then have "job_ID (h ! q) = k" using mdb_inv_entry [OF inv, of k q] by (simp add: ptrs_def)
    then have "q = p \<longleftrightarrow> k = ?k" using p(2) Some m by (auto simp: ptrs_def)
    then show ?thesis using Some pt by (auto simp: mdb_look_ptrs)
  qed (use m pt in \<open>auto simp: mdb_look_ptrs ptrs_def\<close>)
  then have look: "mdb_look (?h, ?m) = (mdb_look (h, m))(?k \<mapsto> ?h ! p)" by (rule ext)
  have "status_at (?h, ?m) = (status_at (h, m))(?k \<mapsto> st_Status (b_Status b))"
    by (rule status_at_upd [OF look job(2)])
  with run pt show ?thesis by (auto simp: hm intro!: act_effect.marks)
qed

lemma act_step_effect:
  assumes s: "conc.base_ok w" and owned: "owns (ptrs (w_store w)) a"
    and ok: "activity_ok (mdb_look (w_store w)) (fst (w_store w)) (mpq_queue (w_queue w)) a"
    and call: "activity_step (mock_handler scfg ord clock obs) new_writer a w = (a', w')"
  shows "act_effect a (w_store w) (queued_ids (w_queue w)) a' (w_store w') (queued_ids (w_queue w'))"
proof (cases a)
  case (Creating uuid now1 now2 rq)
  then show ?thesis using create_effect_on [OF s] ok call by simp
next
  case (Enqueueing x b)
  then show ?thesis using queue_effect_on [of w x] ok call by auto
next
  case (Canceling now rq)
  then show ?thesis using cancel_effect_on [OF s] call by simp
next
  case (Removing now k p b)
  then show ?thesis using remove_effect_on [OF s] owned ok call by (simp add: held_def)
next
  case (Sending now k p b)
  then show ?thesis using send_effect_on owned ok call by (simp add: held_def)
next
  case (Updating p b)
  then show ?thesis using update_effect_on [OF s] owned ok call by simp
next
  case (Finished res)
  then show ?thesis using call by (auto intro: act_effect.quiet)
qed (use ok in simp)

lemma status_neq [simp]:
  "BatchStatusValidating \<noteq> BatchStatusCancelled" "BatchStatusCancelled \<noteq> BatchStatusValidating"
  "BatchStatusValidating \<noteq> BatchStatusCancelling" "BatchStatusCancelling \<noteq> BatchStatusValidating"
  "BatchStatusCancelling \<noteq> BatchStatusCancelled" "BatchStatusCancelled \<noteq> BatchStatusCancelling"
  by (simp_all add: BatchStatusValidating_def BatchStatusCancelled_def BatchStatusCancelling_def)

lemma act_effect_accounts:
  assumes "act_effect a st Q a' st' Q'"
    and "accounts (dom (ptrs st)) (status_at st) Q (set (claims a) \<union> C) B G (removals a \<union> R) (updates a \<union> U)"
    and "owns (ptrs st) a" and "set (claims a) \<inter> C = {}"
  shows "accounts (dom (ptrs st')) (status_at st') Q' (set (claims a') \<union> C) B G (removals a' \<union> R) (updates a' \<union> U)"
  using assms
proof (induction rule: act_effect.induct)
  case (quiet st' st a a' Q)
  then have "dom (status_at st) = dom (ptrs st)" by (simp add: accounts_def)
  then have "k \<notin> set (claims a)" if "status_at st k = Some v" for k v using quiet(7) that by blast
  then show ?case using quiet unfolding accounts_def by auto
next
  case (stores st k st' p a x b Q)
  then show ?case unfolding accounts_def by (auto simp: ran_def split: if_splits)
next
  case (queues x b st Q res)
  then show ?case unfolding accounts_def by auto
next
  case (removes k Q st p b' now b)
  then show ?case unfolding accounts_def by auto
next
  case (marks st' st b p Q res)
  then show ?case unfolding accounts_def by (auto simp: ran_def split: if_splits)
qed

lemma act_effect_owned:
  assumes "act_effect a st Q a' st' Q'" and "owns (ptrs st) a"
  shows "ptrs st \<subseteq>\<^sub>m ptrs st'" and "owns (ptrs st') a'"
  using assms by (induction rule: act_effect.induct) (auto simp: map_le_def)

text \<open>A batch that neither waits nor is in a worker's hands: it stays so whatever happens.\<close>

definition at_rest :: "string set \<Rightarrow> string set \<Rightarrow> string set \<Rightarrow> string set \<Rightarrow> string \<Rightarrow> bool" where
  "at_rest D Q C B k \<longleftrightarrow> k \<in> D \<and> k \<notin> Q \<union> C \<union> B"

lemma act_effect_at_rest:
  assumes "act_effect a st Q a' st' Q'" and "at_rest (dom (ptrs st)) Q (set (claims a) \<union> C) B k"
  shows "at_rest (dom (ptrs st')) Q' (set (claims a') \<union> C) B k"
  using assms by (induction rule: act_effect.induct) (auto simp: at_rest_def)

section \<open>The invariant of the system\<close>

definition busy :: "('d, 'q, 't) proc_state \<Rightarrow> string set" where
  "busy P = job_at (ps_store P) ` snd ` set (ps_running P)"

definition begun :: "('d, 'q, MockBatchStatusClient) proc_state \<Rightarrow> string set" where
  "begun P = dom (mst_content (ps_status P))"

definition sys_accounts :: "system \<Rightarrow> bool" where
  "sys_accounts sy =
     (let P = sy_proc sy; st = ps_store P
      in accounts (dom (ptrs st)) (status_at st) (queued_ids (ps_queue P)) (claimed (sy_acts sy)) (busy P) (begun P)
           (\<Union> (removals ` set (sy_acts sy))) (\<Union> (updates ` set (sy_acts sy))))"

definition sys_at_rest :: "system \<Rightarrow> string \<Rightarrow> bool" where
  "sys_at_rest sy k =
     (let P = sy_proc sy
      in at_rest (dom (ptrs (ps_store P))) (queued_ids (ps_queue P)) (claimed (sy_acts sy)) (busy P) k)"

text \<open>The status store says of it what it said before.\<close>

definition rest_kept :: "string \<Rightarrow> system \<Rightarrow> system \<Rightarrow> bool" where
  "rest_kept k sy sy' \<longleftrightarrow> sys_at_rest sy' k \<and>
     mst_content (ps_status (sy_proc sy')) k = mst_content (ps_status (sy_proc sy)) k"

lemma rest_kept_trans: "rest_kept k s s' \<Longrightarrow> rest_kept k s' s'' \<Longrightarrow> rest_kept k s s''"
  by (simp add: rest_kept_def)

text \<open>A worker holds the stored pointer of its job, no other worker has it, and the status store
  knows of the job exactly if the worker has begun it.\<close>

definition workers_ok :: "system \<Rightarrow> bool" where
  "workers_ok sy =
     (let P = sy_proc sy; st = ps_store P
      in distinct (map snd (ps_running P)) \<and>
         (\<forall>(wid, p) \<in> set (ps_running P). ptrs st (job_at st p) = Some p \<and>
            (sy_phase sy wid = Taken \<longleftrightarrow> job_at st p \<notin> begun P)))"

definition system_ok :: "int \<Rightarrow> system \<Rightarrow> bool" where
  "system_ok n sy \<longleftrightarrow>
     conc_ok mdb_look mdb_inv mpq_queue mpq_inv mev_inv (sy_acts sy, api_world sy) \<and>
     poll_inv n (sy_proc sy) \<and> (\<forall>a \<in> set (sy_acts sy). owns (ptrs (ps_store (sy_proc sy))) a) \<and>
     workers_ok sy \<and> sys_accounts sy"

lemma system_start_ok:
  assumes "system_start pcfg = Returns sy"
  shows "system_ok (pc_NumWorkers pcfg) sy"
proof -
  obtain P where P: "NewProcessor pcfg ([], NewMockBatchDBClient) NewMockBatchPriorityQueueClient NewMockBatchStatusClient = Returns P"
    and sy: "sy = \<lparr>sy_acts = [], sy_events = NewMockBatchEventChannelClient, sy_proc = P, sy_phase = \<lambda>_. Taken\<rparr>"
    using assms by (auto simp: system_start_def split: go_result.splits)
  have fields: "ps_store P = ([], NewMockBatchDBClient)" "ps_queue P = NewMockBatchPriorityQueueClient"
    "ps_status P = NewMockBatchStatusClient" "ps_running P = []"
    using P by (auto simp: NewProcessor_def split: go_result.splits)
  have w: "api_world sy = mock_world" by (simp add: sy api_world_def mock_world_def fields)
  have "conc_ok mdb_look mdb_inv mpq_queue mpq_inv mev_inv ([], mock_world)"
    using mock_world_ok by (simp add: conc_ok_def service_ok_def queued_ok_def)
      (simp add: mock_world_def NewMockBatchPriorityQueueClient_def)
  then show ?thesis
    using poll_inv_start [OF P] w
    by (simp add: system_ok_def sy workers_ok_def sys_accounts_def accounts_def fields busy_def begun_def claimed_def
        ptrs_def NewMockBatchDBClient_def NewMockBatchPriorityQueueClient_def NewMockBatchStatusClient_def
        status_at_def mdb_look_def mst_content_def dom_def ran_def)
qed

lemma claimed_split: "claimed (before @ a # after) = set (claims a) \<union> claimed (before @ after)"
  by (auto simp: claimed_def)

lemma request_step_ok:
  assumes ok: "system_ok n sy" and acts: "sy_acts sy = before @ a # after"
    and call: "activity_step (mock_handler scfg ord clock obs) new_writer a (api_world sy) = (a', w)"
  defines "sy' \<equiv> (put_world w sy)\<lparr>sy_acts := before @ a' # after\<rparr>"
  shows "system_ok n sy'" and "sys_at_rest sy k \<Longrightarrow> rest_kept k sy sy'"
proof -
  let ?P = "sy_proc sy" and ?P' = "sy_proc sy'"
  let ?st = "ps_store ?P" and ?st' = "w_store w"
  have world: "w_store (api_world sy) = ?st" "w_queue (api_world sy) = ps_queue ?P" by (simp_all add: api_world_def)
  have new: "ps_store ?P' = ?st'" "ps_queue ?P' = w_queue w" "ps_status ?P' = ps_status ?P"
    "ps_running ?P' = ps_running ?P" "sy_acts sy' = before @ a' # after" "sy_phase sy' = sy_phase sy"
    by (simp_all add: sy'_def put_world_def)
  have conc: "conc_ok mdb_look mdb_inv mpq_queue mpq_inv mev_inv (before @ a # after, api_world sy)"
    using ok acts by (simp add: system_ok_def)
  have base: "conc.base_ok (api_world sy)" "distinct (concat (map claims (before @ a # after)))"
    "activity_ok (mdb_look ?st) (fst ?st) (mpq_queue (ps_queue ?P)) a"
    using conc world by (auto simp: conc.conc_ok_base)
  have owned: "owns (ptrs ?st) a" using ok acts by (simp add: system_ok_def)
  have eff: "act_effect a ?st (queued_ids (ps_queue ?P)) a' ?st' (queued_ids (w_queue w))"
    using act_step_effect [OF base(1) _ _ call] owned base(3) by (simp add: world)
  have disj: "set (claims a) \<inter> claimed (before @ after) = {}"
    using base(2) by (auto simp: claimed_def)
  note kept = act_effect_owned [OF eff owned]
  have step: "conc_step (mock_handler scfg ord clock obs) mdb_look (before @ a # after, api_world sy) (before @ a' # after, w)"
    by (rule conc_step.proceeds [OF call])
  from conc.conc_step_ok [OF this conc]
  have conc': "conc_ok mdb_look mdb_inv mpq_queue mpq_inv mev_inv (before @ a' # after, w)" .
  have w: "api_world sy' = w" by (simp add: sy'_def put_world_def api_world_def)
  have inv: "mdb_inv ?st" "mdb_inv ?st'" using conc conc' world by (auto simp: conc_ok_def)
  have same: "job_at ?st' p = job_at ?st p" if "ptrs ?st (job_at ?st p) = Some p" for p
  proof -
    have "ptrs ?st' (job_at ?st p) = Some p" using kept(1) that by (auto simp: map_le_def dom_def)
    then show ?thesis using mdb_inv_entry [OF inv(2)] by (simp add: ptrs_def job_at_def)
  qed
  have workers: "\<forall>(wid, p) \<in> set (ps_running ?P). ptrs ?st (job_at ?st p) = Some p"
    using ok by (auto simp: system_ok_def workers_ok_def Let_def)
  have busy: "busy ?P' = busy ?P"
    unfolding busy_def new image_image using workers same by (intro image_cong) auto
  have "ptrs ?st' (job_at ?st' p) = Some p \<and> (sy_phase sy wid = Taken \<longleftrightarrow> job_at ?st' p \<notin> begun ?P)"
    if "(wid, p) \<in> set (ps_running ?P)" for wid p
  proof -
    have w: "ptrs ?st (job_at ?st p) = Some p" "sy_phase sy wid = Taken \<longleftrightarrow> job_at ?st p \<notin> begun ?P"
      using ok that by (auto simp: system_ok_def workers_ok_def Let_def)
    then show ?thesis using same [OF w(1)] kept(1) by (auto simp: map_le_def dom_def)
  qed
  moreover have "distinct (map snd (ps_running ?P))" using ok by (simp add: system_ok_def workers_ok_def Let_def)
  ultimately have "workers_ok sy'" by (auto simp: workers_ok_def Let_def begun_def new)
  moreover have "sys_accounts sy'"
  proof -
    have "accounts (dom (ptrs ?st)) (status_at ?st) (queued_ids (ps_queue ?P)) (set (claims a) \<union> claimed (before @ after))
        (busy ?P) (begun ?P) (removals a \<union> \<Union> (removals ` set (before @ after))) (updates a \<union> \<Union> (updates ` set (before @ after)))"
      using ok acts by (simp add: system_ok_def sys_accounts_def Let_def claimed_split Un_ac)
    from act_effect_accounts [OF eff this owned disj] show ?thesis
      unfolding sys_accounts_def Let_def new busy claimed_split by (simp add: begun_def new Un_ac)
  qed
  moreover have "\<forall>x \<in> set (before @ a' # after). owns (ptrs ?st') x"
    using ok acts kept owns_kept [OF _ kept(1)] by (auto simp: system_ok_def)
  moreover have "poll_inv n ?P'" using ok by (simp add: system_ok_def sy'_def put_world_def poll_inv_def)
  ultimately show "system_ok n sy'" using conc' w unfolding system_ok_def by (simp add: new)
  assume "sys_at_rest sy k"
  then have "at_rest (dom (ptrs ?st)) (queued_ids (ps_queue ?P)) (set (claims a) \<union> claimed (before @ after)) (busy ?P) k"
    by (simp add: sys_at_rest_def Let_def acts claimed_split)
  from act_effect_at_rest [OF eff this] show "rest_kept k sy sy'"
    unfolding rest_kept_def sys_at_rest_def Let_def new busy claimed_split by simp
qed

text \<open>A step of a worker inside its job: the stores of the batches stay, and the job has begun.\<close>

lemma AList_update_same: "map_of xs k = Some v \<Longrightarrow> AList.update k v xs = xs"
  by (induction xs) (auto split: if_splits)

lemma phase_step_stores:
  assumes "phase_step (mock_db ord) mock_status pcfg p (ph, st, t) (ph', st', t')"
    and "ptrs st (job_at st p) = Some p" and "ph = Taken \<or> job_at st p \<in> dom (mst_content t)"
  shows "st' = st \<and> ph' \<noteq> Taken \<and> dom (mst_content t') = insert (job_at st p) (dom (mst_content t)) \<and>
    (\<forall>k. k \<noteq> job_at st p \<longrightarrow> mst_content t' k = mst_content t k)"
proof -
  have "snd (db_Update (mock_db ord) p st) = st"
    using assms(2) by (auto simp: mock_db_def mdb_Update_def Let_def ptrs_def job_at_def AList_update_same split: prod.splits)
  then show ?thesis using assms(1,3)
    by (elim phase_stepE)
      (auto simp: phase_status_def set_status_def mock_status_def set_then_content job_at_def)
qed

lemma worker_step_ok:
  assumes ok: "system_ok n sy" and w: "(wid, p) \<in> set (ps_running (sy_proc sy))"
    and step: "phase_step (mock_db ord) mock_status pcfg p
      (sy_phase sy wid, ps_store (sy_proc sy), ps_status (sy_proc sy)) (ph, store, status)"
  defines "sy' \<equiv> sy\<lparr>sy_proc := (sy_proc sy)\<lparr>ps_store := store, ps_status := status\<rparr>, sy_phase := (sy_phase sy)(wid := ph)\<rparr>"
  shows "system_ok n sy'" and "sys_at_rest sy k \<Longrightarrow> rest_kept k sy sy'"
proof -
  let ?P = "sy_proc sy" and ?st = "ps_store (sy_proc sy)"
  have held: "ptrs ?st (job_at ?st p) = Some p" "sy_phase sy wid = Taken \<or> job_at ?st p \<in> begun ?P"
    using ok w by (auto simp: system_ok_def workers_ok_def Let_def)
  from phase_step_stores [OF step held(1)] held(2)
  have eff: "store = ?st" "ph \<noteq> Taken" "dom (mst_content status) = insert (job_at ?st p) (begun ?P)"
    and others: "\<And>k. k \<noteq> job_at ?st p \<Longrightarrow> mst_content status k = mst_content (ps_status ?P) k"
    by (auto simp: begun_def)
  have new: "ps_store (sy_proc sy') = ?st" "ps_queue (sy_proc sy') = ps_queue ?P" "ps_running (sy_proc sy') = ps_running ?P"
    "ps_status (sy_proc sy') = status" "begun (sy_proc sy') = insert (job_at ?st p) (begun ?P)" "busy (sy_proc sy') = busy ?P" "sy_acts sy' = sy_acts sy"
    by (simp_all add: sy'_def eff begun_def busy_def)
  have p: "job_at ?st p \<in> busy ?P" using w by (force simp: busy_def)
  have keep: "mst_content status k = mst_content (ps_status ?P) k" if "k \<notin> busy ?P"
    by (rule others) (use p that in auto)
  have "distinct (map fst (ps_running ?P))" using ok poll_inv_workers by (auto simp: system_ok_def)
  from eq_key_imp_eq_value [OF this _ w] have "q = p" if "(wid, q) \<in> set (ps_running ?P)" for q
    using that by simp
  note mine = this
  have all: "distinct (map snd (ps_running ?P))" "\<And>w q. (w, q) \<in> set (ps_running ?P) \<Longrightarrow> ptrs ?st (job_at ?st q) = Some q \<and>
      (sy_phase sy w = Taken \<longleftrightarrow> job_at ?st q \<notin> begun ?P)"
    using ok by (auto simp: system_ok_def workers_ok_def Let_def)
  have "(sy_phase sy' w' = Taken) = (job_at ?st q \<notin> insert (job_at ?st p) (begun ?P))" if q: "(w', q) \<in> set (ps_running ?P)" for w' q
  proof (cases "w' = wid")
    case True
    then show ?thesis using mine [of q] q eff(2) by (simp add: sy'_def)
  next
    case False
    have "job_at ?st q \<noteq> job_at ?st p"
    proof
      assume "job_at ?st q = job_at ?st p"
      then have "Some q = Some p" using all(2) [OF q] held(1) by metis
      then have "q = p" by simp
      then have "(w', p) \<in> set (ps_running ?P)" using q by fast
      moreover have "inj_on snd (set (ps_running ?P))" using all(1) by (simp add: distinct_map)
      ultimately have "(w', p) = (wid, p)" using w by (metis inj_onD snd_conv)
      then show False using False by simp
    qed
    then show ?thesis using all(2) [OF q] False by (simp add: sy'_def)
  qed
  then have "\<forall>(w', q) \<in> set (ps_running ?P). ptrs ?st (job_at ?st q) = Some q \<and>
      (sy_phase sy' w' = Taken \<longleftrightarrow> job_at ?st q \<notin> insert (job_at ?st p) (begun ?P))"
    using all(2) by auto
  then have "workers_ok sy'" unfolding workers_ok_def Let_def new using all(1) by (rule conjI [rotated])
  moreover have "sys_accounts sy'"
    using ok p unfolding system_ok_def sys_accounts_def Let_def new accounts_def by auto
  moreover have "api_world sy' = api_world sy" "poll_inv n (sy_proc sy') = poll_inv n ?P"
    by (simp_all add: sy'_def api_world_def eff poll_inv_def)
  ultimately show "system_ok n sy'" using ok unfolding system_ok_def by (simp add: new)
  show "sys_at_rest sy k \<Longrightarrow> rest_kept k sy sy'"
    using keep unfolding rest_kept_def sys_at_rest_def Let_def new at_rest_def by auto
qed

lemma release_fields [simp]:
  "ps_store (release_then pc wid P) = ps_store P" "ps_queue (release_then pc wid P) = ps_queue P"
  "ps_status (release_then pc wid P) = ps_status P" "ps_running (release_then pc wid P) = ps_running P"
  by (auto simp: release_then_def split: prod.split go_result.split)

lemma worker_end_ok:
  assumes ok: "system_ok n sy" and alive: "loop_alive (ps_pc (sy_proc sy))"
    and running: "ps_running (sy_proc sy) = before @ (wid, p) # after" and ended: "sy_phase sy wid = Ended r"
  defines "sy' \<equiv> sy\<lparr>sy_proc := release_then (ps_pc (sy_proc sy)) wid ((sy_proc sy)\<lparr>ps_running := before @ after\<rparr>)\<rparr>"
  shows "system_ok n sy'" and "sys_at_rest sy k \<Longrightarrow> rest_kept k sy sy'"
proof -
  let ?P = "sy_proc sy" and ?st = "ps_store (sy_proc sy)"
  have held: "job_at ?st p \<in> begun ?P"
    using ok running ended by (auto simp: system_ok_def workers_ok_def Let_def)
  have new: "ps_store (sy_proc sy') = ?st" "ps_queue (sy_proc sy') = ps_queue ?P" "ps_running (sy_proc sy') = before @ after"
    "begun (sy_proc sy') = begun ?P" "sy_acts sy' = sy_acts sy" "sy_phase sy' = sy_phase sy"
    by (simp_all add: sy'_def begun_def)
  have busy: "busy ?P = insert (job_at ?st p) (busy (sy_proc sy'))"
    using running by (simp add: busy_def new)
  have "wp_cap (ps_pool ?P) = n" "wp_wg (ps_pool ?P) = 0"
    "mset (wp_workerIds (ps_pool ?P)) + mset (map fst (before @ after)) + {#wid#} = mset [1..n]"
    using ok alive running by (auto simp: system_ok_def poll_inv_def loop_alive_def)
  then have "poll_inv n (sy_proc sy')" unfolding sy'_def by (simp add: release_uncounted(1))
  moreover have "workers_ok sy'"
    using ok running unfolding system_ok_def workers_ok_def Let_def new by auto
  moreover have "sys_accounts sy'"
    using ok held unfolding system_ok_def sys_accounts_def Let_def new busy accounts_def by auto
  moreover have "api_world sy' = api_world sy" by (simp add: sy'_def api_world_def)
  ultimately show "system_ok n sy'" using ok unfolding system_ok_def by (simp add: new)
  show "sys_at_rest sy k \<Longrightarrow> rest_kept k sy sy'"
    unfolding rest_kept_def sys_at_rest_def Let_def new at_rest_def busy by (auto simp: sy'_def)
qed

text \<open>A turn of the loop: the head of the queue goes to the worker, or the loop crashes.\<close>

lemma poll_body_takes:
  assumes ok: "system_ok n sy"
  shows "(\<exists>x q p. mpq_queue (ps_queue (sy_proc sy)) = x # mpq_queue q \<and> ptrs (ps_store (sy_proc sy)) (jp_ID x) = Some p \<and>
       poll_body (mock_db ord) (mock_queue clock) wid ((sy_proc sy)\<lparr>ps_pool := pool\<rparr>) =
         (sy_proc sy)\<lparr>ps_pool := pool, ps_queue := q, ps_pc := Waiting, ps_running := (wid, p) # ps_running (sy_proc sy)\<rparr>) \<or>
     poll_body (mock_db ord) (mock_queue clock) wid ((sy_proc sy)\<lparr>ps_pool := pool\<rparr>) =
         release_then Sleeping wid ((sy_proc sy)\<lparr>ps_pool := pool\<rparr>)"
proof -
  let ?P = "sy_proc sy"
  have P: "?P\<lparr>ps_queue := ps_queue ?P\<rparr> = ?P" by simp
  show ?thesis
  proof (cases "mpq_queue (ps_queue ?P)")
    case Nil
    then have "getTaskFromQueue (mock_queue clock) (ps_queue ?P) = Returns (None, ps_queue ?P)"
      by (simp add: getTaskFromQueue_def mock_queue_def Dequeue_empty_step)
    then show ?thesis by (simp add: poll_body_def)
  next
    case (Cons x q)
    then have get: "getTaskFromQueue (mock_queue clock) (ps_queue ?P) = Returns (Some x, (ps_queue ?P)\<lparr>mpq_queue := q\<rparr>)"
      by (simp add: getTaskFromQueue_def mock_queue_def Dequeue_nonempty)
    have "jp_ID x \<in> queued_ids (ps_queue ?P)" using Cons by simp
    then have "jp_ID x \<in> dom (ptrs (ps_store ?P))"
      using ok by (auto simp: system_ok_def sys_accounts_def accounts_def Let_def)
    then obtain p where p: "ptrs (ps_store ?P) (jp_ID x) = Some p" by blast
    then have "poll_body (mock_db ord) (mock_queue clock) wid (?P\<lparr>ps_pool := pool\<rparr>) =
         ?P\<lparr>ps_pool := pool, ps_queue := (ps_queue ?P)\<lparr>mpq_queue := q\<rparr>, ps_pc := Waiting,
            ps_running := (wid, p) # ps_running ?P\<rparr>"
      using get by (simp add: poll_body_def getJobData_def mock_get_id ptrs_def)
    then show ?thesis using Cons p by (intro disjI1 exI [of _ x] exI [of _ "(ps_queue ?P)\<lparr>mpq_queue := q\<rparr>"] exI [of _ p]) simp
  qed
qed

lemma free_worker:
  assumes "poll_inv n P" and "ps_pc P = Waiting" and "wp_workerIds (ps_pool P) = wid # ids"
  shows "wid \<notin> set (map fst (ps_running P))"
proof -
  have "mset (wp_workerIds (ps_pool P) @ map fst (ps_running P)) = mset [1..n]"
    using assms(1,2) by (auto simp: poll_inv_def)
  then have "distinct (wp_workerIds (ps_pool P) @ map fst (ps_running P))"
    by (metis distinct_upto mset_eq_imp_distinct_iff)
  then show ?thesis using assms(3) by auto
qed

lemma job_taken_ok:
  fixes pool :: WorkerPool
  assumes ok: "system_ok n sy" and free: "wid \<notin> set (map fst (ps_running (sy_proc sy)))"
    and q: "mpq_queue (ps_queue (sy_proc sy)) = x # mpq_queue q"
    and p: "ptrs (ps_store (sy_proc sy)) (jp_ID x) = Some p"
  defines "P' \<equiv> (sy_proc sy)\<lparr>ps_pool := pool, ps_queue := q, ps_pc := Waiting,
     ps_running := (wid, p) # ps_running (sy_proc sy)\<rparr>"
  defines "sy' \<equiv> sy\<lparr>sy_proc := P', sy_phase := (sy_phase sy)(wid := Taken)\<rparr>"
  assumes inv: "poll_inv n P'"
  shows "system_ok n sy'" and "sys_at_rest sy k \<Longrightarrow> rest_kept k sy sy'"
proof -
  let ?P = "sy_proc sy" and ?st = "ps_store (sy_proc sy)"
  have new: "ps_store (sy_proc sy') = ?st" "ps_queue (sy_proc sy') = q" "ps_running (sy_proc sy') = (wid, p) # ps_running ?P"
    "begun (sy_proc sy') = begun ?P" "sy_acts sy' = sy_acts sy"
    by (simp_all add: sy'_def P'_def begun_def)
  have conc: "conc_ok mdb_look mdb_inv mpq_queue mpq_inv mev_inv (sy_acts sy, api_world sy)"
    and acc: "sys_accounts sy"
    using ok by (simp_all add: system_ok_def)
  have job: "job_at ?st p = jp_ID x"
    using conc p mdb_inv_entry by (fastforce simp: conc_ok_def api_world_def ptrs_def job_at_def)
  have dist: "jp_ID x \<notin> jp_ID ` set (mpq_queue q)"
    using conc q by (auto simp: conc_ok_def api_world_def queued_ok_def)
  have busy: "busy (sy_proc sy') = insert (jp_ID x) (busy ?P)" by (simp add: busy_def new job)
  have "jp_ID x \<notin> busy ?P" using acc q by (auto simp: sys_accounts_def accounts_def Let_def)
  then have "p \<notin> snd ` set (ps_running ?P)" using job by (metis busy_def image_eqI)
  moreover have "jp_ID x \<notin> begun ?P" using acc q by (auto simp: sys_accounts_def accounts_def Let_def)
  moreover have "w \<noteq> wid" if "(w, r) \<in> set (ps_running ?P)" for w r using free that by force
  ultimately have "workers_ok sy'"
    using ok p job unfolding system_ok_def workers_ok_def Let_def new by (fastforce simp: sy'_def)
  moreover have "sys_accounts sy'"
    using acc q dist unfolding sys_accounts_def Let_def new busy accounts_def by auto
  moreover have "pq_Dequeue (bh_queueClient (mock_handler NewConfig id (\<lambda>_. []) (\<lambda>_. (None, True)))) 0 1 (w_queue (api_world sy))
      = Returns (([x], None), q)"
    using q by (simp add: api_world_def mock_queue_def Dequeue_nonempty)
  from conc.conc_step_ok [OF conc_step.dequeue [OF this] conc]
  have "conc_ok mdb_look mdb_inv mpq_queue mpq_inv mev_inv (sy_acts sy', api_world sy')"
    by (simp add: sy'_def P'_def api_world_def)
  moreover have "poll_inv n (sy_proc sy')" using inv by (simp add: sy'_def)
  ultimately show "system_ok n sy'" using ok unfolding system_ok_def by (simp add: new)
  show "sys_at_rest sy k \<Longrightarrow> rest_kept k sy sy'"
    using q unfolding rest_kept_def sys_at_rest_def Let_def new busy at_rest_def by (auto simp: sy'_def P'_def)
qed

text \<open>A step that only moves the loop or gives a worker back.\<close>

lemma loop_only_ok:
  assumes ok: "system_ok n sy" and inv: "poll_inv n P'"
    and same: "ps_store P' = ps_store (sy_proc sy)" "ps_queue P' = ps_queue (sy_proc sy)"
      "ps_status P' = ps_status (sy_proc sy)" "ps_running P' = ps_running (sy_proc sy)"
    and phase: "\<forall>(wid, p) \<in> set (ps_running P'). f wid = sy_phase sy wid"
  defines "sy' \<equiv> sy\<lparr>sy_proc := P', sy_phase := f\<rparr>"
  shows "system_ok n sy'" and "sys_at_rest sy k \<Longrightarrow> rest_kept k sy sy'"
proof -
  have new: "ps_store (sy_proc sy') = ps_store (sy_proc sy)" "ps_queue (sy_proc sy') = ps_queue (sy_proc sy)"
    "ps_running (sy_proc sy') = ps_running (sy_proc sy)" "begun (sy_proc sy') = begun (sy_proc sy)"
    "busy (sy_proc sy') = busy (sy_proc sy)" "sy_acts sy' = sy_acts sy" "sy_phase sy' = f"
    by (simp_all add: sy'_def same begun_def busy_def)
  have "workers_ok sy'"
    using ok phase unfolding system_ok_def workers_ok_def Let_def new same(4) by fastforce
  moreover have "api_world sy' = api_world sy" by (simp add: sy'_def same api_world_def)
  moreover have "poll_inv n (sy_proc sy')" using inv by (simp add: sy'_def)
  ultimately show "system_ok n sy'"
    using ok unfolding system_ok_def sys_accounts_def Let_def new by simp
  show "sys_at_rest sy k \<Longrightarrow> rest_kept k sy sy'"
    unfolding rest_kept_def sys_at_rest_def Let_def new by (simp add: sy'_def same)
qed

lemma loop_takes_ok:
  fixes ord :: range_order and clock :: "duration \<Rightarrow> (bool \<times> error option) list"
  assumes ok: "system_ok n sy" and pc: "ps_pc (sy_proc sy) = Waiting"
    and ids: "wp_workerIds (ps_pool (sy_proc sy)) = wid # ids"
  defines "pool \<equiv> (ps_pool (sy_proc sy))\<lparr>wp_workerIds := ids\<rparr>"
  defines "P' \<equiv> poll_body (mock_db ord) (mock_queue clock) wid ((sy_proc sy)\<lparr>ps_pool := pool\<rparr>)"
  defines "sy' \<equiv> sy\<lparr>sy_proc := P', sy_phase := (sy_phase sy)(wid := Taken)\<rparr>"
  shows "system_ok n sy'" and "sys_at_rest sy k \<Longrightarrow> rest_kept k sy sy'"
proof -
  let ?P = "sy_proc sy"
  have inv: "poll_inv n ?P" using ok by (simp add: system_ok_def)
  have "poll_step (mock_db ord) (mock_queue clock) mock_status ProcessorConfig_New ?P P'"
    unfolding P'_def pool_def by (rule poll_step.take_worker [OF pc ids])
  from poll_step_inv [OF this mock_queue_answers inv] have inv': "poll_inv n P'" .
  note free = free_worker [OF inv pc ids]
  from poll_body_takes [OF ok, of ord clock wid pool, folded P'_def]
  have "system_ok n sy' \<and> (sys_at_rest sy k \<longrightarrow> rest_kept k sy sy')"
  proof (elim disjE exE conjE)
    fix x q p
    assume q: "mpq_queue (ps_queue ?P) = x # mpq_queue q" "ptrs (ps_store ?P) (jp_ID x) = Some p"
      and P': "P' = ?P\<lparr>ps_pool := pool, ps_queue := q, ps_pc := Waiting, ps_running := (wid, p) # ps_running ?P\<rparr>"
    show ?thesis
      using job_taken_ok [OF ok free q, of pool] inv' unfolding sy'_def P' by blast
  next
    assume P': "P' = release_then Sleeping wid (?P\<lparr>ps_pool := pool\<rparr>)"
    have "ps_store P' = ps_store ?P" "ps_queue P' = ps_queue ?P" "ps_status P' = ps_status ?P" "ps_running P' = ps_running ?P"
      by (simp_all add: P')
    note same = this
    have "\<forall>(i, p) \<in> set (ps_running P'). ((sy_phase sy)(wid := Taken)) i = sy_phase sy i"
      using free same(4) by force
    from loop_only_ok [OF ok inv' same this] show ?thesis unfolding sy'_def by blast
  qed
  then show "system_ok n sy'" "sys_at_rest sy k \<Longrightarrow> rest_kept k sy sy'" by auto
qed

lemma accounts_claim:
  assumes "accounts D V Q C B G R U" and "N \<inter> D = {}"
  shows "accounts D V Q (N \<union> C) B G R U"
proof -
  have "dom V = D" using assms(1) by (simp add: accounts_def)
  then have "k \<notin> N" if "V k = Some v" for k v using assms(2) that by blast
  then show ?thesis using assms unfolding accounts_def by (auto 0 3)
qed

text \<open>A request arrives; one that creates a batch brings an identifier that is not stored.\<close>

lemma arrives_ok:
  assumes ok: "system_ok n sy"
    and step: "conc_step (mock_handler scfg id (\<lambda>_. []) (\<lambda>_. (None, True))) mdb_look
      (sy_acts sy, api_world sy) (sy_acts sy @ [a], api_world sy)"
    and a: "updates a = {}" "removals a = {}" "\<And>P. owns P a"
      "\<And>k. k \<in> set (claims a) \<Longrightarrow> mdb_look (ps_store (sy_proc sy)) k = None"
  defines "sy' \<equiv> sy\<lparr>sy_acts := sy_acts sy @ [a]\<rparr>"
  shows "system_ok n sy'" and "sys_at_rest sy k \<Longrightarrow> rest_kept k sy sy'"
proof -
  let ?D = "dom (ptrs (ps_store (sy_proc sy)))"
  have conc: "conc_ok mdb_look mdb_inv mpq_queue mpq_inv mev_inv (sy_acts sy @ [a], api_world sy')"
    using conc.conc_step_ok [OF step] ok by (simp add: system_ok_def sy'_def api_world_def)
  have new: "set (claims a) \<inter> ?D = {}" using a(4) by (auto simp: mdb_look_ptrs)
  have split: "claimed (sy_acts sy @ [a]) = set (claims a) \<union> claimed (sy_acts sy)"
    using claimed_split [of "sy_acts sy" a "[]"] by simp
  have "sys_accounts sy" using ok by (simp add: system_ok_def)
  from accounts_claim [OF this [unfolded sys_accounts_def Let_def] new] have "sys_accounts sy'"
    unfolding sys_accounts_def Let_def by (simp add: sy'_def split a(1,2))
  moreover have "workers_ok sy'" using ok by (simp add: sy'_def system_ok_def workers_ok_def)
  ultimately show "system_ok n sy'" using ok conc a(3) by (simp add: system_ok_def sy'_def)
  show "sys_at_rest sy k \<Longrightarrow> rest_kept k sy sy'"
    using new by (auto simp: rest_kept_def sys_at_rest_def at_rest_def Let_def sy'_def split)
qed

lemma side_step_ok:
  assumes "side_step scfg pcfg sy sy'" and "system_ok n sy"
  shows "system_ok n sy' \<and> (sys_at_rest sy k \<longrightarrow> rest_kept k sy sy')"
  using assms
proof (induction rule: side_step.induct)
  case (create_arrives sy uuid now1 now2 rq)
  have "conc_step (mock_handler scfg id (\<lambda>_. []) (\<lambda>_. (None, True))) mdb_look
      (sy_acts sy, api_world sy) (sy_acts sy @ [Creating uuid now1 now2 rq], api_world sy)"
    by (rule conc_step.create_arrives) (use create_arrives in \<open>simp_all add: api_world_def\<close>)
  note here = arrives_ok [OF create_arrives(4) this]
  show ?case by (intro conjI impI; rule here) (use create_arrives(1) in simp_all)
next
  case (cancel_arrives now sy rq)
  have "conc_step (mock_handler scfg id (\<lambda>_. []) (\<lambda>_. (None, True))) mdb_look
      (sy_acts sy, api_world sy) (sy_acts sy @ [Canceling now rq], api_world sy)"
    by (rule conc_step.cancel_arrives) (use cancel_arrives in simp)
  note here = arrives_ok [OF cancel_arrives(2) this]
  show ?case by (intro conjI impI; rule here) simp_all
next
  case (request_proceeds sy before a after ord clock obs a' w)
  then show ?case using request_step_ok [OF request_proceeds(3,1,2)] by blast
next
  case (worker_works sy wid p ord ph store status)
  then show ?case using worker_step_ok [OF worker_works(4,2,3)] by blast
next
  case (worker_ends sy before wid p after r)
  then show ?case using worker_end_ok [OF worker_ends(4,1,2,3)] by blast
qed

lemma sys_step_ok:
  assumes "sys_step scfg pcfg sy sy'" and "system_ok n sy"
  shows "system_ok n sy' \<and> (sys_at_rest sy k \<longrightarrow> rest_kept k sy sy')"
  using assms
proof (induction rule: sys_step.induct)
  case (beside sy sy')
  then show ?case using side_step_ok by blast
next
  case (loop_stops sy)
  then have "poll_inv n ((sy_proc sy)\<lparr>ps_pc := Stopped\<rparr>)" by (auto simp: system_ok_def poll_inv_def)
  from loop_only_ok [OF loop_stops(2) this, of "sy_phase sy"] show ?case by auto
next
  case (loop_wakes sy)
  then show ?case by (auto simp: system_ok_def poll_inv_def)
next
  case (loop_takes sy wid ids ord clock)
  then show ?case using loop_takes_ok [OF loop_takes(3,1,2)] by blast
qed

lemma sys_run_ok:
  assumes "(sys_step scfg pcfg)\<^sup>*\<^sup>* sy sy'" and "system_ok n sy"
  shows "system_ok n sy' \<and> (sys_at_rest sy k \<longrightarrow> rest_kept k sy sy')"
  using assms
proof (induction rule: rtranclp_induct)
  case base
  then show ?case by (simp add: rest_kept_def)
next
  case (step y z)
  then have "system_ok n y" "sys_at_rest sy k \<longrightarrow> rest_kept k sy y" by auto
  moreover from sys_step_ok [OF step(2) this(1)] have "system_ok n z" "sys_at_rest y k \<longrightarrow> rest_kept k y z" by auto
  moreover have "rest_kept k sy y \<longrightarrow> sys_at_rest y k" by (simp add: rest_kept_def)
  ultimately show ?case by (blast intro: rest_kept_trans)
qed

lemma system_run_ok:
  assumes "system_start pcfg = Returns s0" and "(sys_step scfg pcfg)\<^sup>*\<^sup>* s0 s"
  shows "system_ok (pc_NumWorkers pcfg) s"
  using sys_run_ok [OF assms(2) system_start_ok [OF assms(1)]] by blast

text \<open>What the invariant says of a batch that is stored.\<close>

lemma status_at_stored:
  assumes "mdb_look st k = Some j" and "jobToBatch j = Inr b"
  shows "status_at st k = Some (st_Status (b_Status b))" and "k \<in> dom (ptrs st)"
  using assms by (auto simp: status_at_def mdb_look_ptrs)

lemma at_restI:
  assumes "system_ok n s" and "k \<in> dom (ptrs (ps_store (sy_proc s)))"
    and "status_at (ps_store (sy_proc s)) k = Some BatchStatusCancelled \<or>
         k \<in> begun (sy_proc s) \<and> k \<notin> busy (sy_proc s)"
  shows "sys_at_rest s k"
  using assms by (auto simp: system_ok_def sys_accounts_def accounts_def sys_at_rest_def at_rest_def Let_def)

end
