(* ===== verification/WholeSystem.thy ===== *)
theory WholeSystem
  imports System
begin

text \<open>
  The gateway with every call of a store a step of its own: the model of \<^verbatim>\<open>System\<close>, with the turn of
  the polling loop cut between taking an entry from the queue and fetching the job of it. In between
  requests and workers go on, and the batch is neither queued nor running. \<open>fetched\<close> completes the
  fetch, and under it the finer steps are steps of \<^verbatim>\<open>System\<close> (\<open>whole_step_simulated\<close>), which carries
  its invariant over. The properties are stated of the finer steps.
\<close>

section \<open>The loop cut at its calls\<close>

text \<open>The rest of a turn of \<open>RunPollingLoop\<close>, once an entry is taken.\<close>

definition fetch_job ::
  "'d db_client \<Rightarrow> 'q queue_client \<Rightarrow> int \<Rightarrow> BatchJobPriority \<Rightarrow> ('d, 'q, 't) proc_state
    \<Rightarrow> ('d, 'q, 't) proc_state" where
  "fetch_job dbc pqc workerId task s =
     (let (r, store, q) = getJobData dbc pqc task (ps_store s, ps_queue s);
          s = s\<lparr>ps_store := store, ps_queue := q\<rparr>
      in case r of
           Inl _ \<Rightarrow> release_then Waiting workerId s
         | Inr job \<Rightarrow> s\<lparr>ps_pc := Waiting, ps_running := (workerId, job) # ps_running s\<rparr>)"

lemma poll_body_cut:
  "poll_body dbc pqc wid s =
     (case getTaskFromQueue pqc (ps_queue s) of
        Returns (Some task, q) \<Rightarrow> fetch_job dbc pqc wid task (s\<lparr>ps_queue := q\<rparr>)
      | Returns (None, q) \<Rightarrow> release_then Sleeping wid (s\<lparr>ps_queue := q\<rparr>)
      | Panics msg \<Rightarrow> s\<lparr>ps_pc := Crashed msg\<rparr>
      | Blocks \<Rightarrow> s\<lparr>ps_pc := Stuck\<rparr>)"
  by (simp add: poll_body_def fetch_job_def split: go_result.split prod.split option.split)

text \<open>A worker that has been received from the pool, and the entry taken for it, if the loop is
  about to fetch its job.\<close>

type_synonym whole = "system \<times> (int \<times> BatchJobPriority) option"

text \<open>The loop without a worker it has received.\<close>

definition with_ids :: "int list \<Rightarrow> system \<Rightarrow> system" where
  "with_ids ids sy = sy\<lparr>sy_proc := (sy_proc sy)\<lparr>ps_pool := (ps_pool (sy_proc sy))\<lparr>wp_workerIds := ids\<rparr>\<rparr>\<rparr>"

inductive whole_step :: "ServerConfig \<Rightarrow> ProcessorConfig \<Rightarrow> whole \<Rightarrow> whole \<Rightarrow> bool" for scfg pcfg where
  goes_on: "side_step scfg pcfg sy sy' \<Longrightarrow> whole_step scfg pcfg (sy, f) (sy', f)"
| stops: "ps_pc (sy_proc sy) \<in> {Waiting, Sleeping} \<Longrightarrow>
     whole_step scfg pcfg (sy, None) (sy\<lparr>sy_proc := (sy_proc sy)\<lparr>ps_pc := Stopped\<rparr>\<rparr>, None)"
| wakes: "ps_pc (sy_proc sy) = Sleeping \<Longrightarrow>
     whole_step scfg pcfg (sy, None) (sy\<lparr>sy_proc := (sy_proc sy)\<lparr>ps_pc := Waiting\<rparr>\<rparr>, None)"
| dequeues: "ps_pc (sy_proc sy) = Waiting \<Longrightarrow> wp_workerIds (ps_pool (sy_proc sy)) = wid # ids \<Longrightarrow>
     getTaskFromQueue (mock_queue clock) (ps_queue (sy_proc sy)) = Returns (Some task, q) \<Longrightarrow>
     sy' = with_ids ids sy \<Longrightarrow>
     whole_step scfg pcfg (sy, None) (sy'\<lparr>sy_proc := (sy_proc sy')\<lparr>ps_queue := q\<rparr>\<rparr>, Some (wid, task))"
| finds_none: "ps_pc (sy_proc sy) = Waiting \<Longrightarrow> wp_workerIds (ps_pool (sy_proc sy)) = wid # ids \<Longrightarrow>
     (\<And>task q. getTaskFromQueue (mock_queue clock) (ps_queue (sy_proc sy)) \<noteq> Returns (Some task, q)) \<Longrightarrow>
     sy' = with_ids ids sy \<Longrightarrow>
     whole_step scfg pcfg (sy, None)
       (sy'\<lparr>sy_proc := poll_body (mock_db ord) (mock_queue clock) wid (sy_proc sy'),
          sy_phase := (sy_phase sy)(wid := Taken)\<rparr>, None)"
| fetches: "ps_pc (sy_proc sy) = Waiting \<Longrightarrow>
     whole_step scfg pcfg (sy, Some (wid, task))
       (sy\<lparr>sy_proc := fetch_job (mock_db ord) (mock_queue clock) wid task (sy_proc sy),
           sy_phase := (sy_phase sy)(wid := Taken)\<rparr>, None)"

section \<open>Completing the fetch\<close>

definition with_job :: "int \<Rightarrow> ptr \<Rightarrow> system \<Rightarrow> system" where
  "with_job wid p sy =
     sy\<lparr>sy_proc := (sy_proc sy)\<lparr>ps_running := (wid, p) # ps_running (sy_proc sy)\<rparr>, sy_phase := (sy_phase sy)(wid := Taken)\<rparr>"

fun fetched :: "whole \<Rightarrow> system" where
  "fetched (sy, None) = sy"
| "fetched (sy, Some (wid, task)) = with_job wid (the (ptrs (ps_store (sy_proc sy)) (jp_ID task))) sy"

fun fetch_ok :: "whole \<Rightarrow> bool" where
  "fetch_ok (sy, None) \<longleftrightarrow> True"
| "fetch_ok (sy, Some (wid, task)) \<longleftrightarrow> jp_ID task \<in> dom (ptrs (ps_store (sy_proc sy)))"

lemma fetched_fields [simp]:
  "ps_store (sy_proc (fetched (sy, f))) = ps_store (sy_proc sy)" "ps_queue (sy_proc (fetched (sy, f))) = ps_queue (sy_proc sy)"
  "ps_status (sy_proc (fetched (sy, f))) = ps_status (sy_proc sy)" "sy_acts (fetched (sy, f)) = sy_acts sy"
  by (cases f; auto simp: with_job_def)+

text \<open>The steps beside the loop do not depend on the job that is being fetched, and no step ever
  replaces the pointer of a stored batch.\<close>

lemma release_running:
  "(release_then pc wid P)\<lparr>ps_running := r\<rparr> = release_then pc wid (P\<lparr>ps_running := r\<rparr>)"
  by (cases P) (simp add: release_then_def split: prod.split go_result.split)

lemma side_step_with_job:
  assumes "side_step scfg pcfg sy sy'" and "wid \<notin> fst ` set (ps_running (sy_proc sy))"
  shows "side_step scfg pcfg (with_job wid p sy) (with_job wid p sy')"
  using assms
proof (induction rule: side_step.induct)
  case (create_arrives sy uuid now1 now2 rq)
  then have "side_step scfg pcfg (with_job wid p sy) ((with_job wid p sy)\<lparr>sy_acts := sy_acts (with_job wid p sy) @ [Creating uuid now1 now2 rq]\<rparr>)"
    by (intro side_step.create_arrives) (simp_all add: with_job_def)
  then show ?case by (cases sy) (simp add: with_job_def)
next
  case (cancel_arrives now sy rq)
  then have "side_step scfg pcfg (with_job wid p sy) ((with_job wid p sy)\<lparr>sy_acts := sy_acts (with_job wid p sy) @ [Canceling now rq]\<rparr>)"
    by (intro side_step.cancel_arrives)
  then show ?case by (cases sy) (simp add: with_job_def)
next
  case (request_proceeds sy before a after ord clock obs a' w)
  have "side_step scfg pcfg (with_job wid p sy) ((put_world w (with_job wid p sy))\<lparr>sy_acts := before @ a' # after\<rparr>)"
    by (rule side_step.request_proceeds [where a = a and ord = ord and clock = clock and obs = obs])
      (use request_proceeds in \<open>simp_all add: with_job_def api_world_def\<close>)
  then show ?case by (cases sy; cases "sy_proc sy") (simp add: with_job_def put_world_def)
next
  case (worker_works sy wid' q ord ph store status)
  then have "wid' \<noteq> wid" by force
  have "side_step scfg pcfg (with_job wid p sy)
      ((with_job wid p sy)\<lparr>sy_proc := (sy_proc (with_job wid p sy))\<lparr>ps_store := store, ps_status := status\<rparr>,
         sy_phase := (sy_phase (with_job wid p sy))(wid' := ph)\<rparr>)"
    by (rule side_step.worker_works [where p = q and ord = ord])
      (use worker_works \<open>wid' \<noteq> wid\<close> in \<open>simp_all add: with_job_def\<close>)
  then show ?case using \<open>wid' \<noteq> wid\<close> by (cases sy; cases "sy_proc sy") (simp add: with_job_def fun_upd_twist)
next
  case (worker_ends sy before wid' q after r)
  then have "wid' \<noteq> wid" by force
  have "side_step scfg pcfg (with_job wid p sy)
      ((with_job wid p sy)\<lparr>sy_proc := release_then (ps_pc (sy_proc (with_job wid p sy))) wid'
          ((sy_proc (with_job wid p sy))\<lparr>ps_running := ((wid, p) # before) @ after\<rparr>)\<rparr>)"
    by (rule side_step.worker_ends [where p = q and r = r])
      (use worker_ends \<open>wid' \<noteq> wid\<close> in \<open>simp_all add: with_job_def\<close>)
  then show ?case by (cases sy) (simp add: with_job_def release_running)
qed

lemma side_step_ptrs:
  assumes "side_step scfg pcfg sy sy'" and ok: "system_ok n sy"
  shows "ptrs (ps_store (sy_proc sy)) \<subseteq>\<^sub>m ptrs (ps_store (sy_proc sy'))"
  using assms
proof (induction rule: side_step.induct)
  case (request_proceeds sy before a after ord clock obs a' w)
  let ?w = "api_world sy"
  have world: "w_store ?w = ps_store (sy_proc sy)" "w_queue ?w = ps_queue (sy_proc sy)" by (simp_all add: api_world_def)
  have "conc_ok mdb_look mdb_inv mpq_queue mpq_inv mev_inv (before @ a # after, ?w)"
    and owned: "owns (ptrs (w_store ?w)) a"
    using request_proceeds(1,3) world by (simp_all add: system_ok_def)
  then have "conc.base_ok ?w" "activity_ok (mdb_look (w_store ?w)) (fst (w_store ?w)) (mpq_queue (w_queue ?w)) a"
    by (auto simp: conc.conc_ok_base)
  from act_effect_owned(1) [OF act_step_effect [OF this(1) owned this(2) request_proceeds(2)] owned]
  show ?case by (simp add: world put_world_def)
next
  case (worker_works sy wid p ord ph store status)
  then have "ptrs (ps_store (sy_proc sy)) (job_at (ps_store (sy_proc sy)) p) = Some p"
    "sy_phase sy wid = Taken \<or> job_at (ps_store (sy_proc sy)) p \<in> dom (mst_content (ps_status (sy_proc sy)))"
    by (auto simp: system_ok_def workers_ok_def Let_def begun_def)
  from phase_step_stores [OF worker_works(3) this] show ?case by simp
qed simp_all

lemma Dequeue_head:
  assumes "getTaskFromQueue (mock_queue clock) q = Returns (Some x, q')"
  shows "mpq_queue q = x # mpq_queue q'"
proof (cases "mpq_queue q")
  case Nil
  then show ?thesis using assms by (simp add: getTaskFromQueue_def mock_queue_def Dequeue_empty_step)
next
  case (Cons y ys)
  then show ?thesis using assms by (auto simp: getTaskFromQueue_def mock_queue_def Dequeue_nonempty)
qed

lemma fetch_job_stored:
  assumes "ptrs (ps_store P) (jp_ID task) = Some p"
  shows "fetch_job (mock_db ord) (mock_queue clock) wid task P = P\<lparr>ps_pc := Waiting, ps_running := (wid, p) # ps_running P\<rparr>"
  using assms by (simp add: fetch_job_def getJobData_def mock_get_id ptrs_def)

text \<open>Every step of the finer system is, with the fetch completed, a step of the system or none.\<close>

lemma whole_step_simulated:
  assumes "whole_step scfg pcfg c c'" and "system_ok n (fetched c)" and "fetch_ok c"
  shows "fetch_ok c' \<and> (fetched c' = fetched c \<or> sys_step scfg pcfg (fetched c) (fetched c'))"
  using assms
proof (induction rule: whole_step.induct)
  case (goes_on sy sy' f)
  show ?case
  proof (cases f)
    case None
    then show ?thesis using goes_on(1) by (simp add: sys_step.beside)
  next
    case (Some wt)
    obtain wid task where wt: "wt = (wid, task)" by fastforce
    obtain p where p: "ptrs (ps_store (sy_proc sy)) (jp_ID task) = Some p" using goes_on(3) Some wt by auto
    have ok: "system_ok n (with_job wid p sy)" using goes_on(2) Some wt p by simp
    then have "distinct (map fst (ps_running (sy_proc (with_job wid p sy))))"
      using poll_inv_workers by (auto simp: system_ok_def)
    then have "wid \<notin> fst ` set (ps_running (sy_proc sy))" by (simp add: with_job_def)
    from side_step_with_job [OF goes_on(1) this]
    have step: "side_step scfg pcfg (with_job wid p sy) (with_job wid p sy')" .
    from side_step_ptrs [OF this ok] have "ptrs (ps_store (sy_proc sy')) (jp_ID task) = Some p"
      using p by (auto simp: with_job_def map_le_def dom_def)
    then show ?thesis using step p Some wt by (auto intro: sys_step.beside)
  qed
next
  case (stops sy)
  then show ?case by (simp add: sys_step.loop_stops)
next
  case (wakes sy)
  then show ?case by (simp add: sys_step.loop_wakes)
next
  case (dequeues sy wid ids clock task q sy')
  let ?P = "sy_proc sy" and ?pool = "(ps_pool (sy_proc sy))\<lparr>wp_workerIds := ids\<rparr>"
  have "jp_ID task \<in> queued_ids (ps_queue ?P)" using Dequeue_head [OF dequeues(3)] by simp
  then obtain p where p: "ptrs (ps_store ?P) (jp_ID task) = Some p"
    using dequeues(5) by (fastforce simp: system_ok_def sys_accounts_def accounts_def Let_def)
  have "poll_body (mock_db id) (mock_queue clock) wid (?P\<lparr>ps_pool := ?pool\<rparr>) =
      ?P\<lparr>ps_pool := ?pool, ps_queue := q, ps_pc := Waiting, ps_running := (wid, p) # ps_running ?P\<rparr>"
    using dequeues(3) p by (simp add: poll_body_cut fetch_job_stored)
  then have "sys_step scfg pcfg sy
      (sy\<lparr>sy_proc := ?P\<lparr>ps_pool := ?pool, ps_queue := q, ps_pc := Waiting, ps_running := (wid, p) # ps_running ?P\<rparr>,
          sy_phase := (sy_phase sy)(wid := Taken)\<rparr>)"
    using sys_step.loop_takes [OF dequeues(1,2), of scfg pcfg id clock] by simp
  then show ?case using p dequeues(1,4) by (cases sy; cases "sy_proc sy") (simp add: with_job_def with_ids_def domIff)
next
  case (finds_none sy wid ids clock sy' ord)
  let ?P = "(sy_proc sy)\<lparr>ps_pool := (ps_pool (sy_proc sy))\<lparr>wp_workerIds := ids\<rparr>\<rparr>"
  have "sys_step scfg pcfg sy
      (sy\<lparr>sy_proc := poll_body (mock_db ord) (mock_queue clock) wid ?P, sy_phase := (sy_phase sy)(wid := Taken)\<rparr>)"
    by (rule sys_step.loop_takes [OF finds_none(1,2)])
  then show ?case using finds_none(4) by (simp add: with_ids_def)
next
  case (fetches sy wid task ord clock)
  then obtain p where p: "ptrs (ps_store (sy_proc sy)) (jp_ID task) = Some p" by auto
  then show ?case using fetches(1)
    by (cases sy; cases "sy_proc sy") (simp add: fetch_job_stored with_job_def)
qed

lemma whole_run_ok:
  assumes "(whole_step scfg pcfg)\<^sup>*\<^sup>* c c'" and "system_ok n (fetched c)" and "fetch_ok c"
  shows "fetch_ok c' \<and> system_ok n (fetched c') \<and> (sys_step scfg pcfg)\<^sup>*\<^sup>* (fetched c) (fetched c')"
  using assms
proof (induction rule: rtranclp_induct)
  case (step y z)
  then have y: "fetch_ok y" "system_ok n (fetched y)" "(sys_step scfg pcfg)\<^sup>*\<^sup>* (fetched c) (fetched y)" by auto
  from whole_step_simulated [OF step(2) y(2,1)]
  have "fetch_ok z" "fetched z = fetched y \<or> sys_step scfg pcfg (fetched y) (fetched z)" by auto
  then show ?case using y sys_step_ok [of scfg pcfg "fetched y" "fetched z" n] by (auto intro: rtranclp.rtrancl_into_rtrancl)
qed simp

text \<open>The batches in a worker's hands, from the moment their entry is taken from the queue.\<close>

definition in_hand :: "whole \<Rightarrow> (int \<times> string) list" where
  "in_hand = (\<lambda>(sy, f).
     (case f of None \<Rightarrow> [] | Some (wid, task) \<Rightarrow> [(wid, jp_ID task)]) @
     map (\<lambda>(wid, p). (wid, job_at (ps_store (sy_proc sy)) p)) (ps_running (sy_proc sy)))"

lemma in_hand_fetched:
  assumes "system_ok n (fetched c)" and "fetch_ok c"
  shows "in_hand c = map (\<lambda>(wid, p). (wid, job_at (ps_store (sy_proc (fetched c))) p)) (ps_running (sy_proc (fetched c)))"
proof -
  obtain sy f where c: "c = (sy, f)" by fastforce
  have inv: "mdb_inv (ps_store (sy_proc sy))"
    using assms(1) by (auto simp: c system_ok_def conc_ok_def api_world_def)
  show ?thesis
  proof (cases f)
    case (Some wt)
    obtain wid task where wt: "wt = (wid, task)" by fastforce
    obtain p where "ptrs (ps_store (sy_proc sy)) (jp_ID task) = Some p" using assms(2) c Some wt by auto
    moreover from this have "job_at (ps_store (sy_proc sy)) p = jp_ID task"
      using mdb_inv_entry [OF inv] by (simp add: ptrs_def job_at_def)
    ultimately show ?thesis by (simp add: c Some wt in_hand_def with_job_def)
  qed (simp add: c in_hand_def)
qed

lemma in_hand_busy:
  assumes "system_ok n (fetched c)" and "fetch_ok c"
  shows "snd ` set (in_hand c) = busy (sy_proc (fetched c))"
  unfolding in_hand_fetched [OF assms] by (force simp: busy_def)

section \<open>Runs for the witnesses\<close>

lemma side_run: "(side_step scfg pcfg)\<^sup>*\<^sup>* s s' \<Longrightarrow> (whole_step scfg pcfg)\<^sup>*\<^sup>* (s, f) (s', f)"
  by (induction rule: rtranclp_induct) (auto intro: whole_step.goes_on rtranclp.rtrancl_into_rtrancl)

text \<open>A system whose requests and API state are those of a run of \<open>Interleaving\<close>, and one whose
  worker has come to a phase.\<close>

definition with_requests :: "activity list \<times> mock_world \<Rightarrow> system \<Rightarrow> system" where
  "with_requests x sy = (put_world (snd x) sy)\<lparr>sy_acts := fst x\<rparr>"

lemma requests_run:
  "(side_step scfg pcfg)\<^sup>*\<^sup>* (with_requests x sy) (with_requests (run_turns (mock_handler scfg ord clock obs) is x) sy)"
proof (induction "mock_handler scfg ord clock obs" "is" x rule: run_turns.induct)
  case (2 i "is" acts s)
  show ?case
  proof (cases "i < length acts")
    case True
    obtain a s' where a: "activity_step (mock_handler scfg ord clock obs) new_writer (acts ! i) s = (a, s')" by fastforce
    have "sy_acts (with_requests (acts, s) sy) = take i acts @ acts ! i # drop (Suc i) acts"
      using True by (simp add: with_requests_def id_take_nth_drop [symmetric])
    moreover have "api_world (with_requests (acts, s) sy) = s"
      by (simp add: with_requests_def put_world_def api_world_def)
    ultimately have "side_step scfg pcfg (with_requests (acts, s) sy)
        ((put_world s' (with_requests (acts, s) sy))\<lparr>sy_acts := take i acts @ a # drop (Suc i) acts\<rparr>)"
      using side_step.request_proceeds [of "with_requests (acts, s) sy"] a by metis
    moreover have "(put_world s' (with_requests (acts, s) sy))\<lparr>sy_acts := take i acts @ a # drop (Suc i) acts\<rparr>
        = with_requests (acts[i := a], s') sy"
      using True by (simp add: with_requests_def put_world_def upd_conv_take_nth_drop)
    ultimately have "side_step scfg pcfg (with_requests (acts, s) sy) (with_requests (acts[i := a], s') sy)" by simp
    moreover have "(side_step scfg pcfg)\<^sup>*\<^sup>* (with_requests (acts[i := a], s') sy)
        (with_requests (run_turns (mock_handler scfg ord clock obs) is (acts[i := a], s')) sy)"
      using 2(1) [OF True a [symmetric]] by simp
    ultimately show ?thesis using True a by (simp add: converse_rtranclp_into_rtranclp)
  next
    case False
    then show ?thesis using 2(2) by simp
  qed
qed simp

definition at_phase ::
  "int \<Rightarrow> job_phase \<times> (MockBatchDBClient, MockBatchStatusClient) job_stores \<Rightarrow> system \<Rightarrow> system" where
  "at_phase wid = (\<lambda>(ph, store, status) sy.
     sy\<lparr>sy_proc := (sy_proc sy)\<lparr>ps_store := store, ps_status := status\<rparr>, sy_phase := (sy_phase sy)(wid := ph)\<rparr>)"

lemma worker_run:
  assumes "(phase_step (mock_db ord) mock_status pcfg p)\<^sup>*\<^sup>* x y"
    and "loop_alive (ps_pc (sy_proc sy))" and "(wid, p) \<in> set (ps_running (sy_proc sy))"
  shows "(side_step scfg pcfg)\<^sup>*\<^sup>* (at_phase wid x sy) (at_phase wid y sy)"
  using assms(1)
proof (induction rule: rtranclp_induct)
  case (step y z)
  obtain ph1 st1 t1 ph2 st2 t2 where yz: "y = (ph1, st1, t1)" "z = (ph2, st2, t2)" by (metis prod.exhaust)
  have "side_step scfg pcfg (at_phase wid y sy)
      ((at_phase wid y sy)\<lparr>sy_proc := (sy_proc (at_phase wid y sy))\<lparr>ps_store := st2, ps_status := t2\<rparr>,
         sy_phase := (sy_phase (at_phase wid y sy))(wid := ph2)\<rparr>)"
    by (rule side_step.worker_works [where p = p and ord = ord]) (use step(2) assms(2,3) in \<open>simp_all add: yz at_phase_def\<close>)
  then have "side_step scfg pcfg (at_phase wid y sy) (at_phase wid z sy)" by (simp add: yz at_phase_def)
  then show ?case using step.IH by (rule rtranclp.rtrancl_into_rtrancl [rotated])
qed simp

definition sample_system :: system where
  "sample_system = (case system_start one_at_a_time of Returns s \<Rightarrow> s)"

lemma sample_system: "system_start one_at_a_time = Returns sample_system"
  by (simp add: sample_system_def system_start_def NewProcessor_def NewWorkerPool_def ProcessorConfig_New_def)

lemma sample_system_fields:
  "sample_system = with_requests ([], mock_world) sample_system"
  "mdb_look (ps_store (sy_proc sample_system)) k = None" "sy_acts sample_system = []"
  "ps_pc (sy_proc sample_system) = Waiting" "wp_workerIds (ps_pool (sy_proc sample_system)) = [1]"
  "ps_running (sy_proc sample_system) = []"
  by (simp_all add: sample_system_def system_start_def NewProcessor_def NewWorkerPool_def ProcessorConfig_New_def
      with_requests_def put_world_def mock_world_def mdb_look_def NewMockBatchDBClient_def)

text \<open>A create and a cancel request arrive; then they take their turns.\<close>

lemma sample_requests:
  "(side_step NewConfig one_at_a_time)\<^sup>*\<^sup>* sample_system
     (with_requests (run_turns sample_handler is ([sample_create, sample_cancel], mock_world)) sample_system)"
proof -
  let ?s1 = "sample_system\<lparr>sy_acts := [sample_create]\<rparr>"
  have "side_step NewConfig one_at_a_time sample_system (sample_system\<lparr>sy_acts := sy_acts sample_system @ [sample_create]\<rparr>)"
    unfolding sample_create_def
    by (rule side_step.create_arrives) (simp_all add: sample_system_fields(2,3) claimed_def sample_now_ok)
  then have 1: "side_step NewConfig one_at_a_time sample_system ?s1" by (simp add: sample_system_fields(3))
  have "side_step NewConfig one_at_a_time ?s1 (?s1\<lparr>sy_acts := sy_acts ?s1 @ [sample_cancel]\<rparr>)"
    unfolding sample_cancel_def by (rule side_step.cancel_arrives) (rule sample_now_ok)
  moreover have "?s1\<lparr>sy_acts := sy_acts ?s1 @ [sample_cancel]\<rparr> = with_requests ([sample_create, sample_cancel], mock_world) sample_system"
    by (subst sample_system_fields(1)) (simp add: with_requests_def put_world_def)
  ultimately have "(side_step NewConfig one_at_a_time)\<^sup>*\<^sup>* sample_system
      (with_requests ([sample_create, sample_cancel], mock_world) sample_system)"
    using 1 by auto
  then show ?thesis
    using requests_run [of NewConfig one_at_a_time] unfolding sample_handler_def by (rule rtranclp_trans)
qed

text \<open>The batch is created and cancelled, or created and taken by the worker, who works it off.
  What the requests do is computed once, apart from the system.\<close>

definition created_turns :: "activity list \<times> mock_world" where
  "created_turns = run_turns sample_handler [0, 0] ([sample_create, sample_cancel], mock_world)"

definition cancelled_turns :: "activity list \<times> mock_world" where
  "cancelled_turns = run_turns sample_handler [0, 0, 1, 1, 1] ([sample_create, sample_cancel], mock_world)"

definition created_system :: system where
  "created_system = with_requests created_turns sample_system"

definition cancelled_system :: system where
  "cancelled_system = with_requests cancelled_turns sample_system"

definition sample_task :: BatchJobPriority where
  "sample_task = hd (mpq_queue (ps_queue (sy_proc created_system)))"

definition taken_system :: system where
  "taken_system =
     (let sy = with_ids [] created_system
      in sy\<lparr>sy_proc := (sy_proc sy)\<lparr>ps_queue := (ps_queue (sy_proc sy))\<lparr>mpq_queue := []\<rparr>\<rparr>\<rparr>)"

definition working_system :: system where
  "working_system =
     taken_system\<lparr>sy_proc := fetch_job (mock_db id) (mock_queue (\<lambda>_. [])) 1 sample_task (sy_proc taken_system),
       sy_phase := (sy_phase taken_system)(1 := Taken)\<rparr>"

lemma cancelled_run: "(side_step NewConfig one_at_a_time)\<^sup>*\<^sup>* sample_system cancelled_system"
  unfolding cancelled_system_def cancelled_turns_def by (rule sample_requests)

lemma created_run: "(side_step NewConfig one_at_a_time)\<^sup>*\<^sup>* sample_system created_system"
  unfolding created_system_def created_turns_def by (rule sample_requests)

lemma cancelled_turns_end:
  "case cancelled_turns of (acts, w) \<Rightarrow>
     map_option jobToBatch (mdb_look (w_store w) ''batch_u1'') = Some (Inr (mark_cancelled sample_now sample_batch))"
  by code_simp

lemma created_turns_end:
  "case created_turns of (acts, w) \<Rightarrow>
     map_option jobToBatch (mdb_look (w_store w) ''batch_u1'') = Some (Inr sample_batch) \<and>
     map jp_ID (mpq_queue (w_queue w)) = [''batch_u1''] \<and>
     map_of (mdb_jobs (snd (w_store w))) ''batch_u1'' = Some 0 \<and> map job_ID (fst (w_store w)) = [''batch_u1'']"
  by code_simp

lemma with_requests_fields:
  "ps_store (sy_proc (with_requests x sy)) = w_store (snd x)" "ps_queue (sy_proc (with_requests x sy)) = w_queue (snd x)"
  "ps_pc (sy_proc (with_requests x sy)) = ps_pc (sy_proc sy)" "ps_pool (sy_proc (with_requests x sy)) = ps_pool (sy_proc sy)"
  "ps_running (sy_proc (with_requests x sy)) = ps_running (sy_proc sy)" "sy_acts (with_requests x sy) = fst x"
  by (simp_all add: with_requests_def put_world_def)

lemma cancelled_end:
  "map_option jobToBatch (mdb_look (ps_store (sy_proc cancelled_system)) ''batch_u1'')
     = Some (Inr (mark_cancelled sample_now sample_batch))"
  using cancelled_turns_end by (simp add: cancelled_system_def with_requests_fields split_def)

lemma created_end:
  "ps_pc (sy_proc created_system) = Waiting" "wp_workerIds (ps_pool (sy_proc created_system)) = [1]"
  "ps_running (sy_proc created_system) = []"
  "map_option jobToBatch (mdb_look (ps_store (sy_proc created_system)) ''batch_u1'') = Some (Inr sample_batch)"
  "map jp_ID (mpq_queue (ps_queue (sy_proc created_system))) = [''batch_u1'']"
  "map_of (mdb_jobs (snd (ps_store (sy_proc created_system)))) ''batch_u1'' = Some 0"
  "map job_ID (fst (ps_store (sy_proc created_system))) = [''batch_u1'']"
  using created_turns_end
  by (simp_all add: created_system_def with_requests_fields split_def sample_system_fields(4,5,6))

lemma taken_run: "(whole_step NewConfig one_at_a_time)\<^sup>*\<^sup>* (sample_system, None) (taken_system, Some (1, sample_task))"
proof -
  let ?P = "sy_proc created_system"
  have q: "mpq_queue (ps_queue ?P) = [sample_task]" using created_end(5) by (cases "mpq_queue (ps_queue ?P)") (auto simp: sample_task_def)
  then have "getTaskFromQueue (mock_queue (\<lambda>_. [])) (ps_queue ?P) = Returns (Some sample_task, (ps_queue ?P)\<lparr>mpq_queue := []\<rparr>)"
    using Dequeue_nonempty [of "ps_queue ?P" 1 "[]" 0] by (simp add: getTaskFromQueue_def mock_queue_def)
  from whole_step.dequeues [OF created_end(1,2) this refl]
  have "whole_step NewConfig one_at_a_time (created_system, None) (taken_system, Some (1, sample_task))"
    by (simp add: taken_system_def Let_def with_ids_def)
  then show ?thesis using side_run [OF created_run] by (rule rtranclp.rtrancl_into_rtrancl [rotated])
qed

lemma sample_task_ID: "jp_ID sample_task = ''batch_u1''"
  using created_end(5) by (cases "mpq_queue (ps_queue (sy_proc created_system))") (auto simp: sample_task_def)

lemma taken_end:
  "ps_pc (sy_proc taken_system) = Waiting" "ps_running (sy_proc taken_system) = []"
  "ptrs (ps_store (sy_proc taken_system)) ''batch_u1'' = Some 0" "job_at (ps_store (sy_proc taken_system)) 0 = ''batch_u1''"
  "ps_store (sy_proc taken_system) = ps_store (sy_proc created_system)"
  using created_end by (auto simp: taken_system_def with_ids_def Let_def ptrs_def job_at_def nth_Cons')

lemma working_run: "(whole_step NewConfig one_at_a_time)\<^sup>*\<^sup>* (sample_system, None) (working_system, None)"
proof -
  have "whole_step NewConfig one_at_a_time (taken_system, Some (1, sample_task)) (working_system, None)"
    unfolding working_system_def by (rule whole_step.fetches) (rule taken_end(1))
  then show ?thesis using taken_run by (rule rtranclp.rtrancl_into_rtrancl [rotated])
qed

lemma working_end:
  "ps_running (sy_proc working_system) = [(1, 0)]" "ps_pc (sy_proc working_system) = Waiting"
  "job_at (ps_store (sy_proc working_system)) 0 = ''batch_u1''" "sy_phase working_system 1 = Taken"
  using taken_end fetch_job_stored [of "sy_proc taken_system" sample_task 0] 
  by (simp_all add: working_system_def sample_task_ID)


section \<open>Properties\<close>

lemma whole_start_ok:
  assumes "system_start pcfg = Returns s0" and "(whole_step scfg pcfg)\<^sup>*\<^sup>* (s0, None) c"
  shows "fetch_ok c" "system_ok (pc_NumWorkers pcfg) (fetched c)"
  using whole_run_ok [OF assms(2), of "pc_NumWorkers pcfg"] system_start_ok [OF assms(1)] by simp_all

text \<open>What the accounts say of the batches in hand.\<close>

lemma in_hand_accounts:
  assumes "system_ok n (fetched (sy, f))" and "fetch_ok (sy, f)"
  defines "P \<equiv> sy_proc sy"
  shows "accounts (dom (ptrs (ps_store P))) (status_at (ps_store P)) (queued_ids (ps_queue P)) (claimed (sy_acts sy))
      (snd ` set (in_hand (sy, f))) (begun P) (\<Union> (removals ` set (sy_acts sy))) (\<Union> (updates ` set (sy_acts sy)))"
  using assms(1) unfolding in_hand_busy [OF assms(1,2)]
  by (simp add: system_ok_def sys_accounts_def Let_def begun_def P_def)

lemma accounts_hand: "accounts D V Q C B G R U \<Longrightarrow> B \<union> G \<subseteq> D \<and> (B \<union> G) \<inter> Q = {}"
  by (auto simp: accounts_def)

lemma in_hand_distinct:
  assumes "system_ok n (fetched c)" and "fetch_ok c"
  shows "distinct (map fst (in_hand c))" "set (map fst (in_hand c)) \<subseteq> {1..n}" "distinct (map snd (in_hand c))"
proof -
  let ?P = "sy_proc (fetched c)"
  let ?st = "ps_store ?P" and ?run = "ps_running ?P"
  have map: "in_hand c = map (\<lambda>(wid, p). (wid, job_at ?st p)) ?run" by (rule in_hand_fetched [OF assms])
  have "map fst (in_hand c) = map fst ?run" unfolding map by (simp add: split_def comp_def)
  then show "distinct (map fst (in_hand c))" "set (map fst (in_hand c)) \<subseteq> {1..n}"
    using poll_inv_workers [of n ?P] assms(1) by (simp_all add: system_ok_def)
  have run: "distinct (map snd ?run)" "\<forall>(wid, p) \<in> set ?run. ptrs ?st (job_at ?st p) = Some p"
    using assms(1) by (auto simp: system_ok_def workers_ok_def Let_def)
  have held: "ptrs ?st (job_at ?st p) = Some p" if "p \<in> snd ` set ?run" for p using run(2) that by auto
  have "inj_on (job_at ?st) (snd ` set ?run)"
  proof (rule inj_onI)
    fix p q
    assume "p \<in> snd ` set ?run" "q \<in> snd ` set ?run" "job_at ?st p = job_at ?st q"
    then show "p = q" using held by (metis option.inject)
  qed
  then have "distinct (map (job_at ?st) (map snd ?run))" using run(1) by (simp add: distinct_map comp_inj_on)
  then show "distinct (map snd (in_hand c))" unfolding map by (simp add: comp_def split_def)
qed

lemma stored_readable:
  assumes ok: "system_ok n (fetched (sy, f))" and "fetch_ok (sy, f)" and k: "mdb_look (ps_store (sy_proc sy)) k = Some j"
  shows "\<exists>b. jobToBatch j = Inr b \<and> b_ID b = k \<and>
      st_Status (b_Status b) \<in> {BatchStatusValidating, BatchStatusCancelling, BatchStatusCancelled}"
proof -
  have inv: "mdb_inv (ps_store (sy_proc sy))" "jobs_ok (mdb_look (ps_store (sy_proc sy)))"
    using ok by (auto simp: system_ok_def conc_ok_def api_world_def)
  obtain b where b: "carries j b" using inv(2) k by (auto simp: jobs_ok_def)
  then have "status_at (ps_store (sy_proc sy)) k = Some (st_Status (b_Status b))" using status_at_carries [OF k] by simp
  then have "st_Status (b_Status b) \<in> ran (status_at (ps_store (sy_proc sy)))" by (rule ranI)
  then have "st_Status (b_Status b) \<in> {BatchStatusValidating, BatchStatusCancelling, BatchStatusCancelled}"
    using in_hand_accounts [OF assms(1,2)] unfolding accounts_def by blast
  then show ?thesis using mdb.look_ID [OF inv(1) k] b jobToBatch_carries by (auto simp: carries_def)
qed

lemma notin_hand: "k \<notin> snd ` set (in_hand c) \<longleftrightarrow> (\<forall>(wid, k') \<in> set (in_hand c). k' \<noteq> k)"
  by force

text \<open>A batch that is at rest stays so.\<close>

lemma rest_stays:
  assumes "fetch_ok c" "system_ok n (fetched c)" and "sys_at_rest (fetched c) k" and "(whole_step scfg pcfg)\<^sup>*\<^sup>* c (sy', f')"
  shows "(\<forall>(wid, k') \<in> set (in_hand (sy', f')). k' \<noteq> k) \<and> k \<notin> queued_ids (ps_queue (sy_proc sy')) \<and>
     mst_content (ps_status (sy_proc sy')) k = mst_content (ps_status (sy_proc (fetched c))) k"
proof -
  have run: "fetch_ok (sy', f')" "system_ok n (fetched (sy', f'))" "(sys_step scfg pcfg)\<^sup>*\<^sup>* (fetched c) (fetched (sy', f'))"
    using whole_run_ok [OF assms(4,2,1)] by simp_all
  have "rest_kept k (fetched c) (fetched (sy', f'))" using sys_run_ok [OF run(3) assms(2), of k] assms(3) by simp
  then show ?thesis
    unfolding notin_hand [symmetric] in_hand_busy [OF run(2,1)]
    by (simp add: rest_kept_def sys_at_rest_def at_rest_def Let_def)
qed

text \<open>What the status store knows it keeps, and a worker that is about to begin finds no trace of its batch.\<close>

lemma poll_keeps_status:
  "ps_status (fetch_job dbc pqc wid task P) = ps_status P" "ps_status (poll_body dbc pqc wid P) = ps_status P"
  by (auto simp: poll_body_cut fetch_job_def Let_def split: prod.split sum.split go_result.split option.split)

lemma side_step_begun:
  assumes "side_step scfg pcfg sy sy'" and "system_ok n (fetched (sy, f))"
  shows "begun (sy_proc sy) \<subseteq> begun (sy_proc sy')"
  using assms
proof (induction rule: side_step.induct)
  case (worker_works sy wid p ord ph store status)
  obtain q where mine: "(wid, p) \<in> set (ps_running (sy_proc (fetched (sy, f))))" "sy_phase (fetched (sy, f)) wid = q"
    using worker_works(2) by (cases f) (auto simp: with_job_def)
  have distinct: "distinct (map fst (ps_running (sy_proc (fetched (sy, f)))))"
    using worker_works(4) poll_inv_workers by (auto simp: system_ok_def)
  then have "q = sy_phase sy wid" using mine worker_works(2) by (cases f) (force simp: with_job_def split: if_splits)+
  then have "ptrs (ps_store (sy_proc sy)) (job_at (ps_store (sy_proc sy)) p) = Some p"
    "sy_phase sy wid = Taken \<or> job_at (ps_store (sy_proc sy)) p \<in> dom (mst_content (ps_status (sy_proc sy)))"
    using worker_works(4) mine by (auto simp: system_ok_def workers_ok_def Let_def begun_def)
  from phase_step_stores [OF worker_works(3) this] show ?case by (auto simp: begun_def)
qed (simp_all add: begun_def put_world_def)

lemma whole_step_begun:
  assumes "whole_step scfg pcfg c c'" and "system_ok n (fetched c)"
  shows "begun (sy_proc (fst c)) \<subseteq> begun (sy_proc (fst c'))"
  using assms
proof (induction rule: whole_step.induct)
  case (goes_on sy sy' f)
  then show ?case using side_step_begun by simp
qed (simp_all add: begun_def with_ids_def poll_keeps_status)

lemma whole_run_begun:
  assumes "(whole_step scfg pcfg)\<^sup>*\<^sup>* c c'" and "system_ok n (fetched c)" and "fetch_ok c"
  shows "begun (sy_proc (fst c)) \<subseteq> begun (sy_proc (fst c'))"
  using assms
proof (induction rule: rtranclp_induct)
  case (step y z)
  then have "system_ok n (fetched y)" using whole_run_ok by blast
  then show ?case using whole_step_begun [OF step(2)] step by blast
qed simp

lemma about_to_begin:
  assumes ok: "system_ok n (fetched (sy, f))" and "fetch_ok (sy, f)"
  defines "P \<equiv> sy_proc sy"
  shows "f = Some (wid, task) \<Longrightarrow> jp_ID task \<notin> begun P"
    and "(wid, p) \<in> set (ps_running P) \<Longrightarrow> sy_phase sy wid = Taken \<Longrightarrow> job_at (ps_store P) p \<notin> begun P"
proof -
  have taken: "job_at (ps_store P) p \<notin> begun P"
    if "(wid, p) \<in> set (ps_running (sy_proc (fetched (sy, f))))" "sy_phase (fetched (sy, f)) wid = Taken" for wid p
    using ok that by (auto simp: system_ok_def workers_ok_def Let_def begun_def P_def)
  show "jp_ID task \<notin> begun P" if f: "f = Some (wid, task)"
  proof -
    have inv: "mdb_inv (ps_store (sy_proc sy))" using ok by (auto simp: system_ok_def conc_ok_def api_world_def)
    obtain p where p: "ptrs (ps_store P) (jp_ID task) = Some p" using assms(2) f by (auto simp: P_def)
    then have "job_at (ps_store P) p = jp_ID task"
      using mdb_inv_entry [OF inv] by (simp add: ptrs_def job_at_def P_def)
    then show ?thesis using taken [of wid p] p f by (simp add: with_job_def P_def)
  qed
  show "job_at (ps_store P) p \<notin> begun P" if "(wid, p) \<in> set (ps_running P)" "sy_phase sy wid = Taken"
  proof (rule taken)
    show "(wid, p) \<in> set (ps_running (sy_proc (fetched (sy, f))))" using that by (cases f) (auto simp: with_job_def P_def)
    show "sy_phase (fetched (sy, f)) wid = Taken" using that by (cases f) (auto simp: with_job_def)
  qed
qed

text \<open>C2: in every state of the whole system, with requests that overlap, a polling loop and workers
  that all take their steps in any order: no two jobs have the same worker and no two workers the
  same batch; a batch in a worker's hands is stored, readable and not in the queue; a batch that
  a worker has begun is not in the queue either; the queue is ordered by deadline and has no batch
  twice; and a client that reads a batch sees it validating, cancelling or cancelled.\<close>

theorem system_safe:
  assumes "system_start pcfg = Returns s0" and "(whole_step scfg pcfg)\<^sup>*\<^sup>* (s0, None) (s, f)"
  defines "P \<equiv> sy_proc s" and "hand \<equiv> in_hand (s, f)"
  shows "distinct (map fst hand) \<and> set (map fst hand) \<subseteq> {1..pc_NumWorkers pcfg} \<and> distinct (map snd hand) \<and>
    (\<forall>(wid, k) \<in> set hand. \<exists>j b. mdb_look (ps_store P) k = Some j \<and> jobToBatch j = Inr b \<and>
       k \<notin> queued_ids (ps_queue P)) \<and>
    (\<forall>k. mst_content (ps_status P) k = None \<or> k \<notin> queued_ids (ps_queue P)) \<and>
    sorted (map jp_SLO (mpq_queue (ps_queue P))) \<and> distinct (map jp_ID (mpq_queue (ps_queue P))) \<and>
    (\<forall>k j. mdb_look (ps_store P) k = Some j \<longrightarrow> (\<exists>b. jobToBatch j = Inr b \<and> b_ID b = k \<and>
       st_Status (b_Status b) \<in> {BatchStatusValidating, BatchStatusCancelling, BatchStatusCancelled}))"
proof -
  note ok = whole_start_ok [OF assms(1,2)]
  note readable = stored_readable [OF ok(2,1), folded P_def]
  note acc = in_hand_accounts [OF ok(2,1), folded P_def hand_def]
  have queue: "mpq_inv (ps_queue P)" "queued_ok (mdb_look (ps_store P)) (mpq_queue (ps_queue P))"
    using ok(2) by (auto simp: system_ok_def conc_ok_def api_world_def P_def)
  have "\<exists>j b. mdb_look (ps_store P) k = Some j \<and> jobToBatch j = Inr b \<and> k \<notin> queued_ids (ps_queue P)"
    if "(wid, k) \<in> set hand" for wid k
  proof -
    have "k \<in> snd ` set hand" using that by force
    then have "k \<in> dom (ptrs (ps_store P)) \<and> k \<notin> queued_ids (ps_queue P)" using accounts_hand [OF acc] by blast
    then obtain j where j: "mdb_look (ps_store P) k = Some j" by (auto simp: mdb_look_ptrs)
    then show ?thesis using readable [OF j] \<open>_ \<and> k \<notin> _\<close> by blast
  qed
  moreover have "begun P \<inter> queued_ids (ps_queue P) = {}" using accounts_hand [OF acc] by blast
  then have "mst_content (ps_status P) k = None \<or> k \<notin> queued_ids (ps_queue P)" for k
    unfolding begun_def by blast
  ultimately show ?thesis
    using in_hand_distinct [OF ok(2,1), folded hand_def] queue readable by (auto simp: queued_ok_def mpq_inv_def)
qed

theorem system_safe_witness:
  "\<exists>s f. (whole_step NewConfig one_at_a_time)\<^sup>*\<^sup>* (sample_system, None) (s, f) \<and> in_hand (s, f) = [(1, ''batch_u1'')] \<and>
     (\<exists>j b. mdb_look (ps_store (sy_proc s)) ''batch_u1'' = Some j \<and> jobToBatch j = Inr b) \<and>
     ''batch_u1'' \<notin> queued_ids (ps_queue (sy_proc s))"
proof -
  have "in_hand (taken_system, Some (1, sample_task)) = [(1, ''batch_u1'')]"
    by (simp add: in_hand_def taken_end sample_task_ID)
  moreover from this have "(1, ''batch_u1'') \<in> set (in_hand (taken_system, Some (1, sample_task)))" by simp
  then have "(\<exists>j b. mdb_look (ps_store (sy_proc taken_system)) ''batch_u1'' = Some j \<and> jobToBatch j = Inr b) \<and>
      ''batch_u1'' \<notin> queued_ids (ps_queue (sy_proc taken_system))"
    using system_safe [OF sample_system taken_run] by fast
  ultimately show ?thesis using taken_run by blast
qed

text \<open>C3: once a client can read that a batch is cancelled, no worker has it and no worker ever gets
  it: it is in no queue, and the status store never hears of it, although requests overlap and a
  later request may overwrite the status.\<close>

theorem cancelled_never_processed:
  assumes "system_start pcfg = Returns s0" and "(whole_step scfg pcfg)\<^sup>*\<^sup>* (s0, None) (s, f)"
    and "mdb_look (ps_store (sy_proc s)) k = Some j" and "jobToBatch j = Inr b"
    and "st_Status (b_Status b) = BatchStatusCancelled" and "(whole_step scfg pcfg)\<^sup>*\<^sup>* (s, f) (s', f')"
  shows "(\<forall>(wid, k') \<in> set (in_hand (s', f')). k' \<noteq> k) \<and> k \<notin> queued_ids (ps_queue (sy_proc s')) \<and>
     mst_content (ps_status (sy_proc s')) k = None"
proof -
  note ok = whole_start_ok [OF assms(1,2)]
  note stored = status_at_stored [OF assms(3,4), unfolded assms(5)]
  have rest: "sys_at_rest (fetched (s, f)) k" by (rule at_restI [OF ok(2)]) (use stored in simp_all)
  have "k \<notin> begun (sy_proc s)"
    using in_hand_accounts [OF ok(2,1)] stored(1) unfolding accounts_def by blast
  then have "mst_content (ps_status (sy_proc s)) k = None" by (auto simp: begun_def)
  then show ?thesis using rest_stays [OF ok rest assms(6)] by simp
qed

theorem cancelled_never_processed_witness:
  "(whole_step NewConfig one_at_a_time)\<^sup>*\<^sup>* (sample_system, None) (cancelled_system, None) \<and>
   ''batch_u1'' \<notin> queued_ids (ps_queue (sy_proc cancelled_system)) \<and>
   mst_content (ps_status (sy_proc cancelled_system)) ''batch_u1'' = None"
proof -
  obtain j where j: "mdb_look (ps_store (sy_proc cancelled_system)) ''batch_u1'' = Some j"
    "jobToBatch j = Inr (mark_cancelled sample_now sample_batch)"
    using cancelled_end by auto
  note run = side_run [OF cancelled_run, of None]
  from cancelled_never_processed [OF sample_system run j _ rtranclp.rtrancl_refl] run
  show ?thesis by simp
qed

text \<open>C4: no batch is processed twice. Once a worker has begun a batch, it is not in the queue, and no
  worker is ever about to begin it: it is not being fetched, and a worker that has it has begun it.
  Once that worker has let go of it, nobody has it again, and its entry in the status store stays.\<close>

theorem processed_once:
  assumes "system_start pcfg = Returns s0" and "(whole_step scfg pcfg)\<^sup>*\<^sup>* (s0, None) (s, f)"
    and "mst_content (ps_status (sy_proc s)) k = Some v" and "(whole_step scfg pcfg)\<^sup>*\<^sup>* (s, f) (s', f')"
  defines "P' \<equiv> sy_proc s'"
  shows "mst_content (ps_status P') k \<noteq> None \<and> k \<notin> queued_ids (ps_queue P') \<and>
     (\<forall>wid task. f' = Some (wid, task) \<longrightarrow> jp_ID task \<noteq> k) \<and>
     (\<forall>(wid, p) \<in> set (ps_running P'). job_at (ps_store P') p = k \<longrightarrow> sy_phase s' wid \<noteq> Taken) \<and>
     (k \<notin> snd ` set (in_hand (s, f)) \<longrightarrow>
        k \<notin> snd ` set (in_hand (s', f')) \<and> mst_content (ps_status P') k = Some v)"
proof -
  note ok = whole_start_ok [OF assms(1,2)]
  note ok' = whole_run_ok [OF assms(4) ok(2,1)]
  have k: "k \<in> begun (sy_proc s)" using assms(3) by (auto simp: begun_def)
  then have begun: "k \<in> begun P'" using whole_run_begun [OF assms(4) ok(2,1)] by (auto simp: P'_def)
  note acc = in_hand_accounts [of "pc_NumWorkers pcfg" s' f', folded P'_def]
  have queue: "k \<notin> queued_ids (ps_queue P')" using accounts_hand [OF acc] ok' begun by blast
  have fresh: "\<forall>wid task. f' = Some (wid, task) \<longrightarrow> jp_ID task \<noteq> k"
    "\<forall>(wid, p) \<in> set (ps_running P'). job_at (ps_store P') p = k \<longrightarrow> sy_phase s' wid \<noteq> Taken"
    using about_to_begin [OF conjunct1 [OF conjunct2 [OF ok']] conjunct1 [OF ok']] begun unfolding P'_def by blast+
  have "k \<notin> snd ` set (in_hand (s', f')) \<and> mst_content (ps_status P') k = Some v"
    if free: "k \<notin> snd ` set (in_hand (s, f))"
  proof -
    have "k \<in> dom (ptrs (ps_store (sy_proc s)))"
      using accounts_hand [OF in_hand_accounts [OF ok(2,1)]] k by blast
    then have "sys_at_rest (fetched (s, f)) k"
      by (intro at_restI [OF ok(2)]) (use k free in \<open>simp_all add: in_hand_busy [OF ok(2,1)] begun_def\<close>)
    then show ?thesis
      using rest_stays [OF ok _ assms(4)] assms(3) unfolding notin_hand by (simp add: P'_def)
  qed
  then show ?thesis using begun queue fresh by (auto simp: begun_def)
qed

theorem processed_once_witness:
  "\<exists>s. (whole_step NewConfig one_at_a_time)\<^sup>*\<^sup>* (sample_system, None) (s, None) \<and> in_hand (s, None) = [] \<and>
     mst_content (ps_status (sy_proc s)) ''batch_u1'' = Some StatusCompleted \<and>
     ''batch_u1'' \<notin> queued_ids (ps_queue (sy_proc s))"
proof -
  let ?P = "sy_proc working_system"
  obtain r u where u: "(phase_step (mock_db id) mock_status one_at_a_time 0)\<^sup>*\<^sup>* (Taken, ps_store ?P, ps_status ?P)
      (Ended r, phase_status mock_status 0 StatusCompleted u)" "fst (fst u) = fst (ps_store ?P)"
    using sample_phases [of id mock_status 0 "(ps_store ?P, ps_status ?P)"] by auto
  obtain st t where st: "u = (st, t)" by fastforce
  let ?s1 = "at_phase 1 (Ended r, phase_status mock_status 0 StatusCompleted u) working_system"
  have "at_phase 1 (Taken, ps_store ?P, ps_status ?P) working_system = working_system"
    using working_end by (simp add: at_phase_def fun_upd_idem)
  then have run: "(side_step NewConfig one_at_a_time)\<^sup>*\<^sup>* working_system ?s1"
    using worker_run [OF u(1), of working_system 1] working_end by (simp add: loop_alive_def)
  let ?s2 = "?s1\<lparr>sy_proc := release_then (ps_pc (sy_proc ?s1)) 1 ((sy_proc ?s1)\<lparr>ps_running := [] @ []\<rparr>)\<rparr>"
  have "side_step NewConfig one_at_a_time ?s1 ?s2"
    by (rule side_step.worker_ends)
      (use working_end in \<open>auto simp: at_phase_def loop_alive_def split: prod.split\<close>)
  then have "(side_step NewConfig one_at_a_time)\<^sup>*\<^sup>* working_system ?s2" using run by (rule rtranclp.rtrancl_into_rtrancl [rotated])
  from rtranclp_trans [OF working_run side_run [OF this, of None]]
  have reach: "(whole_step NewConfig one_at_a_time)\<^sup>*\<^sup>* (sample_system, None) (?s2, None)" .
  have "job_ID (fst st ! 0) = ''batch_u1''" using working_end u(2) by (simp add: st job_at_def)
  then have done_: "mst_content (ps_status (sy_proc ?s2)) ''batch_u1'' = Some StatusCompleted" "in_hand (?s2, None) = []"
    by (simp_all add: at_phase_def st phase_status_def set_status_def mock_status_def set_then_content in_hand_def)
  from processed_once [OF sample_system reach done_(1) rtranclp.rtrancl_refl]
  show ?thesis using reach done_ by blast
qed

text \<open>C5: no batch is lost: as long as a stored batch is validating, it waits in the queue, or its
  create request is about to queue it, or a worker has it, or a worker has begun it, or a cancel
  request is about to write its new status.\<close>

theorem no_batch_lost:
  assumes "system_start pcfg = Returns s0" and "(whole_step scfg pcfg)\<^sup>*\<^sup>* (s0, None) (s, f)"
    and "mdb_look (ps_store (sy_proc s)) k = Some j" and "jobToBatch j = Inr b"
    and "st_Status (b_Status b) = BatchStatusValidating"
  defines "P \<equiv> sy_proc s"
  shows "k \<in> queued_ids (ps_queue P) \<or> (\<exists>x c. Enqueueing x c \<in> set (sy_acts s) \<and> jp_ID x = k) \<or>
     k \<in> snd ` set (in_hand (s, f)) \<or> mst_content (ps_status P) k \<noteq> None \<or>
     (\<exists>p c. Updating p c \<in> set (sy_acts s) \<and> b_ID c = k)"
proof -
  note ok = whole_start_ok [OF assms(1,2)]
  note stored = status_at_stored [OF assms(3,4), unfolded assms(5)]
  have acts: "\<forall>a \<in> set (sy_acts s). activity_ok (mdb_look (ps_store P)) (fst (ps_store P)) (mpq_queue (ps_queue P)) a"
    using ok(2) by (auto simp: system_ok_def conc_ok_def api_world_def P_def)
  have "k \<in> queued_ids (ps_queue P) \<union> claimed (sy_acts s) \<union> snd ` set (in_hand (s, f)) \<union> begun P \<union>
      \<Union> (updates ` set (sy_acts s))"
    using in_hand_accounts [OF ok(2,1), folded P_def] stored(1) unfolding accounts_def P_def by blast
  moreover have "\<exists>x c. Enqueueing x c \<in> set (sy_acts s) \<and> jp_ID x = k" if "k \<in> claimed (sy_acts s)"
  proof -
    have "\<exists>a \<in> set (sy_acts s). k \<in> set (claims a)" using that by (auto simp: claimed_def)
    then obtain a where a: "a \<in> set (sy_acts s)" "k \<in> set (claims a)" by blast
    have "activity_ok (mdb_look (ps_store P)) (fst (ps_store P)) (mpq_queue (ps_queue P)) a" using acts a(1) by blast
    then show ?thesis using a assms(3) by (cases a) (auto simp: P_def)
  qed
  moreover have "\<exists>p c. Updating p c \<in> set (sy_acts s) \<and> b_ID c = k" if "k \<in> \<Union> (updates ` set (sy_acts s))"
  proof -
    have "\<exists>a \<in> set (sy_acts s). k \<in> updates a" using that by simp
    then obtain a where a: "a \<in> set (sy_acts s)" "k \<in> updates a" by blast
    show ?thesis by (cases a) (use a in auto)
  qed
  moreover have "mst_content (ps_status P) k \<noteq> None" if "k \<in> begun P" using that by (auto simp: begun_def)
  ultimately show ?thesis by blast
qed

theorem no_batch_lost_witness:
  "\<exists>j b. mdb_look (ps_store (sy_proc taken_system)) ''batch_u1'' = Some j \<and> jobToBatch j = Inr b \<and>
     (''batch_u1'' \<in> queued_ids (ps_queue (sy_proc taken_system)) \<or>
      (\<exists>x c. Enqueueing x c \<in> set (sy_acts taken_system) \<and> jp_ID x = ''batch_u1'') \<or>
      ''batch_u1'' \<in> snd ` set (in_hand (taken_system, Some (1, sample_task))) \<or>
      mst_content (ps_status (sy_proc taken_system)) ''batch_u1'' \<noteq> None \<or>
      (\<exists>p c. Updating p c \<in> set (sy_acts taken_system) \<and> b_ID c = ''batch_u1''))"
proof -
  obtain j where j: "mdb_look (ps_store (sy_proc taken_system)) ''batch_u1'' = Some j" "jobToBatch j = Inr sample_batch"
    using created_end(4) taken_end(5) by auto
  have "st_Status (b_Status sample_batch) = BatchStatusValidating" by (simp add: sample_batch_def create_status_def)
  from no_batch_lost [OF sample_system taken_run j this] show ?thesis using j by blast
qed

end
