(* ===== verification/ProcMetrics.thy ===== *)
theory ProcMetrics
  imports ProcessorConf OpenAI
begin

text \<open>
  The metrics of the batch processor (\<open>internal/processor/metrics/metrics.go\<close>). The package's
  variables point to collectors, which are kept in the order of their creation with the calls made
  on them. Prometheus is a parameter: \<open>pr_ExponentialBuckets\<close> may panic, \<open>pr_Register\<close> is the default
  registry, of type \<open>'g\<close>.
\<close>

section \<open>Labels\<close>

definition ResultSuccess :: string where "ResultSuccess = ''success''"
definition ResultFailed :: string where "ResultFailed = ''failed''"
definition ReasonUnknown :: string where "ReasonUnknown = ''unknown''"
definition ReasonUserError :: string where "ReasonUserError = ''user_error''"
definition ReasonSystemError :: string where "ReasonSystemError = ''system_error''"
definition Bucket100 :: string where "Bucket100 = ''100''"
definition Bucket1000 :: string where "Bucket1000 = ''1000''"
definition Bucket10000 :: string where "Bucket10000 = ''10000''"
definition Bucket30000 :: string where "Bucket30000 = ''30000''"
definition BucketLarge :: string where "BucketLarge = ''large''"

definition GetSizeBucket :: "int \<Rightarrow> string" where
  "GetSizeBucket totalLines =
     (if totalLines < 100 then Bucket100
      else if totalLines < 1000 then Bucket1000
      else if totalLines < 10000 then Bucket10000
      else if totalLines < 30000 then Bucket30000
      else BucketLarge)"

section \<open>Collectors\<close>

datatype collector_op = OpInc "string list" | OpDec | OpSet int | OpObserve "string list" duration

record 'b collector =
  co_Name :: string
  co_Help :: string
  co_Labels :: "string list"
  co_Buckets :: "'b option"
  co_ops :: "collector_op list"

text \<open>The variables of the package are nil pointers until \<open>InitMetrics\<close> runs.\<close>

record ('b, 'g) proc_metrics =
  pm_objects :: "'b collector list"
  pm_registry :: 'g
  pm_jobsProcessed :: "nat option"
  pm_jobProcessingDuration :: "nat option"
  pm_jobQueueWaitDuration :: "nat option"
  pm_totalWorkers :: "nat option"
  pm_activeWorkers :: "nat option"
  pm_jobErrorsModelTotal :: "nat option"

datatype register_error = AlreadyRegisteredError | RegisterError error

record ('b, 'g) prometheus =
  pr_ExponentialBuckets :: "decimal \<Rightarrow> decimal \<Rightarrow> int \<Rightarrow> 'b go_result"
  pr_Register :: "'b collector list \<Rightarrow> nat \<Rightarrow> 'g \<Rightarrow> register_error option \<times> 'g"

definition exponential :: "('b, 'g) prometheus \<Rightarrow> BucketConfig \<Rightarrow> 'b go_result" where
  "exponential p b = pr_ExponentialBuckets p (bk_BucketStart b) (bk_BucketFactor b) (bk_BucketCount b)"

fun register_metrics ::
  "('b, 'g) prometheus \<Rightarrow> 'b collector list \<Rightarrow> nat list \<Rightarrow> 'g \<Rightarrow> error option \<times> 'g" where
  "register_metrics p objects [] g = (None, g)"
| "register_metrics p objects (metric # metrics) g =
     (case pr_Register p objects metric g of
        (None, g) \<Rightarrow> register_metrics p objects metrics g
      | (Some AlreadyRegisteredError, g) \<Rightarrow> register_metrics p objects metrics g
      | (Some (RegisterError err), g) \<Rightarrow> (Some err, g))"

definition InitMetrics ::
  "('b, 'g) prometheus \<Rightarrow> ProcessorConfig \<Rightarrow> ('b, 'g) proc_metrics
    \<Rightarrow> error option go_result \<times> ('b, 'g) proc_metrics" where
  "InitMetrics p cfg s =
     (let n = length (pm_objects s);
          s = s\<lparr>pm_objects := pm_objects s @
                 [\<lparr>co_Name = ''jobs_processed_total'', co_Help = ''Total number of jobs processed'',
                   co_Labels = [''result'', ''reason''], co_Buckets = None, co_ops = []\<rparr>,
                  \<lparr>co_Name = ''total_workers'', co_Help = ''Total number of configured workers'',
                   co_Labels = [], co_Buckets = None, co_ops = [OpSet (pc_NumWorkers cfg)]\<rparr>,
                  \<lparr>co_Name = ''active_workers'', co_Help = ''Current number of active workers processing jobs'',
                   co_Labels = [], co_Buckets = None, co_ops = []\<rparr>,
                  \<lparr>co_Name = ''job_errors_by_model_total'', co_Help = ''Total number of job processing errors by model'',
                   co_Labels = [''model''], co_Buckets = None, co_ops = []\<rparr>],
                pm_jobsProcessed := Some n, pm_totalWorkers := Some (n + 1),
                pm_activeWorkers := Some (n + 2), pm_jobErrorsModelTotal := Some (n + 3)\<rparr>
      in case exponential p (pc_ProcessTimeBucket cfg) of
           Panics msg \<Rightarrow> (Panics msg, s)
         | Blocks \<Rightarrow> (Blocks, s)
         | Returns buckets \<Rightarrow>
     (let s = s\<lparr>pm_objects := pm_objects s @
                 [\<lparr>co_Name = ''job_processing_duration_seconds'', co_Help = ''Duration of job processing in seconds'',
                   co_Labels = [''tenantID'', ''size_bucket''], co_Buckets = Some buckets, co_ops = []\<rparr>],
                pm_jobProcessingDuration := Some (n + 4)\<rparr>
      in case exponential p (pc_QueueTimeBucket cfg) of
           Panics msg \<Rightarrow> (Panics msg, s)
         | Blocks \<Rightarrow> (Blocks, s)
         | Returns buckets \<Rightarrow>
     (let s = s\<lparr>pm_objects := pm_objects s @
                 [\<lparr>co_Name = ''job_queue_wait_duration'', co_Help = ''Time spent in the priority queue before being picked up'',
                   co_Labels = [''tenantID''], co_Buckets = Some buckets, co_ops = []\<rparr>],
                pm_jobQueueWaitDuration := Some (n + 5)\<rparr>;
          metricsToRegister = [n + 4, n + 5, n + 1, n + 2, n, n + 3];
          (err, g) = register_metrics p (pm_objects s) metricsToRegister (pm_registry s)
      in (Returns err, s\<lparr>pm_registry := g\<rparr>))))"

section \<open>Recorders\<close>

text \<open>A vector of collectors panics on a label value that is not UTF-8; its message is not modelled.\<close>

fun op_labels :: "collector_op \<Rightarrow> string list" where
  "op_labels (OpInc ls) = ls"
| "op_labels (OpObserve ls d) = ls"
| "op_labels _ = []"

definition record_on ::
  "nat option \<Rightarrow> collector_op \<Rightarrow> ('b, 'g) proc_metrics \<Rightarrow> unit go_result \<times> ('b, 'g) proc_metrics" where
  "record_on c x s =
     (case c of
        None \<Rightarrow> (Panics nil_dereference, s)
      | Some i \<Rightarrow>
          (if list_all utf8_valid (op_labels x) then
             (Returns (), s\<lparr>pm_objects :=
                (pm_objects s)[i := (pm_objects s ! i)\<lparr>co_ops := co_ops (pm_objects s ! i) @ [x]\<rparr>]\<rparr>)
           else (Panics ''label value is not valid UTF-8'', s)))"

definition RecordQueueWaitDuration ::
  "duration \<Rightarrow> string \<Rightarrow> ('b, 'g) proc_metrics \<Rightarrow> unit go_result \<times> ('b, 'g) proc_metrics" where
  "RecordQueueWaitDuration elapsed tenantID s = record_on (pm_jobQueueWaitDuration s) (OpObserve [tenantID] elapsed) s"

definition RecordJobProcessed ::
  "string \<Rightarrow> string \<Rightarrow> ('b, 'g) proc_metrics \<Rightarrow> unit go_result \<times> ('b, 'g) proc_metrics" where
  "RecordJobProcessed res reason s = record_on (pm_jobsProcessed s) (OpInc [res, reason]) s"

definition RecordJobProcessingDuration ::
  "duration \<Rightarrow> string \<Rightarrow> string \<Rightarrow> ('b, 'g) proc_metrics \<Rightarrow> unit go_result \<times> ('b, 'g) proc_metrics" where
  "RecordJobProcessingDuration elapsed tenantID sizeBucket s =
     record_on (pm_jobProcessingDuration s) (OpObserve [tenantID, sizeBucket] elapsed) s"

definition IncActiveWorkers :: "('b, 'g) proc_metrics \<Rightarrow> unit go_result \<times> ('b, 'g) proc_metrics" where
  "IncActiveWorkers s = record_on (pm_activeWorkers s) (OpInc []) s"

definition DecActiveWorkers :: "('b, 'g) proc_metrics \<Rightarrow> unit go_result \<times> ('b, 'g) proc_metrics" where
  "DecActiveWorkers s = record_on (pm_activeWorkers s) OpDec s"

definition RecordJobError :: "string \<Rightarrow> ('b, 'g) proc_metrics \<Rightarrow> unit go_result \<times> ('b, 'g) proc_metrics" where
  "RecordJobError model s = record_on (pm_jobErrorsModelTotal s) (OpInc [model]) s"

section \<open>Registration\<close>

text \<open>The descriptor of a collector: its name, help and labels. A name is valid in the original
  alphabet of Prometheus.\<close>

definition is_name_letter :: "char \<Rightarrow> bool" where
  "is_name_letter c \<longleftrightarrow>
     (let n = of_char c :: nat in 97 \<le> n \<and> n \<le> 122 \<or> 65 \<le> n \<and> n \<le> 90 \<or> c = CHR ''_'')"

definition valid_name :: "string \<Rightarrow> bool" where
  "valid_name s \<longleftrightarrow> s \<noteq> [] \<and> is_name_letter (hd s) \<and> list_all (\<lambda>c. is_name_letter c \<or> is_digit c) s"

definition co_Desc :: "'b collector \<Rightarrow> string \<times> string \<times> string list" where
  "co_Desc c = (co_Name c, co_Help c, co_Labels c)"

definition valid_desc :: "'b collector \<Rightarrow> bool" where
  "valid_desc c \<longleftrightarrow> valid_name (co_Name c) \<and> list_all valid_name (co_Labels c) \<and> distinct (co_Labels c)"

text \<open>
  What \<open>Registerer.Register\<close> documents, for a collector with a valid descriptor and a name that is not
  one of the registry's own collectors (\<open>own\<close>, those of the Go runtime and the process): under a new
  name it is registered, and exported from now on; if it is equal to a registered collector, which
  means the same descriptor, the error is \<open>AlreadyRegisteredError\<close> and the registered one stays. Nothing is
  said of a name that is taken with other help or other labels, which is a plain error.
  \<open>exports g n\<close> is the collector exported under a name, and \<open>kept objects g\<close> says that \<open>g\<close> has
  registered only collectors of \<open>objects\<close> besides its own, and unregistered none.
\<close>

definition register_law ::
  "('b, 'g) prometheus \<Rightarrow> string set \<Rightarrow> ('b collector list \<Rightarrow> 'g \<Rightarrow> bool) \<Rightarrow> ('g \<Rightarrow> string \<Rightarrow> nat option)
    \<Rightarrow> bool" where
  "register_law p own kept exports \<longleftrightarrow>
     (\<forall>objects i g. kept objects g \<longrightarrow> i < length objects \<longrightarrow> valid_desc (objects ! i) \<longrightarrow>
        co_Name (objects ! i) \<notin> own \<longrightarrow>
        (case exports g (co_Name (objects ! i)) of
           Some j \<Rightarrow> co_Desc (objects ! j) = co_Desc (objects ! i) \<longrightarrow>
             pr_Register p objects i g = (Some AlreadyRegisteredError, g)
         | None \<Rightarrow> \<exists>g'. pr_Register p objects i g = (None, g') \<and> kept objects g' \<and>
             exports g' = (exports g)(co_Name (objects ! i) \<mapsto> i))) \<and>
     (\<forall>objects more g. kept objects g \<longrightarrow> kept (objects @ more) g)"

text \<open>A collector whose name is free, or taken by an equal one.\<close>

definition registrable ::
  "string set \<Rightarrow> ('g \<Rightarrow> string \<Rightarrow> nat option) \<Rightarrow> 'b collector list \<Rightarrow> 'g \<Rightarrow> 'b collector \<Rightarrow> bool" where
  "registrable own exports objects g c \<longleftrightarrow> valid_desc c \<and> co_Name c \<notin> own \<and>
     (\<forall>j. exports g (co_Name c) = Some j \<longrightarrow> co_Desc (objects ! j) = co_Desc c)"

lemma register_one:
  assumes "register_law p own kept exports" and "kept objects g" and "i < length objects"
    and "registrable own exports objects g (objects ! i)"
  shows "\<exists>e g'. pr_Register p objects i g = (e, g') \<and> (e = None \<or> e = Some AlreadyRegisteredError) \<and>
    kept objects g' \<and> exports g' = (exports g)(co_Name (objects ! i) :=
      (case exports g (co_Name (objects ! i)) of None \<Rightarrow> Some i | Some j \<Rightarrow> Some j))"
proof -
  from assms have "case exports g (co_Name (objects ! i)) of
     Some j \<Rightarrow> co_Desc (objects ! j) = co_Desc (objects ! i) \<longrightarrow>
       pr_Register p objects i g = (Some AlreadyRegisteredError, g)
   | None \<Rightarrow> \<exists>g'. pr_Register p objects i g = (None, g') \<and> kept objects g' \<and>
       exports g' = (exports g)(co_Name (objects ! i) \<mapsto> i)"
    unfolding register_law_def registrable_def by blast
  then show ?thesis using assms(2,4)
    by (cases "exports g (co_Name (objects ! i))") (auto simp: registrable_def fun_upd_idem)
qed

text \<open>After the loop, a name is exported as before, or by the first collector that brings it.\<close>

lemma register_metrics_exports:
  assumes "register_law p own kept exports" and "distinct (map (\<lambda>i. co_Name (objects ! i)) metrics)"
    and "kept objects g" and "\<forall>i \<in> set metrics. i < length objects \<and> registrable own exports objects g (objects ! i)"
  shows "\<exists>g'. register_metrics p objects metrics g = (None, g') \<and> kept objects g' \<and>
    (\<forall>i \<in> set metrics. exports g' (co_Name (objects ! i)) =
       (case exports g (co_Name (objects ! i)) of None \<Rightarrow> Some i | Some j \<Rightarrow> Some j)) \<and>
    (\<forall>n. n \<notin> (\<lambda>i. co_Name (objects ! i)) ` set metrics \<longrightarrow> exports g' n = exports g n)"
  using assms(2-)
proof (induction metrics arbitrary: g)
  case (Cons m ms)
  let ?n = "co_Name (objects ! m)"
  have d: "distinct (map (\<lambda>i. co_Name (objects ! i)) ms)" "?n \<notin> (\<lambda>i. co_Name (objects ! i)) ` set ms"
    using Cons(2) by simp_all
  then have ne: "\<forall>i \<in> set ms. co_Name (objects ! i) \<noteq> ?n" by (metis image_eqI)
  obtain e g1 where r: "pr_Register p objects m g = (e, g1)" "e = None \<or> e = Some AlreadyRegisteredError"
    "kept objects g1" and ex: "exports g1 = (exports g)(?n := (case exports g ?n of None \<Rightarrow> Some m | Some j \<Rightarrow> Some j))"
    using register_one [OF assms(1) Cons.prems(2), of m] Cons.prems(3) by auto
  have "\<forall>i \<in> set ms. i < length objects \<and> registrable own exports objects g1 (objects ! i)"
    using Cons.prems(3) ne ex by (simp add: registrable_def)
  from Cons.IH [OF d(1) r(3) this] obtain g' where g': "register_metrics p objects ms g1 = (None, g')" "kept objects g'"
    "\<forall>i \<in> set ms. exports g' (co_Name (objects ! i)) =
       (case exports g1 (co_Name (objects ! i)) of None \<Rightarrow> Some i | Some j \<Rightarrow> Some j)"
    "\<forall>n. n \<notin> (\<lambda>i. co_Name (objects ! i)) ` set ms \<longrightarrow> exports g' n = exports g1 n"
    by blast
  have "register_metrics p objects (m # ms) g = (None, g')" using r(1,2) g'(1) by auto
  moreover have "exports g' ?n = (case exports g ?n of None \<Rightarrow> Some m | Some j \<Rightarrow> Some j)"
    using g'(4) d(2) ex by simp
  moreover have "\<forall>i \<in> set ms. exports g' (co_Name (objects ! i)) =
       (case exports g (co_Name (objects ! i)) of None \<Rightarrow> Some i | Some j \<Rightarrow> Some j)"
    using g'(3) ne ex by simp
  ultimately show ?case using g'(2,4) ex by simp
qed simp

section \<open>After a first and a second initialisation\<close>

text \<open>The variables, with the names their collectors are registered under.\<close>

definition variables :: "('b, 'g) proc_metrics \<Rightarrow> (string \<times> nat option) list" where
  "variables s =
     [(''job_processing_duration_seconds'', pm_jobProcessingDuration s),
      (''job_queue_wait_duration'', pm_jobQueueWaitDuration s),
      (''total_workers'', pm_totalWorkers s), (''active_workers'', pm_activeWorkers s),
      (''jobs_processed_total'', pm_jobsProcessed s), (''job_errors_by_model_total'', pm_jobErrorsModelTotal s)]"

text \<open>The collectors that an initialisation makes.\<close>

definition new_collectors :: "ProcessorConfig \<Rightarrow> 'b \<Rightarrow> 'b \<Rightarrow> 'b collector list" where
  "new_collectors cfg b1 b2 =
    [\<lparr>co_Name = ''jobs_processed_total'', co_Help = ''Total number of jobs processed'',
       co_Labels = [''result'', ''reason''], co_Buckets = None, co_ops = []\<rparr>,
     \<lparr>co_Name = ''total_workers'', co_Help = ''Total number of configured workers'',
       co_Labels = [], co_Buckets = None, co_ops = [OpSet (pc_NumWorkers cfg)]\<rparr>,
     \<lparr>co_Name = ''active_workers'', co_Help = ''Current number of active workers processing jobs'',
       co_Labels = [], co_Buckets = None, co_ops = []\<rparr>,
     \<lparr>co_Name = ''job_errors_by_model_total'', co_Help = ''Total number of job processing errors by model'',
       co_Labels = [''model''], co_Buckets = None, co_ops = []\<rparr>,
     \<lparr>co_Name = ''job_processing_duration_seconds'', co_Help = ''Duration of job processing in seconds'',
       co_Labels = [''tenantID'', ''size_bucket''], co_Buckets = Some b1, co_ops = []\<rparr>,
     \<lparr>co_Name = ''job_queue_wait_duration'', co_Help = ''Time spent in the priority queue before being picked up'',
       co_Labels = [''tenantID''], co_Buckets = Some b2, co_ops = []\<rparr>]"

lemma new_collectors_valid: "list_all valid_desc (new_collectors cfg b1 b2)"
  by (simp add: new_collectors_def valid_desc_def valid_name_def is_name_letter_def Let_def)

lemma new_collectors_desc:
  "map co_Desc (new_collectors cfg b1 b2) = map co_Desc (new_collectors cfg' b3 b4)"
  by (simp add: new_collectors_def co_Desc_def)

lemma InitMetrics_variables:
  assumes law: "register_law p own kept exports" and kept: "kept (pm_objects s) (pm_registry s)"
    and b: "exponential p (pc_ProcessTimeBucket cfg) = Returns b1" "exponential p (pc_QueueTimeBucket cfg) = Returns b2"
    and own: "\<forall>c \<in> set (new_collectors cfg b1 b2). co_Name c \<notin> own \<and>
      (\<forall>j. exports (pm_registry s) (co_Name c) = Some j \<longrightarrow>
         j < length (pm_objects s) \<and> co_Desc (pm_objects s ! j) = co_Desc c)"
  shows "\<exists>s'. InitMetrics p cfg s = (Returns None, s') \<and> kept (pm_objects s') (pm_registry s') \<and>
    pm_objects s' = pm_objects s @ new_collectors cfg b1 b2 \<and>
    (let n = length (pm_objects s)
     in variables s' = [(''job_processing_duration_seconds'', Some (n + 4)), (''job_queue_wait_duration'', Some (n + 5)),
          (''total_workers'', Some (n + 1)), (''active_workers'', Some (n + 2)), (''jobs_processed_total'', Some n),
          (''job_errors_by_model_total'', Some (n + 3))]) \<and>
    (\<forall>(n, v) \<in> set (variables s').
       exports (pm_registry s') n = (case exports (pm_registry s) n of None \<Rightarrow> v | Some j \<Rightarrow> Some j))"
proof -
  define n where "n = length (pm_objects s)"
  define objects where "objects = pm_objects s @ new_collectors cfg b1 b2"
  have names: "co_Name (objects ! n) = ''jobs_processed_total''" "co_Name (objects ! (n + 1)) = ''total_workers''"
    "co_Name (objects ! (n + 2)) = ''active_workers''" "co_Name (objects ! (n + 3)) = ''job_errors_by_model_total''"
    "co_Name (objects ! (n + 4)) = ''job_processing_duration_seconds''"
    "co_Name (objects ! (n + 5)) = ''job_queue_wait_duration''" and len: "length objects = n + 6"
    by (simp_all add: objects_def n_def nth_append new_collectors_def)
  let ?ids = "[n + 4, n + 5, n + 1, n + 2, n, n + 3]"
  have dist: "distinct (map (\<lambda>i. co_Name (objects ! i)) ?ids)" using names by simp
  have kept': "kept objects (pm_registry s)" using law kept by (simp add: register_law_def objects_def)
  have "i < length objects \<and> registrable own exports objects (pm_registry s) (objects ! i)" if "i \<in> set ?ids" for i
  proof -
    have i: "i < length objects" "n \<le> i" using that len by auto
    then have mem: "objects ! i \<in> set (new_collectors cfg b1 b2)"
      by (auto simp: objects_def n_def nth_append)
    then have "valid_desc (objects ! i)"
      using new_collectors_valid [of cfg b1 b2] by (simp add: list_all_iff)
    moreover have "objects ! j = pm_objects s ! j" if "j < length (pm_objects s)" for j
      using that by (simp add: objects_def nth_append)
    ultimately show ?thesis using bspec [OF own mem] i(1) unfolding registrable_def by metis
  qed
  with register_metrics_exports [OF law dist kept'] obtain g' where
    g': "register_metrics p objects ?ids (pm_registry s) = (None, g')" "kept objects g'"
    and ex: "\<forall>i \<in> set ?ids. exports g' (co_Name (objects ! i)) =
       (case exports (pm_registry s) (co_Name (objects ! i)) of None \<Rightarrow> Some i | Some j \<Rightarrow> Some j)"
    by blast
  define s' where "s' = s\<lparr>pm_objects := objects, pm_registry := g', pm_jobsProcessed := Some n,
    pm_totalWorkers := Some (n + 1), pm_activeWorkers := Some (n + 2), pm_jobErrorsModelTotal := Some (n + 3),
    pm_jobProcessingDuration := Some (n + 4), pm_jobQueueWaitDuration := Some (n + 5)\<rparr>"
  have run: "InitMetrics p cfg s = (Returns None, s')"
    using b g'(1)
    by (simp add: InitMetrics_def Let_def s'_def objects_def new_collectors_def n_def del: register_metrics.simps)
  show ?thesis
    by (rule exI [of _ s'])
      (use run ex names g'(2) in \<open>simp add: variables_def s'_def n_def [symmetric] objects_def\<close>)
qed

lemma InitMetrics_buckets:
  assumes "InitMetrics p cfg s = (Returns e, s')"
  obtains b1 b2 where "exponential p (pc_ProcessTimeBucket cfg) = Returns b1"
    "exponential p (pc_QueueTimeBucket cfg) = Returns b2"
  using assms by (auto simp: InitMetrics_def Let_def split: go_result.splits)

section \<open>Properties\<close>

text \<open>C36: the metrics of the processor are exported when they are initialised once: on a registry
  without their names, every variable then points to the collector the registry exports under its
  name. A second initialisation also reports success, since its collectors equal the registered ones,
  but leaves every variable pointing to a new collector that is not exported: what is recorded
  afterwards is lost, and the exported metrics stand still.\<close>

theorem reinit_detaches:
  assumes "register_law p own kept exports" and "kept (pm_objects s) (pm_registry s)"
    and "\<forall>(n, v) \<in> set (variables s). n \<notin> own \<and> exports (pm_registry s) n = None"
    and "InitMetrics p cfg s = (Returns e1, s1)" and "InitMetrics p cfg2 s1 = (Returns e2, s2)"
  shows "e1 = None \<and> (\<forall>(n, v) \<in> set (variables s1). v \<noteq> None \<and> exports (pm_registry s1) n = v) \<and>
    e2 = None \<and> (\<forall>(n, v) \<in> set (variables s2). v \<noteq> None \<and> exports (pm_registry s2) n \<noteq> None \<and>
      exports (pm_registry s2) n \<noteq> v)"
proof -
  from assms(4) obtain b1 b2 where b: "exponential p (pc_ProcessTimeBucket cfg) = Returns b1"
    "exponential p (pc_QueueTimeBucket cfg) = Returns b2" by (rule InitMetrics_buckets)
  from assms(5) obtain b3 b4 where b': "exponential p (pc_ProcessTimeBucket cfg2) = Returns b3"
    "exponential p (pc_QueueTimeBucket cfg2) = Returns b4" by (rule InitMetrics_buckets)
  let ?n = "length (pm_objects s)"
  have own: "co_Name c \<notin> own \<and> exports (pm_registry s) (co_Name c) = None"
    if "c \<in> set (new_collectors cfg b1 b2)" for c
    using that assms(3) by (auto simp: new_collectors_def variables_def)
  have 1: "e1 = None" "kept (pm_objects s1) (pm_registry s1)" "pm_objects s1 = pm_objects s @ new_collectors cfg b1 b2"
    "variables s1 = [(''job_processing_duration_seconds'', Some (?n + 4)), (''job_queue_wait_duration'', Some (?n + 5)),
       (''total_workers'', Some (?n + 1)), (''active_workers'', Some (?n + 2)), (''jobs_processed_total'', Some ?n),
       (''job_errors_by_model_total'', Some (?n + 3))]"
    and "\<forall>(n, v) \<in> set (variables s1). exports (pm_registry s1) n = (case exports (pm_registry s) n of None \<Rightarrow> v | Some j \<Rightarrow> Some j)"
    using InitMetrics_variables [OF assms(1,2) b] own assms(4) by (auto simp: Let_def)
  moreover have "\<forall>(n, v) \<in> set (variables s1). exports (pm_registry s) n = None"
    using assms(3) 1(4) by (simp add: variables_def)
  ultimately have exp: "\<forall>(n, v) \<in> set (variables s1). exports (pm_registry s1) n = v" by auto
  have names: "n \<notin> own" if "n \<in> fst ` set (variables s)" for n using assms(3) that by auto
  have descs: "map (\<lambda>k. co_Desc (pm_objects s1 ! (?n + k))) [0, 1, 2, 3, 4, 5] = map co_Desc (new_collectors cfg2 b3 b4)"
    "length (pm_objects s1) = ?n + 6"
    by (simp_all add: 1(3) nth_append new_collectors_def co_Desc_def)
  have "\<forall>c \<in> set (new_collectors cfg2 b3 b4). co_Name c \<notin> own \<and> (\<forall>j. exports (pm_registry s1) (co_Name c) = Some j \<longrightarrow>
      j < length (pm_objects s1) \<and> co_Desc (pm_objects s1 ! j) = co_Desc c)"
    using descs exp names unfolding 1(4) by (simp add: new_collectors_def variables_def)
  from InitMetrics_variables [OF assms(1) 1(2) b'] this assms(5)
  have 2: "e2 = None" "variables s2 = [(''job_processing_duration_seconds'', Some (?n + 10)),
       (''job_queue_wait_duration'', Some (?n + 11)), (''total_workers'', Some (?n + 7)),
       (''active_workers'', Some (?n + 8)), (''jobs_processed_total'', Some (?n + 6)),
       (''job_errors_by_model_total'', Some (?n + 9))]"
    and "\<forall>(n, v) \<in> set (variables s2). exports (pm_registry s2) n = (case exports (pm_registry s1) n of None \<Rightarrow> v | Some j \<Rightarrow> Some j)"
    by (auto simp: Let_def 1(3) new_collectors_def)
  then have "\<forall>(n, v) \<in> set (variables s2). exports (pm_registry s2) n \<noteq> None \<and> exports (pm_registry s2) n \<noteq> v"
    using exp unfolding 1(4) by simp
  then show ?thesis using 1(1,4) 2(1,2) exp by simp
qed

text \<open>A registry that lists what it exports, beside one collector of its own.\<close>

definition sample_prometheus :: "(nat, (string \<times> nat) list) prometheus" where
  "sample_prometheus =
     \<lparr>pr_ExponentialBuckets = (\<lambda>start factor count.
        if count < 1 then Panics ''ExponentialBuckets needs a positive count'' else Returns (nat count)),
      pr_Register = (\<lambda>objects i g.
        let c = objects ! i
        in if \<not> valid_desc c then (Some (RegisterError ''descriptor is invalid''), g)
           else if co_Name c = ''go_goroutines'' then (Some (RegisterError ''different label names or help string''), g)
           else (case map_of g (co_Name c) of
                   None \<Rightarrow> (None, (co_Name c, i) # g)
                 | Some j \<Rightarrow>
                     (if co_Desc (objects ! j) = co_Desc c then Some AlreadyRegisteredError
                      else Some (RegisterError ''different label names or help string''), g)))\<rparr>"

definition sample_kept :: "nat collector list \<Rightarrow> (string \<times> nat) list \<Rightarrow> bool" where
  "sample_kept objects g \<longleftrightarrow> list_all (\<lambda>(n, j). j < length objects \<and> co_Name (objects ! j) = n) g"

lemma sample_register_law: "register_law sample_prometheus {''go_goroutines''} sample_kept map_of"
  by (auto simp: register_law_def sample_prometheus_def sample_kept_def Let_def list_all_iff nth_append split: option.splits)

definition sample_metrics :: "(nat, (string \<times> nat) list) proc_metrics" where
  "sample_metrics =
     \<lparr>pm_objects = [], pm_registry = [], pm_jobsProcessed = None, pm_jobProcessingDuration = None,
      pm_jobQueueWaitDuration = None, pm_totalWorkers = None, pm_activeWorkers = None,
      pm_jobErrorsModelTotal = None\<rparr>"

definition sample_inits :: "(nat, (string \<times> nat) list) proc_metrics" where
  "sample_inits = snd (InitMetrics sample_prometheus ProcessorConfig_New sample_metrics)"

theorem reinit_detaches_witness:
  "\<exists>s2. InitMetrics sample_prometheus ProcessorConfig_New sample_inits = (Returns None, s2) \<and>
     map_of (pm_registry sample_inits) ''active_workers'' = pm_activeWorkers sample_inits \<and>
     map_of (pm_registry s2) ''active_workers'' \<noteq> pm_activeWorkers s2"
proof -
  have fresh: "sample_kept (pm_objects sample_metrics) (pm_registry sample_metrics)"
    "\<forall>(n, v) \<in> set (variables sample_metrics). n \<notin> {''go_goroutines''} \<and> map_of (pm_registry sample_metrics) n = None"
    by (simp_all add: variables_def sample_metrics_def sample_kept_def)
  have "fst (InitMetrics sample_prometheus ProcessorConfig_New sample_metrics) = Returns None"
    "fst (InitMetrics sample_prometheus ProcessorConfig_New sample_inits) = Returns None"
    by code_simp+
  then obtain s2 where runs:
    "InitMetrics sample_prometheus ProcessorConfig_New sample_metrics = (Returns None, sample_inits)"
    "InitMetrics sample_prometheus ProcessorConfig_New sample_inits = (Returns None, s2)"
    unfolding sample_inits_def by (metis prod.collapse)
  show ?thesis
    using reinit_detaches [OF sample_register_law fresh runs] runs(2) by (auto simp: variables_def)
qed

end
