(* ===== verification/JobMetrics.thy ===== *)
theory JobMetrics
  imports Processor ProcMetrics
begin

text \<open>
  The goroutine of a worker with the metrics it records: \<open>RunPollingLoop\<close>'s function literal and the
  deferred function of \<open>processJob\<close> (\<open>internal/processor/worker/worker.go\<close>). The step \<open>worker_ends\<close> of
  the polling loop leaves the metrics out; \<open>metered_goroutine\<close> shows that nothing but the metrics is
  lost by that once \<open>InitMetrics\<close> has run.
\<close>

section \<open>The goroutine\<close>

definition job_metrics ::
  "duration \<Rightarrow> JobResultMetadata \<Rightarrow> ('b, 'g) proc_metrics \<Rightarrow> unit go_result \<times> ('b, 'g) proc_metrics" where
  "job_metrics elapsed metadata m =
     (let tenantID = ''unknown'';
          jobFailureReason = ReasonUnknown;
          jobResult = ResultSuccess
      in case RecordJobProcessingDuration elapsed tenantID (GetSizeBucket (rm_Total metadata)) m of
           (Returns _, m) \<Rightarrow> RecordJobProcessed jobResult jobFailureReason m
         | (Panics msg, m) \<Rightarrow> (Panics msg, m)
         | (Blocks, m) \<Rightarrow> (Blocks, m))"

text \<open>
  The deferred function runs when the job returns and when it panics; it reads the metadata as they
  are then, which is all zero when the semaphore could not be made.
\<close>

definition metered_job ::
  "'d db_client \<Rightarrow> 't status_client \<Rightarrow> ProcessorConfig \<Rightarrow> duration \<Rightarrow> nat option \<Rightarrow> line_outcome list \<Rightarrow> ptr
    \<Rightarrow> ((heap \<times> 'd) \<times> 't) \<times> ('b, 'g) proc_metrics
    \<Rightarrow> unit go_result \<times> ((heap \<times> 'd) \<times> 't) \<times> ('b, 'g) proc_metrics" where
  "metered_job dbc scl cfg elapsed ends_at outcomes p sm =
     (let (s, m) = sm
      in case processJob dbc scl cfg ends_at outcomes p s of
           (Blocks, s) \<Rightarrow> (Blocks, s, m)
         | (Panics msg, s) \<Rightarrow>
             (case job_metrics elapsed \<lparr>rm_Total = 0, rm_Succeeded = 0, rm_Failed = 0\<rparr> m of
                (Returns _, m) \<Rightarrow> (Panics msg, s, m)
              | (r, m) \<Rightarrow> (r, s, m))
         | (Returns metadata, s) \<Rightarrow> (let (r, m) = job_metrics elapsed metadata m in (r, s, m)))"

text \<open>
  A panic of the job is recovered. The worker is released and the gauge taken back in the deferred
  function, where no panic is recovered any more. \<open>None\<close> stands for a goroutine that never ends.
\<close>

definition worker_goroutine ::
  "'d db_client \<Rightarrow> 't status_client \<Rightarrow> ProcessorConfig \<Rightarrow> duration \<Rightarrow> nat option \<Rightarrow> line_outcome list
    \<Rightarrow> int \<Rightarrow> ptr \<Rightarrow> ('d, 'q, 't) proc_state \<Rightarrow> ('b, 'g) proc_metrics
    \<Rightarrow> (('d, 'q, 't) proc_state \<times> ('b, 'g) proc_metrics) option" where
  "worker_goroutine dbc scl cfg elapsed ends_at outcomes wid j s m =
     (let (r, m) = IncActiveWorkers m;
          (r, (store, status), m) =
            (case r of
               Returns _ \<Rightarrow> metered_job dbc scl cfg elapsed ends_at outcomes j ((ps_store s, ps_status s), m)
             | _ \<Rightarrow> (r, (ps_store s, ps_status s), m));
          s = s\<lparr>ps_store := store, ps_status := status\<rparr>
      in if r = Blocks then None
         else (case fst (Release wid (ps_pool s)) of
             Returns _ \<Rightarrow>
               (let s = release_then (ps_pc s) wid s
                in case DecActiveWorkers m of
                     (Panics msg, m) \<Rightarrow> Some (s\<lparr>ps_pc := Crashed msg\<rparr>, m)
                   | (_, m) \<Rightarrow> Some (s, m))
           | _ \<Rightarrow> Some (release_then (ps_pc s) wid s, m)))"

section \<open>Recording\<close>

text \<open>The three variables the goroutine uses point to different collectors.\<close>

definition metrics_ready :: "('b, 'g) proc_metrics \<Rightarrow> nat \<Rightarrow> nat \<Rightarrow> nat \<Rightarrow> bool" where
  "metrics_ready m processed duration active \<longleftrightarrow>
     pm_jobsProcessed m = Some processed \<and> pm_jobProcessingDuration m = Some duration \<and>
     pm_activeWorkers m = Some active \<and> distinct [processed, duration, active] \<and>
     (\<forall>i \<in> {processed, duration, active}. i < length (pm_objects m))"

text \<open>The calls made on the collectors, one after the other.\<close>

definition log_op :: "nat \<Rightarrow> collector_op \<Rightarrow> ('b, 'g) proc_metrics \<Rightarrow> ('b, 'g) proc_metrics" where
  "log_op i x m = m\<lparr>pm_objects :=
     (pm_objects m)[i := (pm_objects m ! i)\<lparr>co_ops := co_ops (pm_objects m ! i) @ [x]\<rparr>]\<rparr>"

lemma log_op_ready [simp]: "metrics_ready (log_op i x m) p d a = metrics_ready m p d a"
  by (simp add: metrics_ready_def log_op_def)

lemma log_op_at:
  "i < length (pm_objects m) \<Longrightarrow>
     co_ops (pm_objects (log_op i x m) ! k) = co_ops (pm_objects m ! k) @ (if k = i then [x] else [])"
  by (simp add: log_op_def nth_list_update)

lemma log_op_length [simp]: "length (pm_objects (log_op i x m)) = length (pm_objects m)"
  by (simp add: log_op_def)

lemma recorders_ready:
  assumes "metrics_ready m p d a"
  shows "IncActiveWorkers m = (Returns (), log_op a (OpInc []) m)"
    and "DecActiveWorkers m = (Returns (), log_op a OpDec m)"
    and "utf8_valid r \<Longrightarrow> utf8_valid q \<Longrightarrow> RecordJobProcessed r q m = (Returns (), log_op p (OpInc [r, q]) m)"
    and "utf8_valid t \<Longrightarrow> utf8_valid b \<Longrightarrow>
      RecordJobProcessingDuration e t b m = (Returns (), log_op d (OpObserve [t, b] e) m)"
  using assms
  by (simp_all add: metrics_ready_def log_op_def IncActiveWorkers_def DecActiveWorkers_def
      RecordJobProcessed_def RecordJobProcessingDuration_def record_on_def)

lemma labels_utf8:
  "utf8_valid ResultSuccess" "utf8_valid ReasonUnknown" "utf8_valid Bucket100" "utf8_valid ''unknown''"
  by code_simp+

lemma processJob_metadata:
  assumes "processJob dbc scl cfg ends_at outcomes j s = (Returns metadata, s')"
  shows "metadata = fold account outcomes initial_metadata" and "rm_Total metadata = 3"
proof -
  show "metadata = fold account outcomes initial_metadata"
    using assms by (auto simp: processJob_def Let_def split: prod.splits if_splits option.splits)
  then show "rm_Total metadata = 3"
    by (simp add: fold_account_counts initial_metadata_def job_lines_def)
qed

lemma job_metrics_ready:
  assumes "metrics_ready m p d a" and "rm_Total metadata < 100"
  shows "job_metrics elapsed metadata m
     = (Returns (), log_op p (OpInc [ResultSuccess, ReasonUnknown]) (log_op d (OpObserve [''unknown'', Bucket100] elapsed) m))"
  using recorders_ready [OF assms(1)] recorders_ready(3) [of "log_op d x m" p d a for x] assms labels_utf8
  by (simp add: job_metrics_def GetSizeBucket_def)

text \<open>Apart from the metrics the goroutine has the effects of the step \<open>worker_ends\<close>.\<close>

lemma metered_goroutine:
  assumes m: "metrics_ready m p d a"
    and run: "processJob dbc scl cfg ends_at outcomes j (ps_store s, ps_status s) = (r, store, status)" "r \<noteq> Blocks"
  defines "s' \<equiv> s\<lparr>ps_store := store, ps_status := status\<rparr>"
  shows "worker_goroutine dbc scl cfg elapsed ends_at outcomes wid j s m =
     Some (release_then (ps_pc s) wid s',
       (if fst (Release wid (ps_pool s)) = Returns () then log_op a OpDec else id)
         (log_op p (OpInc [ResultSuccess, ReasonUnknown])
           (log_op d (OpObserve [''unknown'', Bucket100] elapsed) (log_op a (OpInc []) m))))"
proof -
  let ?m = "log_op p (OpInc [ResultSuccess, ReasonUnknown])
           (log_op d (OpObserve [''unknown'', Bucket100] elapsed) (log_op a (OpInc []) m))"
  have job: "job_metrics elapsed metadata (log_op a (OpInc []) m) = (Returns (), ?m)"
    if "rm_Total metadata < 100" for metadata
    using job_metrics_ready [of "log_op a (OpInc []) m"] m that by simp
  have "\<exists>r'. r' \<noteq> Blocks \<and> metered_job dbc scl cfg elapsed ends_at outcomes j ((ps_store s, ps_status s), log_op a (OpInc []) m)
      = (r', (store, status), ?m)"
  proof (cases r)
    case (Returns md)
    have "rm_Total md = 3" by (rule processJob_metadata(2) [OF run(1) [unfolded Returns]])
    then show ?thesis using run(1) Returns job by (simp add: metered_job_def)
  next
    case (Panics msg)
    then show ?thesis using run(1) job by (simp add: metered_job_def)
  qed (use run(2) in simp)
  then obtain r' where r': "r' \<noteq> Blocks"
    "metered_job dbc scl cfg elapsed ends_at outcomes j ((ps_store s, ps_status s), log_op a (OpInc []) m)
      = (r', (store, status), ?m)" by blast
  have dec: "DecActiveWorkers ?m = (Returns (), log_op a OpDec ?m)"
    using recorders_ready(2) [of ?m p d a] m by simp
  show ?thesis
    using r' dec recorders_ready(1) [OF m] unfolding s'_def
    by (cases "fst (Release wid (ps_pool s))") (simp_all add: worker_goroutine_def)
qed

section \<open>Properties\<close>

text \<open>C27: once the metrics are initialised, the goroutine of a job that is not aborted ends, and
  whatever became of the job's lines, the job is \<open>completed\<close> in the status store and counted as
  a success of unknown reason; the batch in the database stays as it was, so that a client that
  retrieves it never sees it complete. The gauge of active workers is taken back only when the
  release of the worker does not panic, and no other collector is touched.\<close>

theorem job_always_succeeds:
  assumes "metrics_ready m processed duration active" and "0 < pc_MaxJobConcurrency cfg"
    and "mdb_inv (ps_store s)" and "j < length (fst (ps_store s))"
    and "mdb_look (ps_store s) (job_ID (fst (ps_store s) ! j)) = Some (fst (ps_store s) ! j)"
  defines "ops \<equiv> \<lambda>m i. co_ops (pm_objects m ! i)"
  shows "\<exists>s' m'. worker_goroutine (mock_db ord) mock_status cfg elapsed None outcomes wid j s m = Some (s', m') \<and>
     mst_content (ps_status s') (job_ID (fst (ps_store s) ! j)) = Some BatchStatusCompleted \<and>
     mdb_look (ps_store s') = mdb_look (ps_store s) \<and>
     ops m' processed = ops m processed @ [OpInc [''success'', ''unknown'']] \<and>
     ops m' duration = ops m duration @ [OpObserve [''unknown'', ''100''] elapsed] \<and>
     ops m' active = ops m active @ OpInc [] # (if fst (Release wid (ps_pool s)) = Returns () then [OpDec] else []) \<and>
     (\<forall>i. i \<in> {processed, duration, active} \<or> ops m' i = ops m i)"
proof -
  obtain h db where hd: "ps_store s = (h, db)" by fastforce
  obtain store t where run: "processJob (mock_db ord) mock_status cfg None outcomes j (ps_store s, ps_status s)
       = (Returns (fold account outcomes initial_metadata), store, t)"
    "mst_content t (job_ID (h ! j)) = Some BatchStatusCompleted" "mdb_look store = mdb_look (h, db)"
    using job_always_completed [of cfg h db j ord outcomes "ps_status s"] assms(2-5) hd by auto
  have idx: "i < length (pm_objects m)" if "i \<in> {processed, duration, active}" for i
    using assms(1) that by (auto simp: metrics_ready_def)
  have "distinct [processed, duration, active]" using assms(1) by (simp add: metrics_ready_def)
  then show ?thesis
    using metered_goroutine [OF assms(1) run(1)] run(2,3) hd idx
    by (simp add: ops_def release_then_def log_op_at ResultSuccess_def ReasonUnknown_def Bucket100_def
        split: go_result.split prod.split)
qed

text \<open>The worker holds an identifier that was counted, and three requests fail.\<close>

definition sample_failed :: "line_outcome list" where
  "sample_failed = replicate 3 (Answered (Inl \<lparr>ce_Category = ErrCategoryServer, ce_Message = [], ce_RawError = None\<rparr>))"

definition sample_held :: "(MockBatchDBClient, MockBatchPriorityQueueClient, MockBatchStatusClient) proc_state" where
  "sample_held = sample_proc\<lparr>ps_pool := \<lparr>wp_workerIds = [], wp_cap = 1, wp_wg = 1\<rparr>\<rparr>"

lemma sample_inits_ready: "metrics_ready sample_inits 0 4 2"
  by code_simp

theorem job_always_succeeds_witness:
  "\<exists>s' m'. worker_goroutine (mock_db id) mock_status ProcessorConfig_New 5 None sample_failed 1 0 sample_held sample_inits
       = Some (s', m') \<and>
     mst_content (ps_status s') ''a'' = Some BatchStatusCompleted \<and>
     co_ops (pm_objects m' ! 0) = co_ops (pm_objects sample_inits ! 0) @ [OpInc [''success'', ''unknown'']]"
proof -
  have s: "ps_store sample_held = ps_store sample_proc" by (simp add: sample_held_def)
  have j: "0 < length (fst (ps_store sample_proc))" "fst (ps_store sample_proc) ! 0 = sample_job" "job_ID sample_job = ''a''"
    by (simp_all add: sample_proc_def sample_job_def)
  have "0 < pc_MaxJobConcurrency ProcessorConfig_New" by code_simp
  from job_always_succeeds [OF sample_inits_ready this, of sample_held 0 id 5 sample_failed 1] show ?thesis
    using sample_store s j by auto
qed

end
