(* ===== verification/TlsUtil.thy ===== *)
theory TlsUtil
  imports GoPath Inference
begin

text \<open>
  The TLS helpers the Redis client and the processor use (\<open>internal/util/tls/tls.go\<close>). Reading
  files, parsing certificates and loading a key pair are the parameters \<open>cert_files\<close> of the
  inference client; \<open>tls.Config\<close> is its record, extended by the fields only this file sets.
\<close>

section \<open>Certificate files\<close>

record Certificates =
  ct_Dir :: string
  ct_CertFile :: string
  ct_KeyFile :: string
  ct_CaCertFile :: string

definition Certificates_IsEmpty :: "Certificates \<Rightarrow> bool" where
  "Certificates_IsEmpty c \<longleftrightarrow> ct_Dir c = [] \<and> ct_CertFile c = [] \<and> ct_KeyFile c = [] \<and> ct_CaCertFile c = []"

definition JoinCertPath :: "string \<Rightarrow> string \<Rightarrow> string" where
  "JoinCertPath dir file = (if length file > 0 then Join [dir, file] else [])"

section \<open>TLS settings\<close>

type_synonym LoadType = int

definition LOAD_TYPE_CLIENT :: LoadType where "LOAD_TYPE_CLIENT = 0"
definition LOAD_TYPE_SERVER :: LoadType where "LOAD_TYPE_SERVER = 1"

datatype client_auth = NoClientCert | RequireAndVerifyClientCert

record ('p, 'c) peer_tls_config = "('p, 'c) tls_config" +
  tls_ClientCAs :: "'p option"
  tls_ClientAuth :: client_auth

definition zero_tls_config :: "('p, 'c) peer_tls_config" where
  "zero_tls_config =
     \<lparr>tls_InsecureSkipVerify = False, tls_RootCAs = None, tls_Certificates = [], tls_MinVersion = 0,
      tls_MaxVersion = 0, tls_ClientCAs = None, tls_ClientAuth = NoClientCert\<rparr>"

definition GetTlsConfig ::
  "('p, 'c) cert_files \<Rightarrow> LoadType \<Rightarrow> bool \<Rightarrow> string \<Rightarrow> string \<Rightarrow> string
    \<Rightarrow> error + ('p, 'c) peer_tls_config" where
  "GetTlsConfig fs loadType insecure certFile keyFile caCertFile =
     (case (if certFile \<noteq> [] then
              (case cf_LoadX509KeyPair fs certFile keyFile of
                 Inl err \<Rightarrow> Inl (''GetTlsConfig: LoadX509KeyPair failed: '' @ err)
               | Inr certificate \<Rightarrow> Inr (zero_tls_config\<lparr>tls_Certificates := [certificate]\<rparr>))
            else Inr zero_tls_config) of
        Inl err \<Rightarrow> Inl err
      | Inr tlsConf \<Rightarrow>
          (if insecure then Inr (tlsConf\<lparr>tls_InsecureSkipVerify := True\<rparr>)
           else if caCertFile \<noteq> [] then
             (case cf_ReadFile fs caCertFile of
                Inl err \<Rightarrow> Inl (''GetTlsConfig: Could not read CA certificate file: '' @ err)
              | Inr ca \<Rightarrow>
                  (case cf_AppendCertsFromPEM fs ca of
                     None \<Rightarrow> Inl ''GetTlsConfig: AppendCertsFromPEM failed''
                   | Some certPool \<Rightarrow>
                       (if loadType = LOAD_TYPE_CLIENT then Inr (tlsConf\<lparr>tls_RootCAs := Some certPool\<rparr>)
                        else Inr (tlsConf\<lparr>tls_ClientCAs := Some certPool,
                               tls_ClientAuth := RequireAndVerifyClientCert\<rparr>))))
           else Inr tlsConf))"

section \<open>What the settings are\<close>

lemma JoinCertPath_empty [simp]: "JoinCertPath dir [] = []"
  by (simp add: JoinCertPath_def)

text \<open>The certificate and the authorities the files hold, when the settings need them.\<close>

definition own_certificate :: "('p, 'c) cert_files \<Rightarrow> string \<Rightarrow> string \<Rightarrow> 'c list option" where
  "own_certificate fs certFile keyFile =
     (if certFile = [] then Some []
      else case cf_LoadX509KeyPair fs certFile keyFile of Inl _ \<Rightarrow> None | Inr cert \<Rightarrow> Some [cert])"

definition authorities :: "('p, 'c) cert_files \<Rightarrow> bool \<Rightarrow> string \<Rightarrow> 'p option option" where
  "authorities fs insecure caCertFile =
     (if insecure \<or> caCertFile = [] then Some None
      else case cf_ReadFile fs caCertFile of
          Inl _ \<Rightarrow> None
        | Inr ca \<Rightarrow> (case cf_AppendCertsFromPEM fs ca of None \<Rightarrow> None | Some pool \<Rightarrow> Some (Some pool)))"

text \<open>The settings a peer needs: its certificate, whom it trusts, and whom it lets in.\<close>

definition peer_settings ::
  "LoadType \<Rightarrow> bool \<Rightarrow> 'c list \<Rightarrow> 'p option \<Rightarrow> ('p, 'c) peer_tls_config" where
  "peer_settings loadType insecure certs pool =
     zero_tls_config
       \<lparr>tls_Certificates := certs, tls_InsecureSkipVerify := insecure,
        tls_RootCAs := (if loadType = LOAD_TYPE_CLIENT then pool else None),
        tls_ClientCAs := (if loadType = LOAD_TYPE_CLIENT then None else pool),
        tls_ClientAuth :=
          (if loadType = LOAD_TYPE_CLIENT \<or> pool = None then NoClientCert else RequireAndVerifyClientCert)\<rparr>"

lemma GetTlsConfig_settings:
  "(case GetTlsConfig fs loadType insecure certFile keyFile caCertFile of Inl _ \<Rightarrow> None | Inr t \<Rightarrow> Some t) =
     (case (own_certificate fs certFile keyFile, authorities fs insecure caCertFile) of
        (Some certs, Some pool) \<Rightarrow> Some (peer_settings loadType insecure certs pool)
      | _ \<Rightarrow> None)"
  by (auto simp: GetTlsConfig_def own_certificate_def authorities_def peer_settings_def zero_tls_config_def
      split: sum.splits option.splits)

lemma GetTlsConfig_certs:
  assumes "GetTlsConfig fs loadType insecure certFile keyFile caCertFile = Inr t"
  shows "own_certificate fs certFile keyFile = Some (tls_Certificates t)"
    and "tls_InsecureSkipVerify t = insecure"
    and "\<exists>pool. authorities fs insecure caCertFile = Some pool \<and>
      t = peer_settings loadType insecure (tls_Certificates t) pool"
  using GetTlsConfig_settings [of fs loadType insecure certFile keyFile caCertFile] assms
  by (auto simp: peer_settings_def zero_tls_config_def split: option.splits)

end
