(* ===== verification/RedisClient.thy ===== *)
theory RedisClient
  imports TlsUtil "HOL-Library.Sublist"
begin

text \<open>
  The Redis client of the stores (\<open>internal/util/redis/redis_client.go\<close>) and the random names of its
  connections (\<open>internal/util/com/common.go\<close>). The library \<open>go-redis\<close> is the parameter
  \<open>redis_library\<close>: parsing a URL, making a client from options, and the commands of a client \<open>'r\<close>;
  the host, the process and the random numbers are in \<open>process_env\<close>. Every client that was made and
  closed again is in the list the functions return beside their result.
\<close>

section \<open>Random names\<close>

definition letterRunes :: string where
  "letterRunes = ''abcdefghijklmnopqrstuvwxyzABCDEFGHIJKLMNOPQRSTUVWXYZ''"

text \<open>\<open>Intn i m\<close> is the result, below \<open>m\<close>, of the call of \<open>rand.Intn\<close> for position \<open>i\<close>.\<close>

definition RandString :: "(nat \<Rightarrow> nat \<Rightarrow> nat) \<Rightarrow> nat \<Rightarrow> string" where
  "RandString Intn n = map (\<lambda>i. letterRunes ! Intn i (length letterRunes)) [0..<n]"

lemma length_RandString [simp]: "length (RandString Intn n) = n"
  by (simp add: RandString_def)

lemma RandString_letters:
  assumes "\<And>i m. 0 < m \<Longrightarrow> Intn i m < m"
  shows "set (RandString Intn n) \<subseteq> set letterRunes"
proof -
  have "length letterRunes \<noteq> 0" by (simp add: letterRunes_def)
  then have "letterRunes ! Intn i (length letterRunes) \<in> set letterRunes" for i
    by (intro nth_mem assms) simp
  then show ?thesis by (auto simp: RandString_def)
qed

section \<open>Configuration\<close>

record RedisClientConfig =
  rc_Url :: string
  rc_DbIdx :: int
  rc_EnableTLS :: bool
  rc_Insecure :: bool
  rc_Certificates :: "Certificates option"
  rc_ServiceName :: string
  rc_Timeout :: duration
  rc_MaxRetries :: int
  rc_MinRetryBackoff :: duration
  rc_MaxRetryBackoff :: duration
  rc_PoolTimeout :: duration
  rc_ConnMaxIdleTime :: duration
  rc_ConnMaxLifetime :: duration

text \<open>The fields of \<open>gredis.Options\<close> the code reads or writes.\<close>

record ('p, 'c) redis_options =
  ro_Addr :: string
  ro_ClientName :: string
  ro_DB :: int
  ro_DialTimeout :: duration
  ro_ReadTimeout :: duration
  ro_WriteTimeout :: duration
  ro_ContextTimeoutEnabled :: bool
  ro_MaxRetries :: int
  ro_MinRetryBackoff :: duration
  ro_MaxRetryBackoff :: duration
  ro_PoolTimeout :: duration
  ro_ConnMaxIdleTime :: duration
  ro_ConnMaxLifetime :: duration
  ro_TLSConfig :: "('p, 'c) peer_tls_config option"

record ('p, 'c, 'r) redis_library =
  rl_ParseURL :: "string \<Rightarrow> error + ('p, 'c) redis_options"
  rl_NewClient :: "('p, 'c) redis_options \<Rightarrow> 'r option"
  rl_Ping :: "'r \<Rightarrow> error option"
  rl_Set :: "'r \<Rightarrow> string \<Rightarrow> string \<Rightarrow> duration \<Rightarrow> error option"
  rl_Info :: "'r \<Rightarrow> string \<Rightarrow> error + string"

record process_env =
  pe_Hostname :: string
  pe_Pid :: int
  pe_Intn :: "nat \<Rightarrow> nat \<Rightarrow> nat"

section \<open>A new client\<close>

definition client_name :: "process_env \<Rightarrow> string \<Rightarrow> string" where
  "client_name env service =
     (if service \<noteq> [] then
        service @ ''-'' @ pe_Hostname env @ ''-'' @ show_int (pe_Pid env) @ ''-'' @ RandString (pe_Intn env) 6
      else pe_Hostname env @ ''-'' @ show_int (pe_Pid env) @ ''-'' @ RandString (pe_Intn env) 6)"

text \<open>The settings of the configuration over those of the URL, in the order of the code.\<close>

definition override_options ::
  "process_env \<Rightarrow> RedisClientConfig \<Rightarrow> ('p, 'c) redis_options \<Rightarrow> ('p, 'c) redis_options" where
  "override_options env cnf ops =
     (let ops = (if ro_ClientName ops = [] then ops\<lparr>ro_ClientName := client_name env (rc_ServiceName cnf)\<rparr> else ops);
          ops = (if rc_DbIdx cnf \<ge> 0 then ops\<lparr>ro_DB := rc_DbIdx cnf\<rparr> else ops);
          ops = (if rc_Timeout cnf \<noteq> 0 then
                   ops\<lparr>ro_DialTimeout := rc_Timeout cnf, ro_ReadTimeout := rc_Timeout cnf,
                      ro_WriteTimeout := rc_Timeout cnf\<rparr>
                 else ops);
          ops = ops\<lparr>ro_ContextTimeoutEnabled := True\<rparr>;
          ops = (if rc_MaxRetries cnf \<noteq> 0 then ops\<lparr>ro_MaxRetries := rc_MaxRetries cnf\<rparr> else ops);
          ops = (if rc_MinRetryBackoff cnf \<noteq> 0 then ops\<lparr>ro_MinRetryBackoff := rc_MinRetryBackoff cnf\<rparr> else ops);
          ops = (if rc_MaxRetryBackoff cnf \<noteq> 0 then ops\<lparr>ro_MaxRetryBackoff := rc_MaxRetryBackoff cnf\<rparr> else ops);
          ops = (if rc_PoolTimeout cnf \<noteq> 0 then ops\<lparr>ro_PoolTimeout := rc_PoolTimeout cnf\<rparr> else ops);
          ops = (if rc_ConnMaxIdleTime cnf \<noteq> 0 then ops\<lparr>ro_ConnMaxIdleTime := rc_ConnMaxIdleTime cnf\<rparr> else ops)
      in if rc_ConnMaxLifetime cnf \<noteq> 0 then ops\<lparr>ro_ConnMaxLifetime := rc_ConnMaxLifetime cnf\<rparr> else ops)"

definition redis_tls ::
  "('p, 'c) cert_files \<Rightarrow> RedisClientConfig \<Rightarrow> error + ('p, 'c) peer_tls_config option" where
  "redis_tls fs cnf =
     (if rc_EnableTLS cnf then
        (let (certFile, keyFile, caCertFile) =
               (case rc_Certificates cnf of
                  None \<Rightarrow> ([], [], [])
                | Some certCf \<Rightarrow>
                    (if \<not> Certificates_IsEmpty certCf then
                       (JoinCertPath (ct_Dir certCf) (ct_CertFile certCf),
                        JoinCertPath (ct_Dir certCf) (ct_KeyFile certCf),
                        JoinCertPath (ct_Dir certCf) (ct_CaCertFile certCf))
                     else ([], [], [])))
         in case GetTlsConfig fs LOAD_TYPE_CLIENT (rc_Insecure cnf) certFile keyFile caCertFile of
              Inl err \<Rightarrow> Inl err
            | Inr tlsConfig \<Rightarrow> Inr (Some tlsConfig))
      else Inr None)"

definition NewRedisClient ::
  "('p, 'c, 'r) redis_library \<Rightarrow> ('p, 'c) cert_files \<Rightarrow> process_env \<Rightarrow> RedisClientConfig option
    \<Rightarrow> (error + 'r) \<times> 'r list" where
  "NewRedisClient lib fs env cnf =
     (case cnf of
        None \<Rightarrow> (Inl ''redis config was not provided'', [])
      | Some cnf \<Rightarrow>
     (if rc_Url cnf = [] then (Inl ''redis config has empty url'', [])
      else
     (case rl_ParseURL lib (rc_Url cnf) of
        Inl err \<Rightarrow> (Inl err, [])
      | Inr redisOps \<Rightarrow>
     (let redisOps = override_options env cnf redisOps
      in case redis_tls fs cnf of
           Inl err \<Rightarrow> (Inl err, [])
         | Inr tlsConfig \<Rightarrow>
     (let redisOps = (if tlsConfig \<noteq> None then redisOps\<lparr>ro_TLSConfig := tlsConfig\<rparr> else redisOps)
      in case rl_NewClient lib redisOps of
           None \<Rightarrow> (Inl (''redis.NewClient returned nil client [addr: '' @ ro_Addr redisOps @ '']''), [])
         | Some rds \<Rightarrow>
             (case rl_Ping lib rds of
                Some err \<Rightarrow> (Inl err, [rds])
              | None \<Rightarrow> (Inr rds, [])))))))"

section \<open>Checking a client\<close>

text \<open>\<open>strings.Contains\<close>.\<close>

fun Contains :: "string \<Rightarrow> string \<Rightarrow> bool" where
  "Contains [] sub \<longleftrightarrow> sub = []"
| "Contains (c # s) sub \<longleftrightarrow> prefix sub (c # s) \<or> Contains s sub"

lemma Contains_sublist: "Contains s sub \<longleftrightarrow> sublist sub s"
  by (induction s) (auto simp: sublist_Cons_right)

definition getPingKeyName :: "string \<Rightarrow> string \<Rightarrow> string \<Rightarrow> string" where
  "getPingKeyName timestamp pre serviceName = pre @ ''ping:'' @ serviceName @ '':'' @ timestamp"

text \<open>\<open>timestamp\<close> is the formatted time; the timeouts of the two commands are in \<open>lib\<close>.\<close>

definition CheckClient ::
  "('p, 'c, 'r) redis_library \<Rightarrow> string \<Rightarrow> 'r \<Rightarrow> string \<Rightarrow> string \<Rightarrow> error option" where
  "CheckClient lib timestamp rds keyPrefix serviceName =
     (case rl_Set lib rds (getPingKeyName timestamp keyPrefix serviceName) ''ping'' (10 * 1000000000) of
        Some err \<Rightarrow> Some (''write failed: '' @ err)
      | None \<Rightarrow>
          (case rl_Info lib rds ''replication'' of
             Inl err \<Rightarrow> Some (''info failed: '' @ err)
           | Inr info \<Rightarrow> (if \<not> Contains info ''role:slave'' then None else Some ''slave confirmed'')))"

record 'r RedisClientChecker =
  ck_rds :: 'r
  ck_locked :: bool
  ck_keyPrefix :: string
  ck_serviceName :: string
  ck_cmdTimeout :: duration

definition NewRedisClientChecker :: "'r \<Rightarrow> string \<Rightarrow> string \<Rightarrow> duration \<Rightarrow> 'r RedisClientChecker" where
  "NewRedisClientChecker rds keyPrefix serviceName cmdTimeout =
     \<lparr>ck_rds = rds, ck_locked = False, ck_keyPrefix = keyPrefix, ck_serviceName = serviceName,
      ck_cmdTimeout = cmdTimeout\<rparr>"

text \<open>\<open>lib\<close> is the library with the checker's timeout on every command. The lock is given back on
  return.\<close>

definition Check ::
  "(duration \<Rightarrow> ('p, 'c, 'r) redis_library) \<Rightarrow> string \<Rightarrow> 'r RedisClientChecker
    \<Rightarrow> error option go_result \<times> 'r RedisClientChecker" where
  "Check lib timestamp r =
     (if ck_locked r then (Blocks, r)
      else
       (let r = r\<lparr>ck_locked := True\<rparr>;
            err = CheckClient (lib (ck_cmdTimeout r)) timestamp (ck_rds r) (ck_keyPrefix r) (ck_serviceName r)
        in (Returns err, r\<lparr>ck_locked := False\<rparr>)))"

section \<open>What a client is made of\<close>

text \<open>A setting of the configuration that is zero leaves that of the URL.\<close>

definition configured :: "int \<Rightarrow> int \<Rightarrow> int" where
  "configured v url = (if v = 0 then url else v)"

lemma override_fields [simp]:
  "ro_Addr (override_options env c ops) = ro_Addr ops"
  "ro_TLSConfig (override_options env c ops) = ro_TLSConfig ops"
  "ro_ContextTimeoutEnabled (override_options env c ops)"
  "ro_DB (override_options env c ops) = (if rc_DbIdx c < 0 then ro_DB ops else rc_DbIdx c)"
  "ro_DialTimeout (override_options env c ops) = configured (rc_Timeout c) (ro_DialTimeout ops)"
  "ro_ReadTimeout (override_options env c ops) = configured (rc_Timeout c) (ro_ReadTimeout ops)"
  "ro_WriteTimeout (override_options env c ops) = configured (rc_Timeout c) (ro_WriteTimeout ops)"
  "ro_MaxRetries (override_options env c ops) = configured (rc_MaxRetries c) (ro_MaxRetries ops)"
  "ro_MinRetryBackoff (override_options env c ops) = configured (rc_MinRetryBackoff c) (ro_MinRetryBackoff ops)"
  "ro_MaxRetryBackoff (override_options env c ops) = configured (rc_MaxRetryBackoff c) (ro_MaxRetryBackoff ops)"
  "ro_PoolTimeout (override_options env c ops) = configured (rc_PoolTimeout c) (ro_PoolTimeout ops)"
  "ro_ConnMaxIdleTime (override_options env c ops) = configured (rc_ConnMaxIdleTime c) (ro_ConnMaxIdleTime ops)"
  "ro_ConnMaxLifetime (override_options env c ops) = configured (rc_ConnMaxLifetime c) (ro_ConnMaxLifetime ops)"
  "ro_ClientName (override_options env c ops) =
     (if ro_ClientName ops = [] then client_name env (rc_ServiceName c) else ro_ClientName ops)"
  by (simp_all add: override_options_def configured_def Let_def)

text \<open>The options a client is made from, when TLS can be set up.\<close>

definition client_options ::
  "process_env \<Rightarrow> RedisClientConfig \<Rightarrow> ('p, 'c) redis_options \<Rightarrow> ('p, 'c) peer_tls_config option
    \<Rightarrow> ('p, 'c) redis_options" where
  "client_options env c ops tls =
     (let redisOps = override_options env c ops
      in if tls \<noteq> None then redisOps\<lparr>ro_TLSConfig := tls\<rparr> else redisOps)"

lemma client_options_fields [simp]:
  "ro_Addr (client_options env c ops tls) = ro_Addr ops"
  "ro_TLSConfig (client_options env c ops tls) = (if tls = None then ro_TLSConfig ops else tls)"
  "ro_ContextTimeoutEnabled (client_options env c ops tls)"
  "ro_DB (client_options env c ops tls) = (if rc_DbIdx c < 0 then ro_DB ops else rc_DbIdx c)"
  "ro_DialTimeout (client_options env c ops tls) = configured (rc_Timeout c) (ro_DialTimeout ops)"
  "ro_ReadTimeout (client_options env c ops tls) = configured (rc_Timeout c) (ro_ReadTimeout ops)"
  "ro_WriteTimeout (client_options env c ops tls) = configured (rc_Timeout c) (ro_WriteTimeout ops)"
  "ro_MaxRetries (client_options env c ops tls) = configured (rc_MaxRetries c) (ro_MaxRetries ops)"
  "ro_MinRetryBackoff (client_options env c ops tls) = configured (rc_MinRetryBackoff c) (ro_MinRetryBackoff ops)"
  "ro_MaxRetryBackoff (client_options env c ops tls) = configured (rc_MaxRetryBackoff c) (ro_MaxRetryBackoff ops)"
  "ro_PoolTimeout (client_options env c ops tls) = configured (rc_PoolTimeout c) (ro_PoolTimeout ops)"
  "ro_ConnMaxIdleTime (client_options env c ops tls) = configured (rc_ConnMaxIdleTime c) (ro_ConnMaxIdleTime ops)"
  "ro_ConnMaxLifetime (client_options env c ops tls) = configured (rc_ConnMaxLifetime c) (ro_ConnMaxLifetime ops)"
  "ro_ClientName (client_options env c ops tls) =
     (if ro_ClientName ops = [] then client_name env (rc_ServiceName c) else ro_ClientName ops)"
  by (simp_all add: client_options_def Let_def)

lemma NewRedisClient_made:
  "rc_Url c \<noteq> [] \<Longrightarrow> rl_ParseURL lib (rc_Url c) = Inr ops \<Longrightarrow> redis_tls fs c = Inr tls \<Longrightarrow>
     NewRedisClient lib fs env (Some c) =
       (case rl_NewClient lib (client_options env c ops tls) of
          None \<Rightarrow> (Inl (''redis.NewClient returned nil client [addr: '' @ ro_Addr ops @ '']''), [])
        | Some rds \<Rightarrow> (case rl_Ping lib rds of Some err \<Rightarrow> (Inl err, [rds]) | None \<Rightarrow> (Inr rds, [])))"
  by (simp add: NewRedisClient_def client_options_def Let_def split: option.splits)

lemma NewRedisClient_early:
  "\<nexists>c ops tls. cnf = Some c \<and> rc_Url c \<noteq> [] \<and> rl_ParseURL lib (rc_Url c) = Inr ops \<and> redis_tls fs c = Inr tls
   \<Longrightarrow> \<exists>err. NewRedisClient lib fs env cnf = (Inl err, [])"
  by (auto simp: NewRedisClient_def Let_def split: option.splits sum.splits)

text \<open>The TLS settings of a configuration that has them: its files are those of the directory.\<close>

lemma redis_tls_enabled:
  assumes "redis_tls fs c = Inr tls" and "rc_EnableTLS c"
  shows "\<exists>t. tls = Some t \<and> tls_InsecureSkipVerify t = rc_Insecure c \<and> tls_ClientAuth t = NoClientCert \<and>
    (case rc_Certificates c of
       None \<Rightarrow> tls_Certificates t = [] \<and> tls_RootCAs t = None
     | Some f \<Rightarrow>
         own_certificate fs (JoinCertPath (ct_Dir f) (ct_CertFile f)) (JoinCertPath (ct_Dir f) (ct_KeyFile f))
           = Some (tls_Certificates t) \<and>
         authorities fs (rc_Insecure c) (JoinCertPath (ct_Dir f) (ct_CaCertFile f)) = Some (tls_RootCAs t))"
proof -
  define names where "names =
     (case rc_Certificates c of None \<Rightarrow> ([], [], [])
      | Some f \<Rightarrow> (JoinCertPath (ct_Dir f) (ct_CertFile f), JoinCertPath (ct_Dir f) (ct_KeyFile f),
                   JoinCertPath (ct_Dir f) (ct_CaCertFile f)))"
  obtain cert key ca where n: "names = (cert, key, ca)" by (metis prod.exhaust)
  have "redis_tls fs c = (case GetTlsConfig fs LOAD_TYPE_CLIENT (rc_Insecure c) cert key ca of
      Inl err \<Rightarrow> Inl err | Inr t \<Rightarrow> Inr (Some t))"
    using n assms(2)
    by (auto simp: redis_tls_def names_def Certificates_IsEmpty_def JoinCertPath_def Let_def
        split: option.splits if_splits)
  then obtain t where t: "tls = Some t" "GetTlsConfig fs LOAD_TYPE_CLIENT (rc_Insecure c) cert key ca = Inr t"
    using assms(1) by (auto split: sum.splits)
  obtain pool where pool: "authorities fs (rc_Insecure c) ca = Some pool"
    "t = peer_settings LOAD_TYPE_CLIENT (rc_Insecure c) (tls_Certificates t) pool"
    using GetTlsConfig_certs(3) [OF t(2)] by blast
  have r: "tls_RootCAs t = pool" "tls_ClientAuth t = NoClientCert"
    by (subst pool(2), simp add: peer_settings_def zero_tls_config_def)+
  show ?thesis
    using t(1) GetTlsConfig_certs(1,2) [OF t(2)] pool(1) r n
    by (auto simp: names_def own_certificate_def authorities_def split: option.splits)
qed

text \<open>A library with one server: made clients are numbers, and server 7 does not answer.\<close>

definition sample_options :: "(nat, nat) redis_options" where
  "sample_options =
     \<lparr>ro_Addr = ''redis:6379'', ro_ClientName = [], ro_DB = 3, ro_DialTimeout = 0, ro_ReadTimeout = 0,
      ro_WriteTimeout = 0, ro_ContextTimeoutEnabled = False, ro_MaxRetries = 0, ro_MinRetryBackoff = 0,
      ro_MaxRetryBackoff = 0, ro_PoolTimeout = 0, ro_ConnMaxIdleTime = 1800, ro_ConnMaxLifetime = 0,
      ro_TLSConfig = None\<rparr>"

definition sample_library :: "nat \<Rightarrow> (nat, nat, nat) redis_library" where
  "sample_library rds =
     \<lparr>rl_ParseURL = (\<lambda>_. Inr sample_options), rl_NewClient = (\<lambda>_. Some rds),
      rl_Ping = (\<lambda>n. if n = 7 then Some ''dial tcp: connection refused'' else None),
      rl_Set = (\<lambda>_ _ _ _. None), rl_Info = (\<lambda>_ _. Inr ''role:master'')\<rparr>"

definition sample_files :: "(nat, nat) cert_files" where
  "sample_files =
     \<lparr>cf_ReadFile = (\<lambda>_. Inr []), cf_AppendCertsFromPEM = (\<lambda>_. Some 1), cf_LoadX509KeyPair = (\<lambda>_ _. Inr 2)\<rparr>"

definition sample_process :: process_env where
  "sample_process = \<lparr>pe_Hostname = ''host'', pe_Pid = 12, pe_Intn = (\<lambda>i m. i mod m)\<rparr>"

definition sample_config :: RedisClientConfig where
  "sample_config =
     \<lparr>rc_Url = ''redis://redis:6379'', rc_DbIdx = -1, rc_EnableTLS = True, rc_Insecure = False,
      rc_Certificates = Some \<lparr>ct_Dir = ''/certs/'', ct_CertFile = [], ct_KeyFile = [], ct_CaCertFile = ''ca.pem''\<rparr>,
      rc_ServiceName = ''gateway'', rc_Timeout = 5, rc_MaxRetries = 4, rc_MinRetryBackoff = 8,
      rc_MaxRetryBackoff = 512, rc_PoolTimeout = 6, rc_ConnMaxIdleTime = 0, rc_ConnMaxLifetime = 9\<rparr>"

section \<open>Properties\<close>

text \<open>C35: when a Redis client is given to the caller, it has answered a ping, and the options it was
  made from are the server of the URL with each setting of the configuration over that of the URL: the
  database unless it is negative, the one timeout for dialling, reading and writing, the retries with
  their backoffs, the timeout of the pool and the ages of a connection unless they are zero, the name of
  the connection if the URL has none; contexts bound its commands. With TLS enabled the connection
  presents the certificate of the configured files, trusts the authorities of the configured file (the
  system's when there is none), and skips verification exactly when the configuration asks for it; with
  TLS disabled the URL decides.\<close>

theorem redis_client_options:
  assumes "NewRedisClient lib fs env cnf = (Inr rds, closed)"
  shows "\<exists>c ops o'. cnf = Some c \<and> rl_ParseURL lib (rc_Url c) = Inr ops \<and> rl_NewClient lib o' = Some rds \<and>
    rl_Ping lib rds = None \<and> closed = [] \<and>
    ro_Addr o' = ro_Addr ops \<and> ro_ContextTimeoutEnabled o' \<and>
    ro_ClientName o' =
      (if ro_ClientName ops = [] then client_name env (rc_ServiceName c) else ro_ClientName ops) \<and>
    ro_DB o' = (if rc_DbIdx c < 0 then ro_DB ops else rc_DbIdx c) \<and>
    ro_DialTimeout o' = configured (rc_Timeout c) (ro_DialTimeout ops) \<and>
    ro_ReadTimeout o' = configured (rc_Timeout c) (ro_ReadTimeout ops) \<and>
    ro_WriteTimeout o' = configured (rc_Timeout c) (ro_WriteTimeout ops) \<and>
    ro_MaxRetries o' = configured (rc_MaxRetries c) (ro_MaxRetries ops) \<and>
    ro_MinRetryBackoff o' = configured (rc_MinRetryBackoff c) (ro_MinRetryBackoff ops) \<and>
    ro_MaxRetryBackoff o' = configured (rc_MaxRetryBackoff c) (ro_MaxRetryBackoff ops) \<and>
    ro_PoolTimeout o' = configured (rc_PoolTimeout c) (ro_PoolTimeout ops) \<and>
    ro_ConnMaxIdleTime o' = configured (rc_ConnMaxIdleTime c) (ro_ConnMaxIdleTime ops) \<and>
    ro_ConnMaxLifetime o' = configured (rc_ConnMaxLifetime c) (ro_ConnMaxLifetime ops) \<and>
    (if rc_EnableTLS c
     then (\<exists>t. ro_TLSConfig o' = Some t \<and> tls_InsecureSkipVerify t = rc_Insecure c \<and>
       (case rc_Certificates c of
          None \<Rightarrow> tls_Certificates t = [] \<and> tls_RootCAs t = None
        | Some f \<Rightarrow>
            own_certificate fs (JoinCertPath (ct_Dir f) (ct_CertFile f)) (JoinCertPath (ct_Dir f) (ct_KeyFile f))
              = Some (tls_Certificates t) \<and>
            authorities fs (rc_Insecure c) (JoinCertPath (ct_Dir f) (ct_CaCertFile f)) = Some (tls_RootCAs t)))
     else ro_TLSConfig o' = ro_TLSConfig ops)"
proof -
  obtain c ops tls where c: "cnf = Some c" "rc_Url c \<noteq> []" "rl_ParseURL lib (rc_Url c) = Inr ops"
    "redis_tls fs c = Inr tls"
    using NewRedisClient_early [of cnf lib fs env] assms by fastforce
  have made: "rl_NewClient lib (client_options env c ops tls) = Some rds" "rl_Ping lib rds = None" "closed = []"
    using assms NewRedisClient_made [OF c(2-4), of env] c(1) by (auto split: option.splits)
  show ?thesis
    by (rule exI [of _ c], rule exI [of _ ops], rule exI [of _ "client_options env c ops tls"])
      (use c made redis_tls_enabled [OF c(4)] in \<open>auto simp: redis_tls_def\<close>)
qed

theorem redis_client_options_witness:
  "NewRedisClient (sample_library 1) sample_files sample_process (Some sample_config) = (Inr 1, []) \<and>
   (\<exists>o' t. rl_NewClient (sample_library 1) o' = Some (1::nat) \<and> ro_DB o' = 3 \<and> ro_DialTimeout o' = 5 \<and>
      ro_ReadTimeout o' = 5 \<and> ro_WriteTimeout o' = 5 \<and> ro_MaxRetries o' = 4 \<and> ro_MinRetryBackoff o' = 8 \<and>
      ro_MaxRetryBackoff o' = 512 \<and> ro_PoolTimeout o' = 6 \<and> ro_ConnMaxIdleTime o' = 1800 \<and>
      ro_ConnMaxLifetime o' = 9 \<and>
      ro_TLSConfig o' = Some t \<and> tls_RootCAs t = Some 1 \<and> tls_Certificates t = [] \<and> \<not> tls_InsecureSkipVerify t)"
proof -
  have run: "NewRedisClient (sample_library 1) sample_files sample_process (Some sample_config) = (Inr 1, [])"
    by code_simp
  have ca: "JoinCertPath ''/certs/'' ''ca.pem'' = ''/certs/ca.pem''" by code_simp
  have "own_certificate sample_files [] [] = Some []" "authorities sample_files False ''/certs/ca.pem'' = Some (Some 1)"
    by code_simp+
  then show ?thesis
    using redis_client_options [OF run] run ca
    by (auto simp: sample_config_def sample_library_def sample_options_def configured_def)
qed

text \<open>Creating a Redis client leaks nothing: whatever fails, every client the library made has
  been closed when the caller gets the error, and only a failed ping closes one; without a
  configuration, URL or readable TLS files no client is made at all.\<close>

theorem redis_client_failures:
  assumes "NewRedisClient lib fs env cnf = (Inl err, closed)"
  shows "case cnf of
     None \<Rightarrow> closed = []
   | Some c \<Rightarrow>
       (case (rl_ParseURL lib (rc_Url c), redis_tls fs c) of
          (Inr ops, Inr tls) \<Rightarrow>
            closed = (if rc_Url c = [] then [] else case rl_NewClient lib (client_options env c ops tls) of
                        None \<Rightarrow> [] | Some rds \<Rightarrow> [rds]) \<and>
            (\<forall>rds \<in> set closed. rl_Ping lib rds = Some err)
        | _ \<Rightarrow> closed = [])"
proof (cases cnf)
  case None
  then show ?thesis using assms by (simp add: NewRedisClient_def)
next
  case (Some c)
  show ?thesis
  proof (cases "\<exists>ops tls. rc_Url c \<noteq> [] \<and> rl_ParseURL lib (rc_Url c) = Inr ops \<and> redis_tls fs c = Inr tls")
    case True
    then obtain ops tls where c: "rc_Url c \<noteq> []" "rl_ParseURL lib (rc_Url c) = Inr ops" "redis_tls fs c = Inr tls"
      by blast
    then show ?thesis using assms NewRedisClient_made [OF c, of env] Some by (auto split: option.splits)
  next
    case False
    then have "closed = []" using NewRedisClient_early [of cnf lib fs env] assms Some by fastforce
    then show ?thesis using False Some by (auto split: sum.splits)
  qed
qed

theorem redis_client_failures_witness:
  "NewRedisClient (sample_library 7) sample_files sample_process (Some sample_config)
     = (Inl ''dial tcp: connection refused'', [7]) \<and>
   rl_Ping (sample_library 7) 7 = Some ''dial tcp: connection refused''"
proof -
  have run: "NewRedisClient (sample_library 7) sample_files sample_process (Some sample_config)
     = (Inl ''dial tcp: connection refused'', [7])"
    by code_simp
  have tls: "\<exists>tls. redis_tls sample_files sample_config = Inr tls" "rc_Url sample_config \<noteq> []"
    by (simp add: redis_tls_def sample_config_def GetTlsConfig_def sample_files_def split: sum.splits) code_simp
  show ?thesis
    using redis_client_failures [OF run] run tls
    by (auto simp: sample_library_def)
qed

text \<open>A client is taken for good exactly when the test key can be written and the replication
  text can be read and does not contain role:slave anywhere.\<close>

theorem check_client_good:
  "CheckClient lib timestamp rds keyPrefix serviceName = None \<longleftrightarrow>
     rl_Set lib rds (keyPrefix @ ''ping:'' @ serviceName @ '':'' @ timestamp) ''ping'' 10000000000 = None \<and>
     (\<exists>info. rl_Info lib rds ''replication'' = Inr info \<and> (\<nexists>a b. info = a @ ''role:slave'' @ b))"
  by (auto simp: CheckClient_def getPingKeyName_def Contains_sublist sublist_def split: option.splits sum.splits)

end
