(* ===== verification/Programs.thy ===== *)
theory Programs
  imports Routing Processor ProcMetrics TlsUtil
begin

text \<open>
  The two programs: \<open>cmd/apiserver/main.go\<close>, \<open>cmd/batch-processor/main.go\<close> with its observability
  server, and what both do with signals (\<open>internal/util/interrupt/interrupt.go\<close>). The host (command
  line, files, network, certificates, the HTTP library) is a record of parameters.
\<close>

section \<open>Signals\<close>

text \<open>
  \<open>ContextWithSignal\<close>: a channel of capacity two, which drops a signal when it is full, and a
  goroutine that cancels the context at the first signal and exits at the second. The caller may
  cancel the context itself.
\<close>

record signal_state =
  sg_delivered :: nat
  sg_pending :: nat
  sg_received :: nat
  sg_cancelled :: bool
  sg_exit :: "int option"

definition ContextWithSignal :: signal_state where
  "ContextWithSignal =
     \<lparr>sg_delivered = 0, sg_pending = 0, sg_received = 0, sg_cancelled = False, sg_exit = None\<rparr>"

text \<open>A step of the goroutine.\<close>

inductive watch_step :: "signal_state \<Rightarrow> signal_state \<Rightarrow> bool" where
  first: "sg_exit s = None \<Longrightarrow> sg_received s = 0 \<Longrightarrow> sg_pending s = Suc n \<Longrightarrow>
     watch_step s (s\<lparr>sg_pending := n, sg_received := 1, sg_cancelled := True\<rparr>)"
| second: "sg_exit s = None \<Longrightarrow> sg_received s = 1 \<Longrightarrow> sg_pending s = Suc n \<Longrightarrow>
     watch_step s (s\<lparr>sg_pending := n, sg_received := 2, sg_exit := Some 1\<rparr>)"

inductive signal_step :: "signal_state \<Rightarrow> signal_state \<Rightarrow> bool" where
  watch: "watch_step s s' \<Longrightarrow> signal_step s s'"
| deliver: "sg_exit s = None \<Longrightarrow>
     signal_step s (s\<lparr>sg_delivered := sg_delivered s + 1, sg_pending := min 2 (sg_pending s + 1)\<rparr>)"
| cancel: "signal_step s (s\<lparr>sg_cancelled := True\<rparr>)"

definition signal_inv :: "signal_state \<Rightarrow> bool" where
  "signal_inv s \<longleftrightarrow>
     sg_pending s \<le> 2 \<and> sg_received s \<le> 2 \<and> min 2 (sg_delivered s) \<le> sg_pending s + sg_received s \<and>
     sg_pending s + sg_received s \<le> sg_delivered s \<and>
     (0 < sg_received s \<longrightarrow> sg_cancelled s) \<and>
     sg_exit s = (if sg_received s = 2 then Some 1 else None)"

lemma signal_step_inv: "signal_step s s' \<Longrightarrow> signal_inv s \<Longrightarrow> signal_inv s'"
  by (induction rule: signal_step.induct) (auto simp: signal_inv_def elim!: watch_step.cases)

lemma signal_run_inv: "signal_step\<^sup>*\<^sup>* s s' \<Longrightarrow> signal_inv s \<Longrightarrow> signal_inv s'"
  by (induction rule: rtranclp_induct) (auto intro: signal_step_inv)

lemma signal_start: "signal_inv ContextWithSignal"
  by (simp add: signal_inv_def ContextWithSignal_def)

section \<open>The API server\<close>

record ('l, 'c) apiserver_host =
  ah_flags :: "string \<Rightarrow> error + string"
  ah_ReadFile :: "string \<Rightarrow> error + bytes"
  ah_yaml :: "bytes \<Rightarrow> ServerConfig \<Rightarrow> error + ServerConfig"
  ah_stat :: "string \<Rightarrow> error option"
  ah_listen :: "string \<Rightarrow> error + 'l"
  ah_load_pair :: "string \<Rightarrow> string \<Rightarrow> error + 'c"
  ah_serve :: "'l \<Rightarrow> 'c server_tls option \<Rightarrow> error option"

definition load_config :: "('l, 'c) apiserver_host \<Rightarrow> error + ServerConfig" where
  "load_config h = ServerConfig_Load (ah_flags h) (ah_ReadFile h) (ah_yaml h) (ah_stat h) NewConfig"

definition start_server :: "('l, 'c) apiserver_host \<Rightarrow> Server \<Rightarrow> error option \<times> 'c server_tls option option" where
  "start_server h server = Server_Start (ah_listen h) (ah_load_pair h) (ah_serve h) server"

text \<open>
  The exit status, and the last line of the log when \<open>main\<close> gets to one: the signals are watched once
  the configuration is loaded, and \<open>sg\<close> is where they have got to when the process ends. If the
  goroutine that watches them has exited, that was the end, wherever \<open>main\<close> was; if not, \<open>main\<close>
  returned. \<open>klog.Fatalf\<close> exits with 255.
\<close>

definition apiserver_main :: "('l, 'c) apiserver_host \<Rightarrow> signal_state \<Rightarrow> int \<times> string option" where
  "apiserver_main h sg =
     (case load_config h of
        Inl err \<Rightarrow> (255, Some (''failed to load config: '' @ err))
      | Inr config \<Rightarrow>
          (case sg_exit sg of
             Some status \<Rightarrow> (status, None)
           | None \<Rightarrow>
               (case Server_New (Some config) of
                  Inl err \<Rightarrow> (0, Some ''failed to create api server'')
                | Inr server \<Rightarrow>
                    (case start_server h server of
                       (Some err, _) \<Rightarrow> (0, Some ''failed to start api server'')
                     | (None, _) \<Rightarrow> (0, Some ''api server is terminated'')))))"

section \<open>The observability server of the processor\<close>

datatype obs_endpoint = Obs_Metrics | Obs_Health

definition obs_mux :: "obs_endpoint mux go_result" where
  "obs_mux =
     (case HandleFunc ''/metrics'' Obs_Metrics [] of
        Returns mux \<Rightarrow> HandleFunc ''/health'' Obs_Health mux
      | r \<Rightarrow> r)"

definition obs_serve ::
  "(server_request \<Rightarrow> response_writer \<Rightarrow> outcome) \<Rightarrow> obs_endpoint \<Rightarrow> server_request \<Rightarrow> response_writer
    \<Rightarrow> 's \<Rightarrow> outcome \<times> 's" where
  "obs_serve promhttp h r w s =
     (case h of
        Obs_Metrics \<Rightarrow> (promhttp r w, s)
      | Obs_Health \<Rightarrow> (Served (write_body ''ok'' (write_header 200 w)), s))"

text \<open>
  The goroutine of the server: the error that is logged, and the TLS settings it serves with, when
  it comes to that. \<open>serve\<close> is \<open>ListenAndServe\<close> or \<open>ListenAndServeTLS\<close> up to its error.
\<close>

definition run_observability ::
  "('p, 'c) cert_files \<Rightarrow> (string \<Rightarrow> ('p, 'c) peer_tls_config option \<Rightarrow> error option) \<Rightarrow> ProcessorConfig
    \<Rightarrow> error option \<times> ('p, 'c) peer_tls_config option option" where
  "run_observability fs serve cfg =
     (let run = (\<lambda>tls. case serve (pc_Addr cfg) tls of
           None \<Rightarrow> (None, Some tls)
         | Some err \<Rightarrow> (if err \<noteq> ErrServerClosed then Some err else None, Some tls))
      in if ProcessorConfig_SSLEnabled cfg then
           (case GetTlsConfig fs LOAD_TYPE_SERVER False (pc_SSLCertFile cfg) (pc_SSLKeyFile cfg) [] of
              Inl err \<Rightarrow> (Some err, None)
            | Inr tlsConfig \<Rightarrow> run (Some tlsConfig))
         else run None)"

section \<open>The processor\<close>

record ('b, 'g, 'p, 'c) processor_host =
  ph_flags :: "string \<Rightarrow> int + string"
  ph_open_file :: "string \<Rightarrow> error + bytes"
  ph_yaml :: "bytes \<Rightarrow> ProcessorConfig \<Rightarrow> error + ProcessorConfig"
  ph_prometheus :: "('b, 'g) prometheus"
  ph_files :: "('p, 'c) cert_files"
  ph_post :: "('p, 'c) HTTPClient \<Rightarrow> resty_request \<Rightarrow> error + resty_response"

definition inference_config :: "ProcessorConfig \<Rightarrow> HTTPClientConfig" where
  "inference_config cfg =
     \<lparr>hc_BaseURL = pc_InferenceGatewayURL cfg, hc_Timeout = pc_InferenceRequestTimeout cfg,
      hc_MaxIdleConns = 0, hc_IdleConnTimeout = 0, hc_APIKey = pc_InferenceAPIKey cfg,
      hc_TLSInsecureSkipVerify = pc_InferenceTLSInsecureSkipVerify cfg,
      hc_TLSCACertFile = pc_InferenceTLSCACertFile cfg,
      hc_TLSClientCertFile = pc_InferenceTLSClientCertFile cfg,
      hc_TLSClientKeyFile = pc_InferenceTLSClientKeyFile cfg, hc_TLSMinVersion = 0, hc_TLSMaxVersion = 0,
      hc_MaxRetries = pc_InferenceMaxRetries cfg, hc_InitialBackoff = pc_InferenceInitialBackoff cfg,
      hc_MaxBackoff = pc_InferenceMaxBackoff cfg\<rparr>"

text \<open>How \<open>run\<close> goes: exit by the flag parser, a panic, an error, or into the polling loop.\<close>

datatype 'a run_result = Exits int | Crashes error | Stalls | Fails error | Polls 'a

definition bind_run :: "'a go_result \<Rightarrow> ('a \<Rightarrow> 'b run_result) \<Rightarrow> 'b run_result" where
  "bind_run r f = (case r of Returns x \<Rightarrow> f x | Panics msg \<Rightarrow> Crashes msg | Blocks \<Rightarrow> Stalls)"

text \<open>
  The clients of the stores are nil, so that they have no state: \<open>unit\<close> stands for it. Signals and
  the observability server run beside.
\<close>

definition processor_clients ::
  "('b, 'g, 'p, 'c) processor_host \<Rightarrow> ('p, 'c) HTTPClient \<Rightarrow> (unit, unit, unit, unit) ProcessorClients" where
  "processor_clients h inferenceClient =
     NewProcessorClients None None None None (Some (Generate (ph_post h inferenceClient) None))"

definition processor_run ::
  "('b, 'g, 'p, 'c) processor_host \<Rightarrow> ('b, 'g) proc_metrics \<Rightarrow> (unit, unit, unit) proc_state run_result" where
  "processor_run h s =
     (case ph_flags h ''cmd/batch-processor/config.yaml'' of
        Inl status \<Rightarrow> Exits status
      | Inr cfgFilePath \<Rightarrow>
     (case LoadFromYAML (ph_open_file h) (ph_yaml h) cfgFilePath ProcessorConfig_New of
        Inl err \<Rightarrow> Fails err
      | Inr cfg \<Rightarrow>
     bind_run (fst (InitMetrics (ph_prometheus h) cfg s)) (\<lambda>err.
     (case err of
        Some err \<Rightarrow> Fails err
      | None \<Rightarrow>
     (case NewHTTPClient (ph_files h) (inference_config cfg) of
        Inl err \<Rightarrow> Fails err
      | Inr inferenceClient \<Rightarrow>
     bind_run (NewProcessor cfg ([], ()) () ()) (\<lambda>proc.
     (case RunPollingLoop_start (processor_clients h inferenceClient) proc of
        Inl err \<Rightarrow> Fails err
      | Inr proc \<Rightarrow> Polls proc)))))))"

text \<open>
  The exit status, if the process ends: a panic is 2, an error 1. \<open>loop\<close> is where the polling loop
  ends, if it does; \<open>Stop\<close> follows it.
\<close>

definition processor_main ::
  "('b, 'g, 'p, 'c) processor_host \<Rightarrow> ((unit, unit, unit) proc_state \<Rightarrow> (unit, unit, unit) proc_state go_result)
    \<Rightarrow> ('b, 'g) proc_metrics \<Rightarrow> int option" where
  "processor_main h loop s =
     (case processor_run h s of
        Exits status \<Rightarrow> Some status
      | Crashes msg \<Rightarrow> Some 2
      | Stalls \<Rightarrow> None
      | Fails err \<Rightarrow> Some 1
      | Polls proc \<Rightarrow>
          (case loop proc of
             Returns proc \<Rightarrow> (case Stop proc of Returns _ \<Rightarrow> Some 0 | Panics msg \<Rightarrow> Some 2 | Blocks \<Rightarrow> None)
           | Panics msg \<Rightarrow> Some 2
           | Blocks \<Rightarrow> None))"

section \<open>The routes of the observability server\<close>

definition obs_patterns :: "obs_endpoint mux" where
  "obs_patterns = [(pat [] [Lit ''metrics''], Obs_Metrics), (pat [] [Lit ''health''], Obs_Health)]"

lemma obs_mux_eq: "obs_mux = Returns obs_patterns"
  by code_simp

lemma clean_path_rooted: "cleanPath p = p \<Longrightarrow> p \<noteq> [] \<and> hd p = slash"
  using cleanPath_nonempty [of p] cleanPath_rooted [of p] by simp

lemma obs_with_method:
  "with_method m obs_patterns = (if m = [] then
     [([Lit ''metrics''], pat [] [Lit ''metrics''], Obs_Metrics), ([Lit ''health''], pat [] [Lit ''health''], Obs_Health)]
   else [])"
  by (simp add: obs_patterns_def)

lemma match_obs_path:
  "match_path (with_method [] obs_patterns) p =
     (if segments p = [''metrics''] then Some ((pat [] [Lit ''metrics''], Obs_Metrics), [])
      else if segments p = [''health''] then Some ((pat [] [Lit ''health''], Obs_Health), [])
      else None)"
proof -
  obtain segs where segs: "segments p = segs" by blast
  have c: "segs = [] \<or> (\<exists>a. segs = [a]) \<or> (\<exists>a b ss. segs = a # b # ss)" by (metis neq_Nil_conv)
  show ?thesis
    unfolding match_path_segments obs_with_method segs using c by (elim disjE exE) auto
qed

lemma match_obs:
  "match_request obs_patterns m p =
     (if segments p = [''metrics''] then Some ((pat [] [Lit ''metrics''], Obs_Metrics), [])
      else if segments p = [''health''] then Some ((pat [] [Lit ''health''], Obs_Health), [])
      else None)"
proof -
  have "match_path (with_method m obs_patterns) p = None" if "m \<noteq> []" for m
    using that by (simp add: obs_with_method match_path_segments)
  then show ?thesis by (cases "m = []") (auto simp: match_request_def match_obs_path split: option.splits)
qed

lemma obs_methods: "matching_methods obs_patterns p = []"
  by (simp add: matching_methods_def path_methods_def obs_patterns_def Let_def)

section \<open>Properties\<close>

text \<open>C39: two signals end a program: whatever else happened, once two have been delivered the
  goroutine, left to run, gets to its exit with status 1, with the context cancelled; and it never
  exits before a second signal.\<close>

theorem two_signals_exit:
  assumes "signal_step\<^sup>*\<^sup>* ContextWithSignal s"
  shows "if sg_delivered s < 2 then sg_exit s = None
    else \<exists>s'. watch_step\<^sup>*\<^sup>* s s' \<and> sg_exit s' = Some 1 \<and> sg_cancelled s'"
proof -
  have inv: "signal_inv s" by (rule signal_run_inv [OF assms signal_start])
  have two: "\<exists>s'. watch_step\<^sup>*\<^sup>* s s' \<and> sg_exit s' = Some 1 \<and> sg_cancelled s'"
    if "sg_received s = 1" "sg_pending s = Suc n" "sg_exit s = None" "sg_cancelled s" for s n
  proof -
    have "watch_step s (s\<lparr>sg_pending := n, sg_received := 2, sg_exit := Some 1\<rparr>)"
      by (rule watch_step.second [OF that(3,1,2)])
    from r_into_rtranclp [of watch_step, OF this] show ?thesis using that(4) by fastforce
  qed
  show ?thesis
  proof (cases "sg_delivered s < 2")
    case True
    then show ?thesis using inv by (auto simp: signal_inv_def split: if_splits)
  next
    case False
    then have d: "2 \<le> sg_pending s + sg_received s" using inv by (simp add: signal_inv_def)
    consider "sg_received s = 2" | "sg_received s = 1" | "sg_received s = 0" "sg_pending s = 2"
      using inv d by (force simp: signal_inv_def)
    then have "\<exists>s'. watch_step\<^sup>*\<^sup>* s s' \<and> sg_exit s' = Some 1 \<and> sg_cancelled s'"
    proof cases
      case 1
      then show ?thesis using inv by (intro exI [of _ s]) (simp add: signal_inv_def)
    next
      case 2
      then obtain n where "sg_pending s = Suc n" using d by (cases "sg_pending s") auto
      then show ?thesis using two [OF 2] inv 2 by (simp add: signal_inv_def)
    next
      case 3
      define t where "t = s\<lparr>sg_pending := 1, sg_received := 1, sg_cancelled := True\<rparr>"
      have none: "sg_exit s = None" using inv 3 by (simp add: signal_inv_def)
      have "watch_step s t"
        using watch_step.first [OF none 3(1), of 1] 3(2) by (simp add: t_def numeral_2_eq_2)
      moreover obtain s' where "watch_step\<^sup>*\<^sup>* t s'" "sg_exit s' = Some 1" "sg_cancelled s'"
        using two [of t 0] none by (auto simp: t_def)
      ultimately show ?thesis by (meson converse_rtranclp_into_rtranclp)
    qed
    then show ?thesis using False by simp
  qed
qed

lemma two_delivered:
  "\<exists>s. signal_step\<^sup>*\<^sup>* ContextWithSignal s \<and> sg_delivered s = 2 \<and> sg_exit s = None \<and> sg_received s = 0 \<and> sg_pending s = 2"
proof -
  let ?one = "ContextWithSignal\<lparr>sg_delivered := 1, sg_pending := 1\<rparr>"
  let ?two = "ContextWithSignal\<lparr>sg_delivered := 2, sg_pending := 2\<rparr>"
  have "signal_step ContextWithSignal ?one" "signal_step ?one ?two"
    using signal_step.deliver [of ContextWithSignal] signal_step.deliver [of ?one]
    by (simp_all add: ContextWithSignal_def numeral_2_eq_2)
  then have "signal_step\<^sup>*\<^sup>* ContextWithSignal ?two" by (meson r_into_rtranclp rtranclp.rtrancl_into_rtrancl)
  then show ?thesis by (intro exI [of _ ?two]) (simp add: ContextWithSignal_def)
qed

lemma two_signals_run:
  "\<exists>s. signal_step\<^sup>*\<^sup>* ContextWithSignal s \<and> sg_delivered s = 2 \<and> sg_exit s = Some 1"
proof -
  obtain s where s: "signal_step\<^sup>*\<^sup>* ContextWithSignal s" "sg_delivered s = 2" "sg_exit s = None"
    "sg_received s = 0" "sg_pending s = 2"
    using two_delivered by blast
  define t where "t = s\<lparr>sg_pending := 1, sg_received := 1, sg_cancelled := True\<rparr>"
  have "watch_step s t" "watch_step t (t\<lparr>sg_pending := 0, sg_received := 2, sg_exit := Some 1\<rparr>)"
    using watch_step.first [OF s(3,4), of 1] watch_step.second [of t 0] s(3,5) by (simp_all add: t_def numeral_2_eq_2)
  with s(1) have "signal_step\<^sup>*\<^sup>* ContextWithSignal (t\<lparr>sg_pending := 0, sg_received := 2, sg_exit := Some 1\<rparr>)"
    by (meson rtranclp.rtrancl_into_rtrancl signal_step.watch)
  then show ?thesis using s(2) by (fastforce simp: t_def)
qed

theorem two_signals_exit_witness:
  "\<exists>s s'. signal_step\<^sup>*\<^sup>* ContextWithSignal s \<and> sg_delivered s = 2 \<and> sg_exit s = None \<and>
     watch_step\<^sup>*\<^sup>* s s' \<and> sg_exit s' = Some 1"
proof -
  obtain s where s: "signal_step\<^sup>*\<^sup>* ContextWithSignal s" "sg_delivered s = 2" "sg_exit s = None"
    using two_delivered by blast
  show ?thesis using two_signals_exit [OF s(1)] s by auto
qed

text \<open>C37: what the API server serves, started with a configuration that was loaded: a configuration that
  names a key pair is served over TLS 1.2 or later with the certificate of exactly these files, or
  not at all, and one that names none is served in the clear; the server gives up before serving
  only when its port or its key pair cannot be had, and the end of the server by a shutdown is no
  error. The process ends with status 1 if a second signal made it exit, and otherwise with status 0,
  also when the server could not start; a log line says that, when \<open>main\<close> gets to it. With fewer than
  two signals the status is always 0.\<close>

theorem server_start_config:
  assumes "load_config h = Inr config" and "start_server h \<lparr>sr_config = config\<rparr> = (err, served)"
    and "signal_step\<^sup>*\<^sup>* ContextWithSignal sg"
  shows "(case served of
     None \<Rightarrow> \<exists>e. err = Some e \<and> (ah_listen h (sv_Host config @ '':'' @ sv_Port config) = Inl e \<or>
        sv_SSLCertFile config \<noteq> [] \<and> ah_load_pair h (sv_SSLCertFile config) (sv_SSLKeyFile config) = Inl e)
   | Some None \<Rightarrow> sv_SSLCertFile config = [] \<and> sv_SSLKeyFile config = [] \<and> err \<noteq> Some ErrServerClosed
   | Some (Some tls) \<Rightarrow> (\<exists>cert. ah_load_pair h (sv_SSLCertFile config) (sv_SSLKeyFile config) = Inr cert \<and>
        stl_Certificates tls = [cert]) \<and> sv_SSLCertFile config \<noteq> [] \<and> sv_SSLKeyFile config \<noteq> [] \<and>
        VersionTLS12 \<le> stl_MinVersion tls \<and> err \<noteq> Some ErrServerClosed) \<and>
   apiserver_main h sg =
     (if sg_exit sg \<noteq> None then (1, None)
      else (0, Some (if err = None then ''api server is terminated'' else ''failed to start api server''))) \<and>
   (sg_delivered sg < 2 \<longrightarrow> fst (apiserver_main h sg) = 0)"
proof -
  have c: "if SSLEnabled config then sv_SSLCertFile config \<noteq> [] \<and> sv_SSLKeyFile config \<noteq> []
    else sv_SSLCertFile config = [] \<and> sv_SSLKeyFile config = []"
    using assms(1) by (auto simp: load_config_def ServerConfig_Load_def ServerConfig_Validate_def SSLEnabled_def
        split: sum.splits option.splits if_splits)
  have inv: "signal_inv sg" by (rule signal_run_inv [OF assms(3) signal_start])
  then have exit: "sg_exit sg \<noteq> None \<longrightarrow> sg_exit sg = Some 1" "sg_delivered sg < 2 \<longrightarrow> sg_exit sg = None"
    by (auto simp: signal_inv_def split: if_splits)
  then have main: "apiserver_main h sg =
     (if sg_exit sg \<noteq> None then (1, None)
      else (0, Some (if err = None then ''api server is terminated'' else ''failed to start api server'')))"
    using assms(1,2) by (cases err) (auto simp: apiserver_main_def Server_New_def split: option.split)
  have served: "case served of
     None \<Rightarrow> \<exists>e. err = Some e \<and> (ah_listen h (sv_Host config @ '':'' @ sv_Port config) = Inl e \<or>
        sv_SSLCertFile config \<noteq> [] \<and> ah_load_pair h (sv_SSLCertFile config) (sv_SSLKeyFile config) = Inl e)
   | Some None \<Rightarrow> sv_SSLCertFile config = [] \<and> sv_SSLKeyFile config = [] \<and> err \<noteq> Some ErrServerClosed
   | Some (Some tls) \<Rightarrow> (\<exists>cert. ah_load_pair h (sv_SSLCertFile config) (sv_SSLKeyFile config) = Inr cert \<and>
        stl_Certificates tls = [cert]) \<and> sv_SSLCertFile config \<noteq> [] \<and> sv_SSLKeyFile config \<noteq> [] \<and>
        VersionTLS12 \<le> stl_MinVersion tls \<and> err \<noteq> Some ErrServerClosed"
    using assms(2) c
    by (auto simp: start_server_def Server_Start_def Let_def server_tls_of_def VersionTLS12_def
        split: sum.splits option.splits if_splits)
  show ?thesis by (intro conjI served main) (use main exit(2) in simp)
qed

text \<open>A host on which the key pair cannot be read.\<close>

definition sample_host :: "(unit, nat) apiserver_host" where
  "sample_host =
     \<lparr>ah_flags = Inr, ah_ReadFile = (\<lambda>_. Inr []),
      ah_yaml = (\<lambda>_ c. Inr (c\<lparr>sv_Port := ''8000'', sv_SSLCertFile := ''c.pem'', sv_SSLKeyFile := ''k.pem''\<rparr>)),
      ah_stat = (\<lambda>_. None), ah_listen = (\<lambda>_. Inr ()), ah_load_pair = (\<lambda>_ _. Inl ''tls: private key does not match''),
      ah_serve = (\<lambda>_ _. None)\<rparr>"

definition sample_tls_config :: ServerConfig where
  "sample_tls_config = NewConfig\<lparr>sv_Port := ''8000'', sv_SSLCertFile := ''c.pem'', sv_SSLKeyFile := ''k.pem''\<rparr>"

theorem server_start_config_witness:
  "start_server sample_host \<lparr>sr_config = sample_tls_config\<rparr> = (Some ''tls: private key does not match'', None) \<and>
   apiserver_main sample_host ContextWithSignal = (0, Some ''failed to start api server'') \<and>
   (\<exists>sg. signal_step\<^sup>*\<^sup>* ContextWithSignal sg \<and> sg_delivered sg = 2 \<and> apiserver_main sample_host sg = (1, None))"
proof -
  have l: "load_config sample_host = Inr sample_tls_config" by code_simp
  have s: "start_server sample_host \<lparr>sr_config = sample_tls_config\<rparr> = (Some ''tls: private key does not match'', None)"
    by code_simp
  note config = server_start_config [OF l s]
  obtain sg where sg: "signal_step\<^sup>*\<^sup>* ContextWithSignal sg" "sg_delivered sg = 2" "sg_exit sg = Some 1"
    using two_signals_run by blast
  show ?thesis using config [OF rtranclp.rtrancl_refl] config [OF sg(1)] s sg by (auto simp: ContextWithSignal_def)
qed

text \<open>The observability server answers on two paths, to every method: the metrics and, on the health
  path, 200 with the body ok; any other path is 404.\<close>

theorem observability_routes:
  assumes "sr_EscapedPath r = p" and "cleanPath p = p" and "rq_Method (sr_rq r) \<noteq> ''CONNECT''"
  shows "\<exists>mux q. obs_mux = Returns mux \<and>
     mux_ServeHTTP (obs_serve promhttp) mux r w s =
       (if segments p = [''metrics''] then (promhttp (bind_path q [] r) w, s)
        else if segments p = [''health''] then (Served (write_body ''ok'' (write_header 200 w)), s)
        else (Served (http_Error ''404 page not found'' 404 w), s))"
proof -
  have rooted: "p \<noteq> []" "hd p = slash" using clean_path_rooted [OF assms(2)] by auto
  have more: "match_request obs_patterns m (p @ [slash]) = None" if "\<not> ends_slash p" for m
    using segments_slash [OF rooted that] by (simp add: match_obs)
  have found: "find_handler obs_patterns r =
      (case match_request obs_patterns (rq_Method (sr_rq r)) p of Some (h, vs) \<Rightarrow> Found h vs | None \<Rightarrow> NoPage)"
    using assms more by (auto simp: find_handler_def Let_def obs_methods split: option.split)
  have serve: "mux_ServeHTTP (obs_serve promhttp) obs_patterns r w s =
       (if segments p = [''metrics''] then (promhttp (bind_path (pat [] [Lit ''metrics'']) [] r) w, s)
        else if segments p = [''health''] then (Served (write_body ''ok'' (write_header 200 w)), s)
        else (Served (http_Error ''404 page not found'' 404 w), s))"
    unfolding mux_ServeHTTP_def found match_obs by (simp add: obs_serve_def)
  show ?thesis
    by (rule exI [of _ obs_patterns], rule exI [of _ "pat [] [Lit ''metrics'']"]) (use serve in \<open>simp add: obs_mux_eq\<close>)
qed

theorem observability_routes_witness:
  "\<exists>mux. obs_mux = Returns mux \<and>
     mux_ServeHTTP (obs_serve (\<lambda>r w. Hangs)) mux (sample_get ''POST'' ''/health'' []) new_writer ()
       = (Served (write_body ''ok'' (write_header 200 new_writer)), ())"
proof -
  have c: "cleanPath ''/health'' = ''/health''" "segments ''/health'' = [''health'']" by code_simp+
  show ?thesis
    using observability_routes [OF sample_get_simps(1) c(1), of "''POST''" "[]" "\<lambda>r w. Hangs" new_writer "()"] c(2)
    by auto
qed

text \<open>C38: the processor never gets to its polling loop: its store clients are nil, so every start ends
  before a job is taken, with a non-zero status unless the command line only asked for help. (A second signal before that ends it
  too, with status 1.)\<close>

theorem processor_never_polls:
  "(\<forall>proc. processor_run h s \<noteq> Polls proc) \<and>
   (processor_main h loop s = Some 0 \<longleftrightarrow> ph_flags h ''cmd/batch-processor/config.yaml'' = Inl 0)"
proof -
  have start: "RunPollingLoop_start (processor_clients h client) proc =
      Inl ''critical clients are missing in processor: database client is missing''" for client proc
    by (simp add: RunPollingLoop_start_def prepare_def processor_clients_def NewProcessorClients_def
        ProcessorClients_Validate_def)
  have "(\<exists>status. processor_run h s = Exits status \<and> ph_flags h ''cmd/batch-processor/config.yaml'' = Inl status) \<or>
    (\<exists>path. ph_flags h ''cmd/batch-processor/config.yaml'' = Inr path) \<and>
    ((\<exists>msg. processor_run h s = Crashes msg) \<or> processor_run h s = Stalls \<or> (\<exists>err. processor_run h s = Fails err))"
    by (auto simp: start processor_run_def bind_run_def split: sum.splits go_result.splits option.splits)
  then show ?thesis by (auto simp: processor_main_def)
qed

end
