(* ===== verification/FileObject.thy ===== *)
theory FileObject
  imports BatchHandler "HOL-Library.Word"
begin

text \<open>
  File objects (\<open>internal/shared/openai/file.go\<close>) with their JSON form, and the metadata of stored
  files (\<open>internal/files_store/api/files.go\<close>). An \<open>int32\<close> is a \<open>32 word\<close>, read as a signed number.
\<close>

section \<open>Numbers of 32 bits\<close>

definition int32_ok :: "int \<Rightarrow> bool" where
  "int32_ok i \<longleftrightarrow> - (2 ^ 31) \<le> i \<and> i < 2 ^ 31"

definition enc_int32 :: "32 word \<Rightarrow> json" where
  "enc_int32 n = enc_int (sint n)"

definition dec_int32 :: "32 word decoder" where
  "dec_int32 j n =
     (case dec_int64 j (sint n) of
        None \<Rightarrow> None
      | Some i \<Rightarrow> (if int32_ok i then Some (word_of_int i) else None))"

lemma int32_ok_sint [simp]: "int32_ok (sint (n :: 32 word))"
  using sint_greater_eq [of n] sint_less [of n] by (simp add: int32_ok_def)

lemma int32_ok_64: "int32_ok i \<Longrightarrow> int64_ok i"
  by (simp add: int32_ok_def int64_ok_def)

lemma sint_int32: "int32_ok i \<Longrightarrow> sint (word_of_int i :: 32 word) = i"
  by (simp add: int32_ok_def signed_of_int signed_take_bit_int_eq_self)

lemma dec_int32_enc [simp]: "dec_int32 (enc_int32 n) m = Some n"
  using int32_ok_64 [OF int32_ok_sint [of n]] by (simp add: dec_int32_def enc_int32_def)

lemma dec_int32_number: "int64_ok i \<Longrightarrow> dec_int32 (enc_int i) m = (if int32_ok i then Some (word_of_int i) else None)"
  by (simp add: dec_int32_def)

section \<open>File objects\<close>

type_synonym FileObjectPurpose = string
type_synonym FileObjectStatus = string

definition FileObjectPurposeAssistants :: FileObjectPurpose where "FileObjectPurposeAssistants = ''assistants''"
definition FileObjectPurposeAssistantsOutput :: FileObjectPurpose where "FileObjectPurposeAssistantsOutput = ''assistants_output''"
definition FileObjectPurposeBatch :: FileObjectPurpose where "FileObjectPurposeBatch = ''batch''"
definition FileObjectPurposeBatchOutput :: FileObjectPurpose where "FileObjectPurposeBatchOutput = ''batch_output''"
definition FileObjectPurposeFineTune :: FileObjectPurpose where "FileObjectPurposeFineTune = ''fine-tune''"
definition FileObjectPurposeFineTuneResults :: FileObjectPurpose where "FileObjectPurposeFineTuneResults = ''fine-tune-results''"
definition FileObjectPurposeVision :: FileObjectPurpose where "FileObjectPurposeVision = ''vision''"
definition FileObjectPurposeUserData :: FileObjectPurpose where "FileObjectPurposeUserData = ''user_data''"

definition FileObjectStatusUploaded :: FileObjectStatus where "FileObjectStatusUploaded = ''uploaded''"
definition FileObjectStatusProcessed :: FileObjectStatus where "FileObjectStatusProcessed = ''processed''"
definition FileObjectStatusError :: FileObjectStatus where "FileObjectStatusError = ''error''"

record FileObject =
  fo_ID :: string
  fo_Bytes :: "32 word"
  fo_CreatedAt :: "32 word"
  fo_ExpiresAt :: "32 word"
  fo_Filename :: string
  fo_Object :: string
  fo_Purpose :: FileObjectPurpose
  fo_Status :: FileObjectStatus
  fo_StatusDetails :: string

definition zero_FileObject :: FileObject where
  "zero_FileObject =
     \<lparr>fo_ID = [], fo_Bytes = 0, fo_CreatedAt = 0, fo_ExpiresAt = 0, fo_Filename = [], fo_Object = [],
      fo_Purpose = [], fo_Status = [], fo_StatusDetails = []\<rparr>"

definition enc_FileObject :: "FileObject \<Rightarrow> json" where
  "enc_FileObject f = JObj
     ([(''id'', JStr (fo_ID f)), (''bytes'', enc_int32 (fo_Bytes f)),
       (''created_at'', enc_int32 (fo_CreatedAt f)), (''expires_at'', enc_int32 (fo_ExpiresAt f)),
       (''filename'', JStr (fo_Filename f)), (''object'', JStr (fo_Object f)), (''purpose'', JStr (fo_Purpose f))]
      @ member_unless (fo_Status f = []) ''status'' (JStr (fo_Status f))
      @ member_unless (fo_StatusDetails f = []) ''status_details'' (JStr (fo_StatusDetails f)))"

definition FileObject_fields :: "FileObject field_table" where
  "FileObject_fields =
     [field ''id'' dec_string fo_ID fo_ID_update,
      field ''bytes'' dec_int32 fo_Bytes fo_Bytes_update,
      field ''created_at'' dec_int32 fo_CreatedAt fo_CreatedAt_update,
      field ''expires_at'' dec_int32 fo_ExpiresAt fo_ExpiresAt_update,
      field ''filename'' dec_string fo_Filename fo_Filename_update,
      field ''object'' dec_string fo_Object fo_Object_update,
      field ''purpose'' dec_string fo_Purpose fo_Purpose_update,
      field ''status'' dec_string fo_Status fo_Status_update,
      field ''status_details'' dec_string fo_StatusDetails fo_StatusDetails_update]"

definition FileObject_ok :: "FileObject \<Rightarrow> bool" where
  "FileObject_ok f \<longleftrightarrow>
     utf8_valid (fo_ID f) \<and> utf8_valid (fo_Filename f) \<and> utf8_valid (fo_Object f) \<and> utf8_valid (fo_Purpose f) \<and>
     utf8_valid (fo_Status f) \<and> utf8_valid (fo_StatusDetails f)"

lemma dec_FileObject_enc: "dec_struct FileObject_fields (enc_FileObject f) zero_FileObject = Some f"
  by (cases f) (simp add: enc_FileObject_def FileObject_fields_def zero_FileObject_def member_unless_def dec_simps)

lemma file_field_names:
  "utf8_valid ''id''" "utf8_valid ''bytes''" "utf8_valid ''created_at''" "utf8_valid ''expires_at''"
  "utf8_valid ''filename''" "utf8_valid ''object''" "utf8_valid ''purpose''" "utf8_valid ''status''"
  "utf8_valid ''status_details''"
  by code_simp+

lemma FileObject_json_ok: "FileObject_ok f \<Longrightarrow> json_ok (enc_FileObject f)"
  by (auto simp: FileObject_ok_def enc_FileObject_def member_unless_def file_field_names enc_int32_def)

section \<open>Stored files\<close>

record BatchFileMetadata =
  fm_Location :: string
  fm_Size :: "64 word"
  fm_ModTime :: gotime

section \<open>Properties\<close>

text \<open>A file object is read back unchanged from the text it is written to, with every signed 32-bit
  size and time; and decoding a number yields it exactly when it fits 32 bits and refuses the whole
  text otherwise, so that a creation time after January 2038, which is no problem for a batch, makes
  a file object unreadable.\<close>

theorem file_object_roundtrip:
  assumes "FileObject_ok f" and "int64_ok i"
  shows "Unmarshal FileObject_fields (jprint (enc_FileObject f)) zero_FileObject = Some f \<and>
    dec_struct FileObject_fields (JObj [(''created_at'', enc_int i)]) zero_FileObject =
      (if - (2 ^ 31) \<le> i \<and> i < 2 ^ 31 then Some (zero_FileObject\<lparr>fo_CreatedAt := word_of_int i\<rparr>) else None)"
proof -
  have "Unmarshal FileObject_fields (jprint (enc_FileObject f)) zero_FileObject = Some f"
    using json_parse_jprint [OF FileObject_json_ok [OF assms(1)]] dec_FileObject_enc [of f]
    by (simp add: Unmarshal_def)
  moreover have "dec_struct FileObject_fields (JObj [(''created_at'', enc_int i)]) zero_FileObject =
      (if int32_ok i then Some (zero_FileObject\<lparr>fo_CreatedAt := word_of_int i\<rparr>) else None)"
    using dec_int32_number [OF assms(2)] by (simp add: FileObject_fields_def dec_simps)
  ultimately show ?thesis by (simp add: int32_ok_def)
qed

theorem file_object_roundtrip_witness:
  "Unmarshal FileObject_fields
     (jprint (enc_FileObject (zero_FileObject\<lparr>fo_ID := ''file-1'', fo_Bytes := -1\<rparr>))) zero_FileObject
     = Some (zero_FileObject\<lparr>fo_ID := ''file-1'', fo_Bytes := -1\<rparr>) \<and>
   dec_struct FileObject_fields (JObj [(''created_at'', enc_int 2147483648)]) zero_FileObject = None"
proof -
  have "FileObject_ok (zero_FileObject\<lparr>fo_ID := ''file-1'', fo_Bytes := -1\<rparr>)" "int64_ok 2147483648"
    by (simp_all add: FileObject_ok_def zero_FileObject_def int64_ok_def)
  then show ?thesis
    using file_object_roundtrip [of "zero_FileObject\<lparr>fo_ID := ''file-1'', fo_Bytes := -1\<rparr>" 2147483648] by simp
qed

end
