(* ===== verification/Contexts.thy ===== *)
theory Contexts
  imports Prelude
begin

text \<open>
  The contexts the clients derive for a call (\<open>GetContext\<close> of \<open>internal/shared/store/batch_client.go\<close>
  and of the four clients of \<open>internal/database/mock\<close>), with what they use of Go's \<open>context\<close>: a
  context is done when it was cancelled or its deadline has passed.
\<close>

record go_context =
  ctx_deadline :: "gotime option"
  ctx_cancelled :: bool

definition Background :: go_context where
  "Background = \<lparr>ctx_deadline = None, ctx_cancelled = False\<rparr>"

definition ctx_done :: "gotime \<Rightarrow> go_context \<Rightarrow> bool" where
  "ctx_done now ctx \<longleftrightarrow> ctx_cancelled ctx \<or> (case ctx_deadline ctx of None \<Rightarrow> False | Some t \<Rightarrow> t \<le> now)"

text \<open>\<open>context.WithTimeout\<close> at the instant \<open>now\<close>: the earlier of the two deadlines.\<close>

definition WithTimeout :: "gotime \<Rightarrow> go_context \<Rightarrow> duration \<Rightarrow> go_context" where
  "WithTimeout now parent timeout =
     parent\<lparr>ctx_deadline := Some (case ctx_deadline parent of None \<Rightarrow> now + timeout | Some t \<Rightarrow> min t (now + timeout))\<rparr>"

definition mdb_GetContext :: "gotime \<Rightarrow> go_context \<Rightarrow> duration \<Rightarrow> go_context" where
  "mdb_GetContext now parentCtx timeLimit = WithTimeout now parentCtx timeLimit"
definition mpq_GetContext :: "gotime \<Rightarrow> go_context \<Rightarrow> duration \<Rightarrow> go_context" where
  "mpq_GetContext now parentCtx timeLimit = WithTimeout now parentCtx timeLimit"
definition mev_GetContext :: "gotime \<Rightarrow> go_context \<Rightarrow> duration \<Rightarrow> go_context" where
  "mev_GetContext now parentCtx timeLimit = WithTimeout now parentCtx timeLimit"
definition mst_GetContext :: "gotime \<Rightarrow> go_context \<Rightarrow> duration \<Rightarrow> go_context" where
  "mst_GetContext now parentCtx timeLimit = WithTimeout now parentCtx timeLimit"

text \<open>
  The interface promises a default limit when none is given; the in-memory clients give a context
  that is done from the start.
\<close>

lemma GetContext_no_limit:
  "timeLimit \<le> 0 \<Longrightarrow> ctx_done now (mdb_GetContext now parentCtx timeLimit)"
  by (auto simp: ctx_done_def mdb_GetContext_def WithTimeout_def split: option.split)

text \<open>A derived context never outlives its parent, nor its time limit.\<close>

lemma GetContext_within:
  "ctx_done t parentCtx \<Longrightarrow> ctx_done t (mdb_GetContext now parentCtx timeLimit)"
  "now + timeLimit \<le> t \<Longrightarrow> ctx_done t (mdb_GetContext now parentCtx timeLimit)"
  by (auto simp: ctx_done_def mdb_GetContext_def WithTimeout_def split: option.splits)

end
