(* ===== verification/Spec2Isabelle.thy ===== *)
theory Spec2Isabelle
  imports ApiSpec HttpContract Races WholeSystem JobMetrics MockStatus RedisClient Programs FileObject Contexts
begin

text \<open>
  A model of the offline batch gateway: a server with the OpenAI Batch API and a processor that
  works off the batches, two programs that meet in a job database, a priority queue, an event
  channel and a status store.

  \<^bold>\<open>The program and its parts.\<close> The API server (\<open>internal/apiserver\<close>) accepts a batch, stores it
  as a job with a static and a dynamic JSON text, and queues it by its deadline (\<open>SLO\<close>); it lists,
  retrieves and cancels batches. The processor (\<open>internal/processor\<close>) polls the queue with a pool of
  workers, fetches each job and sends its lines to an inference gateway (\<open>internal/inference\<close>). The
  stores are Go interfaces (\<open>internal/database/api\<close>) with in-memory implementations
  (\<open>internal/database/mock\<close>).

  \<^bold>\<open>Theories.\<close>
  \<^item> \<^verbatim>\<open>Prelude\<close>: types, rule collections, list facts. A Go string or byte slice is a list of
    \<open>char\<close> (one per byte), an error its message, an instant and a duration nanoseconds as \<open>int\<close>. A call
    that may panic or wait for ever has the type \<open>go_result\<close>.
  \<^item> \<^verbatim>\<open>GoNum\<close>, \<^verbatim>\<open>GoJson\<close>, \<^verbatim>\<open>GoPath\<close>: what the program uses of Go's standard library: \<open>strconv\<close>, \<open>Sscanf\<close>
    with \<open>%d\<close>, \<open>time.ParseDuration\<close>, \<open>Duration.Seconds\<close> with its rounding to \<open>float64\<close>, \<open>filepath\<close>, path
    escaping, and \<open>encoding/json\<close>: the printer with its escapes, the parser, and decoding into structs
    by tables of fields (names match up to case, unknown members are skipped, \<open>null\<close> keeps a value).
    \<open>json_parse_jprint\<close> is the round trip of the texts. \<^verbatim>\<open>Contexts\<close>: deadlines, and \<open>GetContext\<close> of the
    in-memory clients.
  \<^item> \<^verbatim>\<open>OpenAI\<close>: \<open>shared/openai/batch.go\<close>, one record per struct, its JSON form and its field table,
    \<open>Validate\<close>. \<^verbatim>\<open>FileObject\<close>: \<open>shared/openai/file.go\<close>, with \<open>int32\<close> as a word. \<^verbatim>\<open>Rest\<close>: \<open>apierror.go\<close>,
    \<open>apiserver/common/rest.go\<close>, the response writer with its headers, and the request.
  \<^item> \<^verbatim>\<open>StoreApi\<close>: \<open>database/api/database.go\<close>: jobs, queue entries, events, the operations of each client
    as a record of functions, and what each client promises as a locale: \<open>job_store\<close>, \<open>job_queue\<close>,
    \<open>event_channels\<close>, \<open>status_store\<close>. Jobs are Go pointers: indices into a heap of job objects.
  \<^item> \<^verbatim>\<open>MockDB\<close>, \<^verbatim>\<open>MockQueue\<close>, \<^verbatim>\<open>MockEvent\<close>, \<^verbatim>\<open>MockStatus\<close>: the four clients of \<open>database/mock\<close>, each with
    its invariant and the interpretation of its locale. The order in which a map is visited, the
    clock, the state of a context and the choice of a \<open>select\<close> are parameters.
  \<^item> \<^verbatim>\<open>ServerConf\<close>, \<^verbatim>\<open>ProcessorConf\<close>: the two configurations.
  \<^item> \<^verbatim>\<open>BatchHandler\<close>: \<open>apiserver/batch/batch_handler.go\<close>, a definition per handler over any clients.
    \<^verbatim>\<open>BatchService\<close>: the locale \<open>batch_service\<close> (all contracts together) with what each handler does
    under it, the invariant \<open>service_ok\<close> and the step relation \<open>api_step\<close>; interpreted on the
    in-memory clients. \<^verbatim>\<open>ApiContract\<close>: the properties a client of the API sees. \<^verbatim>\<open>ApiSpec\<close>: the service as
    a list of batches and a sorted waiting line (\<open>spec_call\<close>), and the relation \<open>refines\<close> under which
    every sequence of calls of the handlers gives its answers (\<open>service_refines_spec\<close>).
  \<^item> \<^verbatim>\<open>Interleaving\<close>: requests that overlap. The handlers that write are cut at their calls of the
    clients (\<open>activity_step\<close>; \<open>create_alone\<close> and \<open>cancel_alone\<close> put the pieces together again) and
    \<open>conc_step\<close> lets them take turns. The locale \<open>concurrent_service\<close> proves the invariant of every
    interleaving. \<^verbatim>\<open>Races\<close>: what two overlapping requests for one batch can do to each other, in every
    schedule of their steps (\<open>run_turns\<close>) from every reachable state; the machine \<open>race_step\<close> follows
    them on the stored batch and whether it is queued (\<open>race_run\<close>).
  \<^item> \<^verbatim>\<open>ServeMux\<close>: the router of \<open>net/http\<close> as far as the server uses it (patterns, conflicts, matching,
    redirects, 405). \<^verbatim>\<open>Middleware\<close>: \<open>apiserver/middleware\<close> and \<open>apiserver/metrics/metrics.go\<close>, as functions
    around a handler, with the panic of the metrics on a label that is not UTF-8. \<^verbatim>\<open>ApiServer\<close>: the
    health, files and metrics handlers and \<open>apiserver/server/server.go\<close>. \<^verbatim>\<open>Routing\<close>: the router against a
    table. \<^verbatim>\<open>Gateway\<close>, \<^verbatim>\<open>HttpContract\<close>: a request through router, middleware and handlers, against what the
    batch API makes of its method and path (\<open>batch_call\<close>), and what holds of all of them.
  \<^item> \<^verbatim>\<open>Inference\<close>: \<open>inference/client.go\<close> and \<open>errors.go\<close>; the HTTP library is a parameter.
  \<^item> \<^verbatim>\<open>WorkerPool\<close>: \<open>processor/worker/worker_pool.go\<close>, with the locale \<open>id_pool\<close>. \<^verbatim>\<open>JobRun\<close>: one job
    (\<open>shared/batch/batch_job.go\<close>, \<open>processJob\<close>), as a function and as the concurrent steps of its
    reader and its lines. \<^verbatim>\<open>Processor\<close>: the polling loop of \<open>worker.go\<close> as a step relation.
    \<^verbatim>\<open>ProcMetrics\<close>: \<open>processor/metrics/metrics.go\<close> over any registry that keeps the documented contract of
    \<open>Register\<close> (\<open>register_law\<close>). \<^verbatim>\<open>JobMetrics\<close>: the goroutine of a
    worker with the metrics it records, which changes nothing else (\<open>metered_goroutine\<close>).
  \<^item> \<^verbatim>\<open>JobSteps\<close>: \<open>processJob\<close> cut at its calls of the status store and the database (\<open>phase_step\<close>;
    \<open>processJob_as_steps\<close> puts it together again). \<^verbatim>\<open>System\<close>: both halves on one set of in-memory stores:
    \<open>sys_step\<close> lets overlapping requests, the polling loop and the workers, each at any of its calls,
    take turns. Its invariant \<open>system_ok\<close> keeps accounts of where each batch is: queued, about to be
    queued, in a worker's hands, begun by one, or about to be marked by a cancel request.
    \<^verbatim>\<open>WholeSystem\<close>: the same with the turn of the loop cut at its calls (\<open>whole_step\<close>), which simulates
    \<open>sys_step\<close> (\<open>whole_step_simulated\<close>), and the properties of both halves together.
  \<^item> \<^verbatim>\<open>TlsUtil\<close>, \<^verbatim>\<open>RedisClient\<close>: \<open>util/tls\<close>, \<open>util/redis\<close> and \<open>util/com\<close>; the Redis library is a parameter.
  \<^item> \<^verbatim>\<open>Programs\<close>: the two \<open>main\<close> functions of \<open>cmd\<close>, the observability server of the processor, and the
    signals of \<open>util/interrupt\<close>.

  \<^bold>\<open>What the lemmas show.\<close> On the API side: a valid request is stored, queued and readable again
  with the same text, also over HTTP; every sequence of calls gets the answers of an abstract service
  without stores; a rejected request changes nothing; a refused enqueue is rolled
  back; cancelling takes a waiting batch out of the queue or notifies its consumers; in every
  reachable state the queue is ordered and holds only batches that are still validating, and no
  retrieval fails inside the server; every request but a preflight and those of the
  health and metrics pages is given a tagged response, which is sent and counted when the path is
  UTF-8, and the whole server runs the batch handler that method and path name, and no other. When requests overlap, the queue stays ordered and every job readable, but a
  status can be lost. On the processor side: no two jobs share a worker, the earliest
  job is taken first, no job is lost when the database fails, a job's concurrency is bounded and
  every run ends. Of both together: two workers never have the same batch, a batch that reads as
  cancelled is never processed, none is begun twice, and none that waits is lost. Several theorems
  state what the code does where it does not do what it seems meant to do: the processor program
  never starts its loop, since its clients are nil; the loop itself releases workers the wait group
  never counted and so panics at the first release; a job ends as completed and is counted as a
  success whatever its lines do; the body \<open>null\<close> makes the create handler panic (and is answered
  500); a path that is not UTF-8 makes the metrics panic outside of the recovery, so that the request
  is neither answered nor counted; a cancellation between the two writes of a create request leaves
  a queued batch that is being cancelled, and two overlapping cancellations can undo a final status;
  an API server that cannot start exits with status 0; metrics that are initialised twice
  are exported no more; listings cannot be continued; and trailing text in a numeric parameter is
  ignored.

  \<^bold>\<open>Bounds.\<close> The JSON parser has fuel, twice the length of the text and one more;
  \<open>json_value_fuel\<close> shows that more changes nothing. \<open>run_alone\<close> has as many steps as a handler has
  calls. Every other function is total: \<open>Dequeue\<close> recurs on the observations of its polling loop and
  answers \<open>Blocks\<close> when they run out.

  \<^bold>\<open>Simplifications.\<close> A call of a store client is one step; outside \<open>Interleaving\<close>, \<open>Races\<close> and \<open>System\<close> a handler
  is one step too, and outside \<open>System\<close> a goroutine of the processor takes its effects on the stores when
  it ends. A JSON number too large for a \<open>float64\<close> is accepted as raw response data. A request's query
  is given as parsed. A handler of the batch API panics, if it does, before it writes. The causes
  wrapped into errors that are only logged are dropped. The loop that serves a port is a parameter
  that ends with its error, so that the graceful shutdown of a server is the error \<open>ErrServerClosed\<close>.

  \<^bold>\<open>Not modelled.\<close> Logging, which is output only, with the loggers kept in contexts; the help texts
  and buckets of the API server's metrics; the interface of the file store, which nothing implements or
  calls; and the Postgres, Redis and file stores, which are package clauses without code.
\<close>

section \<open>Data in JSON\<close>

text \<open>C25: every specification and every status of a batch whose strings are UTF-8 and whose numbers
  fit 64 bits is read back, unchanged, from the text the gateway stores for it.\<close>

theorem stored_batch_roundtrip:
  assumes "BatchSpec_ok (b_Spec b)" and "BatchStatusInfo_ok (b_Status b)"
    and "job_ID j = b_ID b" and "job_Spec j = jprint (enc_BatchSpec (b_Spec b))"
    and "job_Status j = jprint (enc_BatchStatusInfo (b_Status b))"
  shows "jobToBatch j = Inr b"
  using assms by (intro jobToBatch_carries) (simp add: carries_def)

theorem stored_batch_roundtrip_witness:
  "jobToBatch
     \<lparr>job_ID = ''b'', job_SLO = 1, job_TTL = 1, job_Tags = [],
      job_Spec = jprint (enc_BatchSpec (zero_BatchSpec\<lparr>spec_Metadata := [(''k'', ''v'')], spec_CreatedAt := 7\<rparr>)),
      job_Status = jprint (enc_BatchStatusInfo (zero_BatchStatusInfo\<lparr>st_Status := ''failed'', st_FailedAt := Some 9\<rparr>))\<rparr>
   = Inr \<lparr>b_ID = ''b'', b_Spec = zero_BatchSpec\<lparr>spec_Metadata := [(''k'', ''v'')], spec_CreatedAt := 7\<rparr>,
          b_Status = zero_BatchStatusInfo\<lparr>st_Status := ''failed'', st_FailedAt := Some 9\<rparr>\<rparr>"
proof -
  have "utf8_valid ''failed''" by code_simp
  then have "BatchStatusInfo_ok (zero_BatchStatusInfo\<lparr>st_Status := ''failed'', st_FailedAt := Some 9\<rparr>)"
    by (simp add: BatchStatusInfo_ok_def zero_BatchStatusInfo_def BatchRequestCounts_ok_def
        zero_BatchRequestCounts_def int64_ok_def)
  moreover have "BatchSpec_ok (zero_BatchSpec\<lparr>spec_Metadata := [(''k'', ''v'')], spec_CreatedAt := 7\<rparr>)"
    by code_simp
  ultimately show ?thesis by (intro stored_batch_roundtrip) simp_all
qed

section \<open>Errors between the two halves of the gateway\<close>

lemma ErrorCodeToType_utf8: "utf8_valid (ErrorCodeToType code)"
proof -
  have "utf8_valid ''BadRequestError''" "utf8_valid ''AuthenticationError''" "utf8_valid ''PermissionDeniedError''"
    "utf8_valid ''NotFoundError''" "utf8_valid ''UnprocessableEntityError''" "utf8_valid ''RateLimitError''"
    "utf8_valid ''NotImplementedError''" "utf8_valid ''InternalServerError''" "utf8_valid ''APIConnectionError''"
    by code_simp+
  then show ?thesis by (simp add: ErrorCodeToType_def)
qed

lemma error_field_names:
  "utf8_valid ''error''" "utf8_valid ''code''" "utf8_valid ''type''" "utf8_valid ''message''" "utf8_valid ''param''"
  by code_simp+

text \<open>The inference client understands the error bodies the API server writes: of a body written
  by \<open>WriteAPIError\<close> it reports the status and the message, and not the raw text.\<close>

theorem error_body_understood:
  assumes "utf8_valid msg" and "msg \<noteq> []" and "int64_ok code"
  shows "ce_Message (handleErrorResponse code (rw_body (WriteAPIError (NewAPIError code [] msg None) new_writer)))
     = ''HTTP '' @ show_int code @ '': '' @ msg"
proof -
  let ?e = "NewAPIError code [] msg None"
  let ?j = "enc_ErrorResponse \<lparr>er_Error = ?e\<rparr>"
  have "json_ok ?j"
    using assms ErrorCodeToType_utf8 error_field_names
    by (auto simp: enc_ErrorResponse_def enc_APIError_def NewAPIError_def member_unless_def)
  then have "json_parse (rw_body (WriteAPIError ?e new_writer)) = Some ?j"
    by (simp add: WriteAPIError_def rest_simps Let_def json_parse_jprint)
  moreover have "\<exists>oe. dec_struct error_body_fields ?j \<lparr>eb_Error = zero_openai_error\<rparr> = Some \<lparr>eb_Error = oe\<rparr> \<and>
      oe_Message oe = msg"
    using assms(3)
    by (simp add: enc_ErrorResponse_def enc_APIError_def NewAPIError_def error_body_fields_def
        openai_error_fields_def zero_openai_error_def dec_simps member_unless_def)
  ultimately show ?thesis
    using assms(2) by (auto simp: handleErrorResponse_def Let_def)
qed

theorem error_body_understood_witness:
  "ce_Message (handleErrorResponse 404 (rw_body (WriteAPIError (NewAPIError 404 [] ''no such batch'' None) new_writer)))
     = ''HTTP 404: no such batch''"
proof -
  have "utf8_valid ''no such batch''" "int64_ok 404" "show_int 404 = ''404''" by code_simp+
  then show ?thesis using error_body_understood [of "''no such batch''" 404] by simp
qed

end
